(* ===== verification/Enclave_Prelude.thy ===== *)
theory Enclave_Prelude
  imports
    Main
    "HOL-Library.Word"
    "HOL-Library.Char_ord"
    "HOL-Library.List_Lexorder"
    "HOL-Library.Product_Lexorder"
begin

text \<open>
  Shared vocabulary of the development: the result type of fallible Rust code, the part of the Rust
  string and integer API the modelled sources use (byte strings, ASCII classes, \<open>trim\<close>, \<open>split\<close>,
  \<open>rsplit_once\<close>, \<open>parse\<close>, \<open>Display\<close> of integers), fixed-width arithmetic (saturating and checked
  operations on \<open>u64\<close>), and generic lemmas on lists and options. A Rust \<open>String\<close> is the list of its
  UTF-8 bytes, so \<open>String::len\<close> is \<^const>\<open>length\<close> and the order of strings is the byte order.
\<close>

unbundle bit_operations_syntax

named_theorems rust_string_simps \<open>evaluation rules for the modelled string API\<close>
named_theorems result_simps \<open>rules that take the result type apart\<close>

section \<open>Widths and results\<close>

type_synonym u8 = "8 word"
type_synonym u16 = "16 word"
type_synonym u32 = "32 word"
type_synonym u64 = "64 word"

fun and_then :: "'e + 'a \<Rightarrow> ('a \<Rightarrow> 'e + 'b) \<Rightarrow> 'e + 'b" where
  "and_then (Inl e) f = Inl e"
| "and_then (Inr a) f = f a"

definition ok_or :: "'e \<Rightarrow> 'a option \<Rightarrow> 'e + 'a" where
  "ok_or e x = (case x of None \<Rightarrow> Inl e | Some a \<Rightarrow> Inr a)"

fun is_ok :: "'e + 'a \<Rightarrow> bool" where
  "is_ok (Inl _) = False"
| "is_ok (Inr _) = True"

lemma and_then_Inr_iff [result_simps]:
  "and_then r f = Inr b \<longleftrightarrow> (\<exists>a. r = Inr a \<and> f a = Inr b)"
  by (cases r) auto

lemma and_then_Inl_iff [result_simps]:
  "and_then r f = Inl e \<longleftrightarrow> r = Inl e \<or> (\<exists>a. r = Inr a \<and> f a = Inl e)"
  by (cases r) auto

lemma ok_or_Inr_iff [result_simps]: "ok_or e x = Inr a \<longleftrightarrow> x = Some a"
  by (cases x) (auto simp: ok_or_def)

lemma ok_or_Inl_iff [result_simps]: "ok_or e x = Inl e' \<longleftrightarrow> x = None \<and> e' = e"
  by (cases x) (auto simp: ok_or_def)

lemma ok_or_Some [simp]: "ok_or e (Some a) = Inr a"
  by (simp add: ok_or_def)

lemma ok_or_None [simp]: "ok_or e None = Inl e"
  by (simp add: ok_or_def)

lemma is_ok_iff: "is_ok r \<longleftrightarrow> (\<exists>a. r = Inr a)"
  by (cases r) auto

section \<open>Arithmetic of fixed width\<close>

definition saturating_add :: "'a::len word \<Rightarrow> 'a word \<Rightarrow> 'a word" where
  "saturating_add a b = (if unat a + unat b < 2 ^ LENGTH('a) then a + b else - 1)"

definition checked_mul :: "'a::len word \<Rightarrow> 'a word \<Rightarrow> 'a word option" where
  "checked_mul a b = (if unat a * unat b < 2 ^ LENGTH('a) then Some (a * b) else None)"

lemma unat_minus_one_word_pow: "unat (- 1 :: 'a::len word) = 2 ^ LENGTH('a) - 1"
  by (simp add: unsigned_minus_1_eq_mask mask_eq_exp_minus_1)

lemma unat_of_nat_small: "n < 2 ^ LENGTH('a) \<Longrightarrow> unat (of_nat n :: 'a::len word) = n"
  by (simp add: unsigned_of_nat take_bit_nat_eq_self)

lemma unat_saturating_add:
  "unat (saturating_add a (b :: 'a::len word)) = min (unat a + unat b) (2 ^ LENGTH('a) - 1)"
  by (auto simp: saturating_add_def unat_minus_one_word_pow unat_word_ariths)

lemma checked_mul_Some_iff:
  "checked_mul a (b :: 'a::len word) = Some c \<longleftrightarrow> unat c = unat a * unat b"
proof
  assume "checked_mul a b = Some c"
  then show "unat c = unat a * unat b"
    by (auto simp: checked_mul_def unat_word_ariths split: if_splits)
next
  assume c: "unat c = unat a * unat b"
  have "unat c < 2 ^ LENGTH('a)" by (rule unsigned_less)
  with c have lt: "unat a * unat b < 2 ^ LENGTH('a)" by simp
  have "unat (a * b) = unat c" using lt c by (simp add: unat_word_ariths)
  then have "a * b = c" by (simp add: word_unat_eq_iff)
  with lt show "checked_mul a b = Some c" by (simp add: checked_mul_def)
qed

text \<open>The cast \<open>as i64\<close> of a \<open>u64\<close> reads the same bits as two's complement.\<close>

definition as_i64 :: "u64 \<Rightarrow> int" where
  "as_i64 w = (if uint w < 2 ^ 63 then uint w else uint w - 2 ^ 64)"

lemma as_i64_nonneg_iff: "0 \<le> as_i64 w \<longleftrightarrow> uint w < 2 ^ 63"
proof -
  have "uint w < 2 ^ LENGTH(64)" by (rule unsigned_less)
  then have "uint w < 2 ^ 64" by simp
  then show ?thesis by (simp add: as_i64_def)
qed

section \<open>Bytes and ASCII classes\<close>

definition byte :: "char \<Rightarrow> nat" where
  "byte c = of_char c"

definition in_range :: "char \<Rightarrow> char \<Rightarrow> char \<Rightarrow> bool" where
  "in_range lo hi c = (byte lo \<le> byte c \<and> byte c \<le> byte hi)"

definition is_ascii_digit :: "char \<Rightarrow> bool" where
  "is_ascii_digit c = in_range CHR ''0'' CHR ''9'' c"

definition is_ascii_lowercase :: "char \<Rightarrow> bool" where
  "is_ascii_lowercase c = in_range CHR ''a'' CHR ''z'' c"

definition is_ascii_uppercase :: "char \<Rightarrow> bool" where
  "is_ascii_uppercase c = in_range CHR ''A'' CHR ''Z'' c"

definition is_ascii_alphanumeric :: "char \<Rightarrow> bool" where
  "is_ascii_alphanumeric c = (is_ascii_digit c \<or> is_ascii_lowercase c \<or> is_ascii_uppercase c)"

definition to_ascii_lowercase :: "char \<Rightarrow> char" where
  "to_ascii_lowercase c = (if is_ascii_uppercase c then char_of (byte c + 32) else c)"

lemmas ascii_defs =
  byte_def in_range_def is_ascii_digit_def is_ascii_lowercase_def is_ascii_uppercase_def
  is_ascii_alphanumeric_def to_ascii_lowercase_def

lemma byte_less_256 [simp]: "byte c < 256"
  unfolding byte_def by (rule nat_of_char_less_256)

lemma char_of_byte [simp]: "char_of (byte c) = c"
  by (simp add: byte_def)

lemma byte_char_of: "n < 256 \<Longrightarrow> byte (char_of n) = n"
  by (simp add: byte_def of_char_of)

lemma byte_eq_iff [simp]: "byte c = byte d \<longleftrightarrow> c = d"
  by (simp add: byte_def)

section \<open>Slices of strings\<close>

fun split_on :: "char \<Rightarrow> string \<Rightarrow> string list" where
  "split_on d [] = [[]]"
| "split_on d (c # cs) =
     (if c = d then [] # split_on d cs
      else (case split_on d cs of [] \<Rightarrow> [[c]] | w # ws \<Rightarrow> (c # w) # ws))"

fun join_with :: "string \<Rightarrow> string list \<Rightarrow> string" where
  "join_with sep [] = []"
| "join_with sep [w] = w"
| "join_with sep (w # v # ws) = w @ sep @ join_with sep (v # ws)"

definition split_once :: "char \<Rightarrow> string \<Rightarrow> (string \<times> string) option" where
  "split_once d s =
     (case dropWhile (\<lambda>c. c \<noteq> d) s of [] \<Rightarrow> None | _ # r \<Rightarrow> Some (takeWhile (\<lambda>c. c \<noteq> d) s, r))"

definition rsplit_once :: "char \<Rightarrow> string \<Rightarrow> (string \<times> string) option" where
  "rsplit_once d s =
     (case split_once d (rev s) of None \<Rightarrow> None | Some (a, b) \<Rightarrow> Some (rev b, rev a))"

fun strip_prefix :: "string \<Rightarrow> string \<Rightarrow> string option" where
  "strip_prefix [] s = Some s"
| "strip_prefix (p # ps) [] = None"
| "strip_prefix (p # ps) (c # cs) = (if p = c then strip_prefix ps cs else None)"

definition starts_with :: "string \<Rightarrow> string \<Rightarrow> bool" where
  "starts_with p s = (strip_prefix p s \<noteq> None)"

lemma split_on_nonempty [simp]: "split_on d s \<noteq> []"
  by (induction s) (auto split: list.splits)

lemma split_on_no_sep: "d \<notin> set s \<Longrightarrow> split_on d s = [s]"
  by (induction s) auto

lemma split_on_append_sep:
  "d \<notin> set a \<Longrightarrow> split_on d (a @ d # b) = a # split_on d b"
  by (induction a) auto

lemma split_once_Some_iff:
  "split_once d s = Some (a, b) \<longleftrightarrow> s = a @ d # b \<and> d \<notin> set a"
proof
  assume "split_once d s = Some (a, b)"
  then obtain c where drop: "dropWhile (\<lambda>c. c \<noteq> d) s = c # b"
      and a: "a = takeWhile (\<lambda>c. c \<noteq> d) s"
    by (auto simp: split_once_def split: list.splits)
  have "c = d" using hd_dropWhile [of "\<lambda>c. c \<noteq> d" s] drop by auto
  moreover have "d \<notin> set a" using a set_takeWhileD by fastforce
  ultimately show "s = a @ d # b \<and> d \<notin> set a"
    using takeWhile_dropWhile_id [of "\<lambda>c. c \<noteq> d" s] drop a by simp
next
  assume s: "s = a @ d # b \<and> d \<notin> set a"
  then have "\<forall>c\<in>set a. c \<noteq> d" by auto
  with s show "split_once d s = Some (a, b)"
    by (simp add: split_once_def dropWhile_append2 takeWhile_append2)
qed

lemma split_once_None_iff: "split_once d s = None \<longleftrightarrow> d \<notin> set s"
proof -
  have "split_once d s = None \<longleftrightarrow> dropWhile (\<lambda>c. c \<noteq> d) s = []"
    by (cases "dropWhile (\<lambda>c. c \<noteq> d) s")
      (auto simp add: split_once_def simp del: dropWhile_eq_Nil_conv)
  also have "\<dots> \<longleftrightarrow> d \<notin> set s" by (auto simp: dropWhile_eq_Nil_conv)
  finally show ?thesis .
qed

lemma rsplit_once_Some_iff:
  "rsplit_once d s = Some (a, b) \<longleftrightarrow> s = a @ d # b \<and> d \<notin> set b"
proof -
  have "rsplit_once d s = Some (a, b) \<longleftrightarrow> split_once d (rev s) = Some (rev b, rev a)"
    by (auto simp: rsplit_once_def split: option.splits)
  also have "\<dots> \<longleftrightarrow> rev s = rev b @ d # rev a \<and> d \<notin> set b"
    by (simp add: split_once_Some_iff)
  also have "\<dots> \<longleftrightarrow> s = a @ d # b \<and> d \<notin> set b"
    using rev_swap [of s "rev b @ d # rev a"] by auto
  finally show ?thesis .
qed

lemma rsplit_once_None_iff: "rsplit_once d s = None \<longleftrightarrow> d \<notin> set s"
  using split_once_None_iff [of d "rev s"]
  by (auto simp: rsplit_once_def split: option.splits)

lemma strip_prefix_Some_iff: "strip_prefix p s = Some r \<longleftrightarrow> s = p @ r"
  by (induction p s rule: strip_prefix.induct) auto

lemma starts_with_iff: "starts_with p s \<longleftrightarrow> (\<exists>r. s = p @ r)"
  by (metis not_Some_eq starts_with_def strip_prefix_Some_iff)

section \<open>Trimming\<close>

text \<open>
  \<open>str::trim\<close> removes the Unicode White_Space characters at both ends; the three predicates list
  their UTF-8 encodings of one, two and three bytes.
\<close>

definition ws1 :: "char \<Rightarrow> bool" where
  "ws1 a = (9 \<le> byte a \<and> byte a \<le> 13 \<or> byte a = 32)"

definition ws2 :: "char \<Rightarrow> char \<Rightarrow> bool" where
  "ws2 a b = (byte a = 194 \<and> (byte b = 133 \<or> byte b = 160))"

definition ws3 :: "char \<Rightarrow> char \<Rightarrow> char \<Rightarrow> bool" where
  "ws3 a b c =
     (byte a = 225 \<and> byte b = 154 \<and> byte c = 128 \<or>
      byte a = 226 \<and> byte b = 128 \<and>
        (128 \<le> byte c \<and> byte c \<le> 138 \<or> byte c = 168 \<or> byte c = 169 \<or> byte c = 175) \<or>
      byte a = 226 \<and> byte b = 129 \<and> byte c = 159 \<or>
      byte a = 227 \<and> byte b = 128 \<and> byte c = 128)"

fun trim_by :: "(char \<Rightarrow> bool) \<Rightarrow> (char \<Rightarrow> char \<Rightarrow> bool) \<Rightarrow> (char \<Rightarrow> char \<Rightarrow> char \<Rightarrow> bool) \<Rightarrow>
    string \<Rightarrow> string" where
  "trim_by p q r [] = []"
| "trim_by p q r [a] = (if p a then [] else [a])"
| "trim_by p q r [a, b] =
     (if p a then trim_by p q r [b] else if q a b then [] else [a, b])"
| "trim_by p q r (a # b # c # s) =
     (if p a then trim_by p q r (b # c # s)
      else if q a b then trim_by p q r (c # s)
      else if r a b c then trim_by p q r s
      else a # b # c # s)"

definition trim_start :: "string \<Rightarrow> string" where
  "trim_start s = trim_by ws1 ws2 ws3 s"

definition trim_end :: "string \<Rightarrow> string" where
  "trim_end s = rev (trim_by ws1 (\<lambda>a b. ws2 b a) (\<lambda>a b c. ws3 c b a) (rev s))"

definition trim :: "string \<Rightarrow> string" where
  "trim s = trim_end (trim_start s)"

definition graphic :: "char \<Rightarrow> bool" where
  "graphic c = (32 < byte c \<and> byte c < 128)"

lemma trim_by_stop:
  assumes "\<not> p a" "\<And>b. \<not> q a b" "\<And>b c. \<not> r a b c"
  shows "trim_by p q r (a # s) = a # s"
  using assms by (cases s; cases "tl s") auto

lemma trim_graphic:
  assumes "s \<noteq> []" "graphic (hd s)" "graphic (last s)"
  shows "trim s = s"
proof -
  obtain a t where s: "s = a # t" using assms(1) by (cases s) auto
  have start: "trim_start s = s"
    unfolding trim_start_def s
    by (rule trim_by_stop) (use assms(2) s in \<open>auto simp: graphic_def ws1_def ws2_def ws3_def\<close>)
  obtain b u where r: "rev s = b # u" using assms(1) by (cases "rev s") auto
  then have "b = last s" by (metis hd_rev list.sel(1))
  with assms(3) have g: "graphic b" by simp
  have "trim_by ws1 (\<lambda>a b. ws2 b a) (\<lambda>a b c. ws3 c b a) (b # u) = b # u"
    by (rule trim_by_stop) (use g in \<open>auto simp: graphic_def ws1_def ws2_def ws3_def\<close>)
  then show ?thesis
    unfolding trim_def start trim_end_def r [symmetric] by simp
qed

lemma trim_Nil [simp]: "trim [] = []"
  by (simp add: trim_def trim_start_def trim_end_def)

section \<open>Decimal numbers\<close>

definition digit_char :: "nat \<Rightarrow> char" where
  "digit_char d = char_of (48 + d)"

definition digit_val :: "char \<Rightarrow> nat" where
  "digit_val c = byte c - 48"

text \<open>\<open>Display\<close> of an unsigned integer, and \<open>str::parse\<close> of an unsigned type with maximum \<open>m\<close>.\<close>

fun dec_string :: "nat \<Rightarrow> string" where
  "dec_string n =
     (if n < 10 then [digit_char n] else dec_string (n div 10) @ [digit_char (n mod 10)])"

declare dec_string.simps [simp del]

definition dec_value :: "string \<Rightarrow> nat" where
  "dec_value s = foldl (\<lambda>acc c. acc * 10 + digit_val c) 0 s"

definition parse_uint :: "nat \<Rightarrow> string \<Rightarrow> nat option" where
  "parse_uint m s =
     (let body = (case s of [] \<Rightarrow> [] | c # r \<Rightarrow> if c = CHR ''+'' then r else s) in
      if body \<noteq> [] \<and> list_all is_ascii_digit body \<and> dec_value body \<le> m
      then Some (dec_value body) else None)"

lemma is_ascii_digit_iff: "is_ascii_digit c \<longleftrightarrow> 48 \<le> byte c \<and> byte c \<le> 57"
  by (simp add: ascii_defs)

lemma is_ascii_digit_char [simp]: "d < 10 \<Longrightarrow> is_ascii_digit (digit_char d)"
  by (simp add: is_ascii_digit_iff digit_char_def byte_char_of)

lemma digit_val_char [simp]: "d < 10 \<Longrightarrow> digit_val (digit_char d) = d"
  by (simp add: digit_val_def digit_char_def byte_char_of)

lemma dec_string_nonempty [simp]: "dec_string n \<noteq> []"
  by (subst dec_string.simps) simp

lemma dec_string_digits: "list_all is_ascii_digit (dec_string n)"
  by (induction n rule: dec_string.induct) (subst dec_string.simps, simp)

lemma dec_value_snoc: "dec_value (s @ [c]) = dec_value s * 10 + digit_val c"
  by (simp add: dec_value_def)

lemma dec_value_dec_string [simp]: "dec_value (dec_string n) = n"
proof (induction n rule: dec_string.induct)
  case (1 n)
  show ?case
  proof (cases "n < 10")
    case True
    then show ?thesis by (subst dec_string.simps) (simp add: dec_value_def)
  next
    case False
    then show ?thesis using 1 by (subst dec_string.simps) (simp add: dec_value_snoc)
  qed
qed

lemma dec_string_inj [simp]: "dec_string m = dec_string n \<longleftrightarrow> m = n"
  by (metis dec_value_dec_string)

lemma dec_string_hd_zero: "hd (dec_string n) = CHR ''0'' \<Longrightarrow> n = 0"
proof (induction n rule: dec_string.induct)
  case (1 n)
  show ?case
  proof (cases "n < 10")
    case True
    then have "digit_char n = CHR ''0''"
      using 1(2) by (subst (asm) dec_string.simps) simp
    then have "n = digit_val CHR ''0''" using digit_val_char [OF True] by simp
    then show ?thesis by (simp add: digit_val_def byte_def)
  next
    case False
    then have "hd (dec_string (n div 10)) = CHR ''0''"
      using 1(2) by (subst (asm) dec_string.simps) simp
    with False 1(1) show ?thesis by simp
  qed
qed

lemma length_dec_string_le: "n < 10 ^ k \<Longrightarrow> 0 < k \<Longrightarrow> length (dec_string n) \<le> k"
proof (induction k arbitrary: n)
  case (Suc k)
  show ?case
  proof (cases "n < 10")
    case True
    then show ?thesis by (subst dec_string.simps) simp
  next
    case False
    with Suc.prems have "n div 10 < 10 ^ k" "0 < k" by (auto intro: gr0I)
    from Suc.IH [OF this] False show ?thesis by (subst dec_string.simps) simp
  qed
qed simp

lemma digit_not_in_dec_string: "\<not> is_ascii_digit c \<Longrightarrow> c \<notin> set (dec_string n)"
  using dec_string_digits [of n] by (auto simp: list_all_iff)

lemma parse_uint_dec_string [simp]:
  "parse_uint m (dec_string n) = (if n \<le> m then Some n else None)"
proof -
  obtain c r where s: "dec_string n = c # r" by (cases "dec_string n") auto
  have "is_ascii_digit c" using dec_string_digits [of n] s by simp
  then have "c \<noteq> CHR ''+''" by (auto simp: ascii_defs)
  moreover have "dec_value (c # r) = n" by (metis dec_value_dec_string s)
  ultimately show ?thesis
    using dec_string_digits [of n] unfolding s parse_uint_def by (simp add: Let_def)
qed

lemma parse_uint_bound: "parse_uint m s = Some n \<Longrightarrow> n \<le> m"
  by (auto simp: parse_uint_def Let_def split: if_splits)

end
