(* ===== verification/Errors.thy ===== *)
theory Errors
  imports Enclave_Prelude
begin

text \<open>
  Error codes and protocol responses (\<open>src/error.rs\<close>, \<open>src/protocol.rs\<close>). An \<open>anyhow::Error\<close> is a
  chain of contexts around a root cause; the root is either a plain message or a \<open>Coded\<close> value. Only
  the fixed part of a message is kept: values interpolated into a text never influence control flow.
\<close>

section \<open>Codes\<close>

datatype error_code =
    InvalidRequest
  | NotFound
  | Conflict
  | RateLimited
  | PolicyDenied
  | Unsupported
  | Timeout
  | CleanupIncomplete
  | Internal

fun error_code_as_str :: "error_code \<Rightarrow> string" where
  "error_code_as_str InvalidRequest = ''invalid_request''"
| "error_code_as_str NotFound = ''not_found''"
| "error_code_as_str Conflict = ''conflict''"
| "error_code_as_str RateLimited = ''rate_limited''"
| "error_code_as_str PolicyDenied = ''policy_denied''"
| "error_code_as_str Unsupported = ''unsupported''"
| "error_code_as_str Timeout = ''timeout''"
| "error_code_as_str CleanupIncomplete = ''cleanup_incomplete''"
| "error_code_as_str Internal = ''internal''"

record coded_error =
  coded_code :: error_code
  coded_message :: string

datatype anyhow =
    Message string
  | CodedError coded_error
  | Context string anyhow

type_synonym 'a result = "anyhow + 'a"

definition coded :: "error_code \<Rightarrow> string \<Rightarrow> anyhow" where
  "coded code message = CodedError \<lparr> coded_code = code, coded_message = message \<rparr>"

definition bail :: "string \<Rightarrow> 'a result" where
  "bail message = Inl (Message message)"

definition bail_code :: "error_code \<Rightarrow> string \<Rightarrow> 'a result" where
  "bail_code code message = Inl (coded code message)"

definition with_context :: "string \<Rightarrow> 'a result \<Rightarrow> 'a result" where
  "with_context text r = (case r of Inl e \<Rightarrow> Inl (Context text e) | Inr a \<Rightarrow> Inr a)"

text \<open>\<open>error.chain()\<close>: the links from the outermost context to the root cause. A link carries a
  \<open>Coded\<close> value or it does not.\<close>

fun chain :: "anyhow \<Rightarrow> coded_error option list" where
  "chain (Message m) = [None]"
| "chain (CodedError c) = [Some c]"
| "chain (Context t e) = None # chain e"

fun code_of_links :: "coded_error option list \<Rightarrow> error_code" where
  "code_of_links [] = Internal"
| "code_of_links (Some c # links) = coded_code c"
| "code_of_links (None # links) = code_of_links links"

definition code_of :: "anyhow \<Rightarrow> error_code" where
  "code_of e = code_of_links (chain e)"

lemma code_of_simps [simp]:
  "code_of (Message m) = Internal"
  "code_of (CodedError c) = coded_code c"
  "code_of (Context t e) = code_of e"
  by (simp_all add: code_of_def)

lemma code_of_coded [simp]: "code_of (coded c m) = c"
  by (simp add: coded_def)

lemma code_of_with_context [simp]:
  "with_context t r = Inl e \<longleftrightarrow> (\<exists>e'. r = Inl e' \<and> e = Context t e')"
  by (auto simp: with_context_def split: sum.splits)

lemma with_context_Inr [simp, result_simps]: "with_context t r = Inr a \<longleftrightarrow> r = Inr a"
  by (cases r) (auto simp: with_context_def)

lemma bail_not_Inr [simp, result_simps]: "bail m \<noteq> Inr a" "bail_code c m \<noteq> Inr a"
  by (simp_all add: bail_def bail_code_def)

lemma inj_error_code_as_str: "inj error_code_as_str"
proof (rule injI)
  fix a b :: error_code
  assume "error_code_as_str a = error_code_as_str b"
  then show "a = b" by (cases a; cases b) simp_all
qed

section \<open>Responses\<close>

record 'v response =
  resp_ok :: bool
  resp_result :: "'v option"
  resp_error :: "string option"
  resp_code :: "error_code option"
  resp_operation_id :: string

definition response_ok :: "'v \<Rightarrow> string \<Rightarrow> 'v response" where
  "response_ok result operation_id =
     \<lparr> resp_ok = True, resp_result = Some result, resp_error = None, resp_code = None,
       resp_operation_id = operation_id \<rparr>"

definition response_err_code :: "error_code \<Rightarrow> string \<Rightarrow> string \<Rightarrow> 'v response" where
  "response_err_code code message operation_id =
     \<lparr> resp_ok = False, resp_result = None, resp_error = Some message, resp_code = Some code,
       resp_operation_id = operation_id \<rparr>"

end
