(* ===== verification/Ipam.thy ===== *)
theory Ipam
  imports Errors
begin

text \<open>
  The address pool of the workspace network (\<open>src/network/ipam.rs\<close>): the four-word bitmap of used
  host octets, the search for the lowest free octet, and the textual form of an address. A
  \<open>BTreeSet<u8>\<close> is the list of its elements in iteration order. Shows that the search returns the
  least free octet of the pool and gives up only when the pool is full, and that addresses
  written by the allocator are read back as the octet they were made from.
\<close>

section \<open>The bitmap\<close>

definition SUBNET_PREFIX :: "u8 list" where
  "SUBNET_PREFIX = [10, 200, 0]"

definition POOL_START :: u8 where
  "POOL_START = 10"

definition POOL_END :: u8 where
  "POOL_END = 254"

record ip_bitmap =
  ip_bits :: "u64 list"

definition ip_mark :: "u8 \<Rightarrow> ip_bitmap \<Rightarrow> ip_bitmap" where
  "ip_mark octet b =
     (if \<not> (POOL_START \<le> octet \<and> octet \<le> POOL_END) then b
      else let index = unat (octet - POOL_START) in
        b \<lparr> ip_bits := (ip_bits b)[index div 64 :=
               (ip_bits b ! (index div 64)) OR push_bit (index mod 64) 1] \<rparr>)"

definition from_used :: "u8 list \<Rightarrow> ip_bitmap" where
  "from_used used = fold ip_mark used \<lparr> ip_bits = replicate 4 0 \<rparr>"

definition trailing_zeros :: "u64 \<Rightarrow> nat" where
  "trailing_zeros w = length (takeWhile (\<lambda>i. \<not> bit w i) [0..<64])"

fun ip_scan :: "nat \<Rightarrow> u64 list \<Rightarrow> u8 option" where
  "ip_scan word_index [] = None"
| "ip_scan word_index (word # rest) =
     (let available = NOT word in
      if available = 0 then ip_scan (Suc word_index) rest
      else
        let index = word_index * 64 + trailing_zeros available;
            octet = unat POOL_START + index
        in if octet \<le> unat POOL_END then Some (of_nat octet)
           else ip_scan (Suc word_index) rest)"

definition ip_allocate :: "ip_bitmap \<Rightarrow> u8 option" where
  "ip_allocate b = ip_scan 0 (ip_bits b)"

section \<open>Addresses as text\<close>

text \<open>\<open>Ipv4Addr::from_str\<close>: four decimal groups of at most three digits without superfluous leading
  zeros, separated by dots.\<close>

definition parse_ip_group :: "string \<Rightarrow> u8 option" where
  "parse_ip_group g =
     (if g \<noteq> [] \<and> length g \<le> 3 \<and> list_all is_ascii_digit g \<and>
         (length g = 1 \<or> hd g \<noteq> CHR ''0'') \<and> dec_value g \<le> 255
      then Some (of_nat (dec_value g)) else None)"

definition parse_ipv4 :: "string \<Rightarrow> (u8 \<times> u8 \<times> u8 \<times> u8) option" where
  "parse_ipv4 s =
     (case split_on CHR ''.'' s of
        [a, b, c, d] \<Rightarrow>
          (case (parse_ip_group a, parse_ip_group b, parse_ip_group c, parse_ip_group d) of
             (Some a', Some b', Some c', Some d') \<Rightarrow> Some (a', b', c', d')
           | _ \<Rightarrow> None)
      | _ \<Rightarrow> None)"

definition show_u8 :: "u8 \<Rightarrow> string" where
  "show_u8 h = dec_string (unat h)"

definition format_ip :: "u8 \<Rightarrow> string" where
  "format_ip host =
     show_u8 (SUBNET_PREFIX ! 0) @ ''.'' @ show_u8 (SUBNET_PREFIX ! 1) @ ''.'' @
     show_u8 (SUBNET_PREFIX ! 2) @ ''.'' @ show_u8 host"

definition parse_host_octet :: "string \<Rightarrow> u8 option" where
  "parse_host_octet ip =
     (case parse_ipv4 ip of
        None \<Rightarrow> None
      | Some (a, b, c, d) \<Rightarrow>
          if a = SUBNET_PREFIX ! 0 \<and> b = SUBNET_PREFIX ! 1 \<and> c = SUBNET_PREFIX ! 2
          then Some d else None)"

definition is_in_subnet :: "string \<Rightarrow> bool" where
  "is_in_subnet address =
     (let host = hd (split_on CHR ''/'' address) in
      case parse_ipv4 host of
        None \<Rightarrow> False
      | Some (a, b, c, d) \<Rightarrow> [a, b, c] = SUBNET_PREFIX)"

definition allocate_ip :: "u8 list \<Rightarrow> string result" where
  "allocate_ip used =
     (case ip_allocate (from_used used) of
        Some octet \<Rightarrow> Inr (format_ip octet)
      | None \<Rightarrow> bail ''IP address pool exhausted'')"

section \<open>What the bitmap records\<close>

definition in_pool :: "u8 \<Rightarrow> bool" where
  "in_pool h = (POOL_START \<le> h \<and> h \<le> POOL_END)"

definition slot_marked :: "u64 list \<Rightarrow> nat \<Rightarrow> bool" where
  "slot_marked ws i = bit (ws ! (i div 64)) (i mod 64)"

lemma in_pool_unat: "in_pool h \<longleftrightarrow> 10 \<le> unat h \<and> unat h \<le> 254"
  by (simp add: in_pool_def POOL_START_def POOL_END_def word_le_nat_alt)

lemma pool_index_inj:
  "in_pool p \<Longrightarrow> in_pool q \<Longrightarrow> unat p - 10 = unat q - 10 \<Longrightarrow> p = q"
  unfolding in_pool_unat word_unat_eq_iff by linarith

lemma unat_pool_index: "in_pool h \<Longrightarrow> unat (h - POOL_START) = unat h - 10"
  by (simp add: in_pool_def POOL_START_def unat_sub)

lemma length_ip_mark [simp]: "length (ip_bits (ip_mark h b)) = length (ip_bits b)"
  by (simp add: ip_mark_def Let_def)

lemma slot_marked_ip_mark:
  assumes "length (ip_bits b) = 4" "i < 256"
  shows "slot_marked (ip_bits (ip_mark h b)) i \<longleftrightarrow>
           slot_marked (ip_bits b) i \<or> (in_pool h \<and> i = unat h - 10)"
proof (cases "in_pool h")
  case True
  define k where "k = unat h - 10"
  have k: "k < 245" using True by (auto simp: k_def in_pool_unat)
  have bits: "ip_bits (ip_mark h b) =
      (ip_bits b)[k div 64 := (ip_bits b ! (k div 64)) OR push_bit (k mod 64) 1]"
    using True unat_pool_index [OF True]
    by (simp add: ip_mark_def Let_def in_pool_def k_def)
  have "k div 64 < 4" using k by simp
  moreover have "i = k \<longleftrightarrow> i div 64 = k div 64 \<and> i mod 64 = k mod 64"
    by (metis div_mult_mod_eq)
  ultimately show ?thesis
    using assms True
    by (auto simp: slot_marked_def bits nth_list_update bit_or_iff bit_exp_iff possible_bit_word
        k_def [symmetric])
qed (auto simp: ip_mark_def in_pool_def)

lemma slot_marked_fold:
  assumes "length (ip_bits b) = 4" "i < 256"
  shows "slot_marked (ip_bits (fold ip_mark us b)) i \<longleftrightarrow>
           slot_marked (ip_bits b) i \<or> (\<exists>h\<in>set us. in_pool h \<and> i = unat h - 10)"
  using assms by (induction us arbitrary: b) (auto simp: slot_marked_ip_mark)

lemma length_fold_ip_mark [simp]: "length (ip_bits (fold ip_mark us b)) = length (ip_bits b)"
  by (induction us arbitrary: b) auto

lemma length_from_used [simp]: "length (ip_bits (from_used us)) = 4"
  by (simp add: from_used_def)

lemma slot_marked_from_used:
  "i < 256 \<Longrightarrow> slot_marked (ip_bits (from_used us)) i \<longleftrightarrow>
     (\<exists>h\<in>set us. in_pool h \<and> i = unat h - 10)"
  by (subst from_used_def, subst slot_marked_fold)
     (auto simp: slot_marked_def nth_replicate less_mult_imp_div_less)

section \<open>The search\<close>

lemma trailing_zeros_least:
  assumes "w \<noteq> 0"
  shows "trailing_zeros w < 64" "bit w (trailing_zeros w)"
    "\<And>j. j < trailing_zeros w \<Longrightarrow> \<not> bit w j"
proof -
  obtain n where "bit w n" using assms by (auto simp: bit_eq_iff)
  moreover from this have n: "n < 64" using bit_imp_le_length [of w n] by simp
  ultimately have some: "\<exists>i\<in>set [0..<64]. bit w i" by auto
  let ?P = "\<lambda>i. \<not> bit w i"
  have "takeWhile ?P [0..<64] \<noteq> [0..<64]"
    using some by (metis set_takeWhileD)
  then have "length (takeWhile ?P [0..<64]) \<noteq> length [0..<64]"
    by (metis takeWhile_eq_take take_all order_refl)
  then show lt: "trailing_zeros w < 64"
    using length_takeWhile_le [of ?P "[0..<64]"] by (simp add: trailing_zeros_def)
  show "bit w (trailing_zeros w)"
    using nth_length_takeWhile [of ?P "[0..<64]"] lt by (simp add: trailing_zeros_def)
  show "\<not> bit w j" if "j < trailing_zeros w" for j
  proof -
    have "takeWhile ?P [0..<64] ! j = [0..<64] ! j"
      using that by (simp add: trailing_zeros_def takeWhile_nth)
    moreover have "takeWhile ?P [0..<64] ! j \<in> set (takeWhile ?P [0..<64])"
      using that by (simp add: trailing_zeros_def)
    ultimately show ?thesis using set_takeWhileD that lt by fastforce
  qed
qed

lemma slot_marked_Cons:
  "slot_marked (w # ws) j = (if j < 64 then bit w j else slot_marked ws (j - 64))"
proof (cases "j < 64")
  case False
  then have "j div 64 = Suc ((j - 64) div 64)" "j mod 64 = (j - 64) mod 64"
    by (simp_all add: le_div_geq le_mod_geq)
  with False show ?thesis by (simp add: slot_marked_def)
qed (simp add: slot_marked_def)

lemma available_word:
  assumes "NOT w \<noteq> (0 :: u64)"
  shows "trailing_zeros (NOT w) < 64" "\<not> bit w (trailing_zeros (NOT w))"
    "\<And>j. j < trailing_zeros (NOT w) \<Longrightarrow> bit w j"
  using trailing_zeros_least [OF assms] by (auto simp: bit_not_iff)

lemma full_word: "NOT w = (0 :: u64) \<Longrightarrow> j < 64 \<Longrightarrow> bit w j"
proof -
  assume "NOT w = 0" "j < 64"
  then have "\<not> bit (NOT w) j" by simp
  with \<open>j < 64\<close> show ?thesis by (simp add: bit_not_iff)
qed

lemma ip_scan_beyond: "244 < k * 64 \<Longrightarrow> ip_scan k ws = None"
  by (induction ws arbitrary: k) (auto simp: Let_def POOL_START_def POOL_END_def)

lemma ip_scan_Some:
  assumes "ip_scan k ws = Some h" "k + length ws \<le> 4"
  shows "\<exists>i < 64 * length ws. unat h = 10 + 64 * k + i \<and> unat h \<le> 254 \<and>
           \<not> slot_marked ws i \<and> (\<forall>j<i. slot_marked ws j)"
  using assms
proof (induction k ws rule: ip_scan.induct)
  case (2 k w ws)
  let ?t = "trailing_zeros (NOT w)"
  show ?case
  proof (cases "NOT w \<noteq> 0 \<and> 10 + (k * 64 + ?t) \<le> 254")
    case True
    then have "h = of_nat (10 + (k * 64 + ?t))"
      using "2.prems" by (simp add: Let_def POOL_START_def POOL_END_def)
    then have "unat h = 10 + (k * 64 + ?t)"
      using True by (simp only:) (rule unat_of_nat_small, simp)
    then show ?thesis
      using available_word [of w] True
      by (intro exI [of _ ?t]) (auto simp: slot_marked_Cons)
  next
    case False
    then have "ip_scan (Suc k) ws = Some h"
      using "2.prems" by (auto simp: Let_def POOL_START_def POOL_END_def split: if_splits)
    moreover from this have "\<not> 244 < Suc k * 64" using ip_scan_beyond by fastforce
    then have full: "NOT w = 0"
      using False available_word(1) [of w] by (cases "NOT w = 0") auto
    ultimately obtain i where i: "i < 64 * length ws" "unat h = 10 + 64 * Suc k + i"
      "unat h \<le> 254" "\<not> slot_marked ws i" "\<forall>j<i. slot_marked ws j"
      using "2.IH"(1) [OF refl full] "2.prems" by auto
    then show ?thesis
      using full_word [OF full] by (intro exI [of _ "64 + i"]) (auto simp: slot_marked_Cons)
  qed
qed simp

lemma ip_scan_None:
  assumes "ip_scan k ws = None" "j < 64 * length ws" "10 + 64 * k + j \<le> 254"
  shows "slot_marked ws j"
  using assms
proof (induction k ws arbitrary: j rule: ip_scan.induct)
  case (2 k w ws)
  let ?t = "trailing_zeros (NOT w)"
  show ?case
  proof (cases "NOT w = 0")
    case True
    then show ?thesis
      using 2 full_word [OF True] by (auto simp: Let_def slot_marked_Cons)
  next
    case False
    then have "\<not> 10 + (k * 64 + ?t) \<le> 254"
      using "2.prems"(1) by (auto simp: Let_def POOL_START_def POOL_END_def split: if_splits)
    then show ?thesis
      using "2.prems"(3) available_word [OF False] by (auto simp: slot_marked_Cons)
  qed
qed simp

lemma ip_allocate_None:
  assumes "ip_allocate (from_used used) = None" "in_pool p"
  shows "p \<in> set used"
proof -
  have "slot_marked (ip_bits (from_used used)) (unat p - 10)"
    using ip_scan_None [of 0 _ "unat p - 10"] assms by (auto simp: ip_allocate_def in_pool_unat)
  moreover have "unat p - 10 < 256" using assms by (auto simp: in_pool_unat)
  ultimately obtain q where "q \<in> set used" "in_pool q" "unat p - 10 = unat q - 10"
    by (auto simp: slot_marked_from_used)
  then show ?thesis using pool_index_inj assms(2) by blast
qed

lemma ip_allocate_Some:
  assumes "ip_allocate (from_used used) = Some h"
  shows "in_pool h" "h \<notin> set used" "\<And>p. in_pool p \<Longrightarrow> p < h \<Longrightarrow> p \<in> set used"
proof -
  obtain i where i: "i < 256" "unat h = 10 + i" "unat h \<le> 254"
    "\<not> slot_marked (ip_bits (from_used used)) i"
    "\<forall>j<i. slot_marked (ip_bits (from_used used)) j"
    using ip_scan_Some [of 0 "ip_bits (from_used used)" h] assms by (auto simp: ip_allocate_def)
  show "in_pool h" "h \<notin> set used"
    using i(1-4) by (auto simp: slot_marked_from_used in_pool_unat)
  show "p \<in> set used" if "in_pool p" "p < h" for p
  proof -
    have "unat p - 10 < i" using that i(2) by (auto simp: in_pool_unat word_less_nat_alt)
    then obtain q where "q \<in> set used" "in_pool q" "unat p - 10 = unat q - 10"
      using i(1,5) slot_marked_from_used [of "unat p - 10" used] by auto
    then show ?thesis using pool_index_inj that(1) by blast
  qed
qed

text \<open>C8: the allocator returns the least octet of the pool 10..254 that is not in use, and it
  returns none only when every octet of the pool is in use.\<close>

theorem ip_allocate_least_free:
  "case ip_allocate (from_used used) of
     Some h \<Rightarrow> in_pool h \<and> h \<notin> set used \<and> (\<forall>p. in_pool p \<and> p < h \<longrightarrow> p \<in> set used)
   | None \<Rightarrow> (\<forall>p. in_pool p \<longrightarrow> p \<in> set used)"
  using ip_allocate_Some ip_allocate_None by (auto split: option.splits)

theorem ip_allocate_least_free_witness:
  "in_pool 12 \<and> 12 \<notin> set [3, 10, 11, 13 :: u8] \<and>
     ip_allocate (from_used [3, 10, 11, 13]) = Some 12"
proof -
  have a: "ip_allocate (from_used [3, 10, 11, 13]) = Some 12" by code_simp
  show ?thesis using ip_allocate_least_free [of "[3, 10, 11, 13]"] unfolding a by simp
qed

section \<open>Reading an address back\<close>

lemma parse_ip_group_show [simp]: "parse_ip_group (show_u8 h) = Some h"
proof -
  have "unat h < 2 ^ LENGTH(8)" by (rule unsigned_less)
  then have lt: "unat h < 256" by simp
  then have "length (dec_string (unat h)) \<le> 3" by (intro length_dec_string_le) simp_all
  moreover have "length (dec_string (unat h)) = 1 \<or> hd (dec_string (unat h)) \<noteq> CHR ''0''"
    using dec_string_hd_zero [of "unat h"] by (auto simp: dec_string.simps [of 0])
  ultimately show ?thesis
    using lt by (simp add: parse_ip_group_def show_u8_def dec_string_digits)
qed

lemma no_sep_in_show_u8 [simp]: "CHR ''.'' \<notin> set (show_u8 h)" "CHR ''/'' \<notin> set (show_u8 h)"
  by (simp_all add: show_u8_def digit_not_in_dec_string ascii_defs)

lemma parse_ipv4_format_ip:
  "parse_ipv4 (format_ip h) = Some (SUBNET_PREFIX ! 0, SUBNET_PREFIX ! 1, SUBNET_PREFIX ! 2, h)"
  by (simp add: parse_ipv4_def format_ip_def split_on_append_sep split_on_no_sep)

lemma no_slash_in_format_ip: "CHR ''/'' \<notin> set (format_ip h)"
  by (simp add: format_ip_def)

lemma parse_host_octet_format_ip [simp]: "parse_host_octet (format_ip h) = Some h"
  by (simp add: parse_host_octet_def parse_ipv4_format_ip)

lemma is_in_subnet_format_ip [simp]: "is_in_subnet (format_ip h)"
  by (simp add: is_in_subnet_def split_on_no_sep [OF no_slash_in_format_ip] parse_ipv4_format_ip
      SUBNET_PREFIX_def)

lemma parse_host_octet_in_subnet:
  "parse_host_octet ip = Some h \<Longrightarrow> CHR ''/'' \<notin> set ip \<Longrightarrow> is_in_subnet ip"
  by (auto simp: parse_host_octet_def is_in_subnet_def split_on_no_sep SUBNET_PREFIX_def
      split: option.splits if_splits)

text \<open>a successful allocation hands out an address of the workspace subnet, and reading its
  host octet back gives an octet of the pool that was not in use.\<close>

theorem allocate_ip_fresh:
  assumes "allocate_ip used = Inr ip"
  shows "\<exists>h. parse_host_octet ip = Some h \<and> in_pool h \<and> h \<notin> set used \<and> is_in_subnet ip"
  using assms ip_allocate_Some [of used] by (auto simp: allocate_ip_def split: option.splits)

theorem allocate_ip_fresh_witness:
  "\<exists>h. parse_host_octet ''10.200.0.11'' = Some h \<and> in_pool h \<and> h \<notin> set [10, 12] \<and>
     is_in_subnet ''10.200.0.11''"
proof -
  have "allocate_ip [10, 12] = Inr ''10.200.0.11''" by code_simp
  then show ?thesis by (rule allocate_ip_fresh)
qed

end
