(* ===== verification/Ordered_Map.thy ===== *)
theory Ordered_Map
  imports Enclave_Prelude
begin

text \<open>
  \<open>BTreeMap\<close> as the sources use it: iteration is in key order, and \<open>insert\<close>, \<open>remove\<close>, \<open>get\<close> and
  \<open>get_mut\<close> behave like a finite map. The model is the strictly sorted association list of the
  entries in iteration order. The locale \<open>keyed_store\<close> is the contract the registry, the policy,
  the port table and the journal rely on; its interpretation on the sorted list discharges it.
\<close>

named_theorems bt_simps \<open>lookups after map operations\<close>
named_theorems bt_intros \<open>the representation invariant of maps\<close>

section \<open>Operations\<close>

type_synonym ('k, 'v) btree = "('k \<times> 'v) list"

abbreviation bt_get :: "('k, 'v) btree \<Rightarrow> 'k \<Rightarrow> 'v option" where
  "bt_get m k \<equiv> map_of m k"

fun bt_insert :: "'k::linorder \<Rightarrow> 'v \<Rightarrow> ('k, 'v) btree \<Rightarrow> ('k, 'v) btree" where
  "bt_insert k v [] = [(k, v)]"
| "bt_insert k v ((k', v') # m) =
     (if k < k' then (k, v) # (k', v') # m
      else if k = k' then (k, v) # m
      else (k', v') # bt_insert k v m)"

definition bt_remove :: "'k \<Rightarrow> ('k, 'v) btree \<Rightarrow> ('k, 'v) btree" where
  "bt_remove k m = filter (\<lambda>(k', v). k' \<noteq> k) m"

text \<open>\<open>get_mut\<close> followed by an assignment through the reference.\<close>

definition bt_adjust :: "'k \<Rightarrow> ('v \<Rightarrow> 'v) \<Rightarrow> ('k, 'v) btree \<Rightarrow> ('k, 'v) btree" where
  "bt_adjust k f m = map (\<lambda>(k', v). (k', if k' = k then f v else v)) m"

definition bt_retain :: "('k \<Rightarrow> 'v \<Rightarrow> bool) \<Rightarrow> ('k, 'v) btree \<Rightarrow> ('k, 'v) btree" where
  "bt_retain p m = filter (\<lambda>(k, v). p k v) m"

definition bt_keys :: "('k, 'v) btree \<Rightarrow> 'k list" where
  "bt_keys m = map fst m"

definition bt_wf :: "('k::linorder, 'v) btree \<Rightarrow> bool" where
  "bt_wf m = sorted_wrt (<) (map fst m)"

section \<open>Lookup laws\<close>

lemma bt_get_insert [simp, bt_simps]: "bt_get (bt_insert k v m) = (bt_get m)(k \<mapsto> v)"
  by (induction m) (auto simp: fun_eq_iff)

lemma bt_get_remove [simp, bt_simps]: "bt_get (bt_remove k m) = (bt_get m)(k := None)"
  by (induction m) (auto simp: bt_remove_def fun_eq_iff)

lemma bt_get_adjust [simp, bt_simps]:
  "bt_get (bt_adjust k f m) k' = (if k' = k then map_option f (bt_get m k) else bt_get m k')"
  by (induction m) (auto simp: bt_adjust_def)

lemma keys_insert [simp]: "fst ` set (bt_insert k v m) = insert k (fst ` set m)"
  by (simp add: dom_map_of_conv_image_fst [symmetric])

lemma keys_remove [simp]: "fst ` set (bt_remove k m) = fst ` set m - {k}"
  by (auto simp: dom_map_of_conv_image_fst [symmetric] split: if_splits)

lemma map_fst_adjust [simp]: "map fst (bt_adjust k f m) = map fst m"
  by (induction m) (auto simp: bt_adjust_def)

lemma bt_wf_Nil [simp, bt_intros]: "bt_wf []"
  by (simp add: bt_wf_def)

lemma bt_wf_Cons: "bt_wf ((k, v) # m) \<longleftrightarrow> (\<forall>k'\<in>fst ` set m. k < k') \<and> bt_wf m"
  by (auto simp: bt_wf_def)

lemma bt_wf_insert [bt_intros]: "bt_wf m \<Longrightarrow> bt_wf (bt_insert k v m)"
proof (induction m)
  case (Cons e m)
  obtain k' v' where e: "e = (k', v')" by (cases e)
  show ?case using Cons by (auto simp: e bt_wf_Cons)
qed (simp add: bt_wf_def)

lemma bt_wf_filter: "bt_wf m \<Longrightarrow> bt_wf (filter p m)"
  by (induction m) (auto simp: bt_wf_Cons split_paired_all)

lemma bt_wf_remove [bt_intros]: "bt_wf m \<Longrightarrow> bt_wf (bt_remove k m)"
  by (simp add: bt_remove_def bt_wf_filter)

lemma bt_wf_adjust [bt_intros]: "bt_wf m \<Longrightarrow> bt_wf (bt_adjust k f m)"
  by (simp add: bt_wf_def)

lemma bt_wf_retain [bt_intros]: "bt_wf m \<Longrightarrow> bt_wf (bt_retain p m)"
  by (simp add: bt_retain_def bt_wf_filter)

lemma bt_wf_distinct: "bt_wf m \<Longrightarrow> distinct (map fst m)"
  by (simp add: bt_wf_def strict_sorted_iff)

lemma bt_get_eq_Some_iff: "bt_wf m \<Longrightarrow> bt_get m k = Some v \<longleftrightarrow> (k, v) \<in> set m"
  by (simp add: bt_wf_distinct)

lemma bt_get_retain [bt_simps]:
  assumes "bt_wf m"
  shows "bt_get (bt_retain p m) k = (case bt_get m k of None \<Rightarrow> None | Some v \<Rightarrow> if p k v then Some v else None)"
  using assms
proof (induction m)
  case (Cons e m)
  obtain k' v' where e: "e = (k', v')" by (cases e)
  have "bt_get m k' = None"
    using bt_wf_distinct [OF Cons.prems] by (simp add: e map_of_eq_None_iff)
  moreover have "bt_wf m" using Cons.prems by (simp add: e bt_wf_Cons)
  ultimately show ?case
    using Cons.IH by (auto simp: e bt_retain_def split: option.splits)
qed (simp add: bt_retain_def)

text \<open>Two maps with the same lookups are the same list of entries: iteration order is determined.\<close>

lemma bt_entries: "bt_wf m \<Longrightarrow> m = map (\<lambda>k. (k, the (bt_get m k))) (map fst m)"
proof -
  assume wf: "bt_wf m"
  have "map (\<lambda>e. (fst e, the (bt_get m (fst e)))) m = map id m"
    by (rule map_cong [OF refl]) (use bt_wf_distinct [OF wf] in auto)
  then show ?thesis by (simp add: comp_def)
qed

lemma bt_ext:
  assumes "bt_wf m" "bt_wf n" "bt_get m = bt_get n"
  shows "m = n"
proof -
  have "set (map fst m) = set (map fst n)"
    using assms(3) by (metis dom_map_of_conv_image_fst list.set_map)
  then have "map fst m = map fst n"
    using assms(1,2) by (metis bt_wf_def sorted_distinct_set_unique strict_sorted_iff)
  then show ?thesis
    using assms bt_entries [of m] bt_entries [of n] by simp
qed

section \<open>The contract\<close>

locale keyed_store =
  fixes ok :: "'m \<Rightarrow> bool"
    and lookup :: "'m \<Rightarrow> 'k \<Rightarrow> 'v option"
    and store :: "'k \<Rightarrow> 'v \<Rightarrow> 'm \<Rightarrow> 'm"
    and erase :: "'k \<Rightarrow> 'm \<Rightarrow> 'm"
  assumes ok_store: "ok m \<Longrightarrow> ok (store k v m)"
    and ok_erase: "ok m \<Longrightarrow> ok (erase k m)"
    and lookup_store: "ok m \<Longrightarrow> lookup (store k v m) = (lookup m)(k \<mapsto> v)"
    and lookup_erase: "ok m \<Longrightarrow> lookup (erase k m) = (lookup m)(k := None)"
    and lookup_ext: "ok m \<Longrightarrow> ok n \<Longrightarrow> lookup m = lookup n \<Longrightarrow> m = n"
begin

lemma store_store: "ok m \<Longrightarrow> store k v (store k w m) = store k v m"
  by (rule lookup_ext) (simp_all add: ok_store lookup_store)

lemma store_commute: "ok m \<Longrightarrow> k \<noteq> l \<Longrightarrow> store k v (store l w m) = store l w (store k v m)"
  by (rule lookup_ext) (simp_all add: ok_store lookup_store fun_upd_twist)

lemma erase_store: "ok m \<Longrightarrow> lookup m k = None \<Longrightarrow> erase k (store k v m) = m"
  by (rule lookup_ext) (auto simp: ok_store ok_erase lookup_store lookup_erase fun_upd_idem)

lemma store_same: "ok m \<Longrightarrow> lookup m k = Some v \<Longrightarrow> store k v m = m"
  by (rule lookup_ext) (auto simp: ok_store lookup_store fun_upd_idem)

lemma ok_fold_store: "ok m \<Longrightarrow> ok (fold (\<lambda>(k, v). store k v) kvs m)"
  by (induction kvs arbitrary: m) (auto simp: ok_store)

lemma lookup_fold_store:
  "ok m \<Longrightarrow> lookup (fold (\<lambda>(k, v). store k v) kvs m) = lookup m ++ map_of (rev kvs)"
  by (induction kvs arbitrary: m) (auto simp: ok_store lookup_store fun_eq_iff map_add_def
      split: option.splits)

end

interpretation bt: keyed_store bt_wf map_of bt_insert bt_remove
  by unfold_locales (auto intro: bt_intros bt_ext)

end
