(* ===== verification/Leases.thy ===== *)
theory Leases
  imports Errors
begin

text \<open>
  Lifecycle leases (\<open>src/daemon/leases.rs\<close>). A \<open>Gate\<close> admits any number of shared holders or one
  exclusive holder; a lease scope is a fixed sequence of gate acquisitions. Every critical section
  under a gate's mutex is one function on \<open>gate_state\<close>; the threads of the daemon interleave them
  through \<open>lease_exec\<close>, which also models the condition variable: a thread that is not admitted
  sleeps until a guard of its gate is dropped, until its deadline passes, or until it wakes
  spuriously. Shows that overlapping scopes are never held together, that the counters of every
  gate equal the number of guards and waiters, and that the lock order and the notifications
  exclude a state in which everyone sleeps.
\<close>

section \<open>One gate\<close>

record gate_state =
  gs_shared :: nat
  gs_exclusive :: bool
  gs_waiting_exclusive :: nat

datatype gate_mode = Shared | Exclusive

datatype attempt = Admitted | TimedOut | Asleep

definition gate_default :: gate_state where
  "gate_default = \<lparr> gs_shared = 0, gs_exclusive = False, gs_waiting_exclusive = 0 \<rparr>"

definition gate_begin :: "gate_mode \<Rightarrow> gate_state \<Rightarrow> gate_state" where
  "gate_begin mode g =
     (if mode = Exclusive then g \<lparr> gs_waiting_exclusive := gs_waiting_exclusive g + 1 \<rparr> else g)"

fun gate_admitted :: "gate_mode \<Rightarrow> gate_state \<Rightarrow> bool" where
  "gate_admitted Shared g = (\<not> gs_exclusive g \<and> gs_waiting_exclusive g = 0)"
| "gate_admitted Exclusive g = (\<not> gs_exclusive g \<and> gs_shared g = 0)"

definition gate_leave :: "gate_mode \<Rightarrow> gate_state \<Rightarrow> gate_state" where
  "gate_leave mode g =
     (if mode = Exclusive then g \<lparr> gs_waiting_exclusive := gs_waiting_exclusive g - 1 \<rparr> else g)"

fun gate_take :: "gate_mode \<Rightarrow> gate_state \<Rightarrow> gate_state" where
  "gate_take Shared g = g \<lparr> gs_shared := gs_shared g + 1 \<rparr>"
| "gate_take Exclusive g = g \<lparr> gs_exclusive := True \<rparr>"

text \<open>One pass of the loop in \<open>Gate::acquire\<close>: admitted, past the deadline, or waiting on.\<close>

definition gate_attempt :: "gate_mode \<Rightarrow> bool \<Rightarrow> gate_state \<Rightarrow> gate_state \<times> attempt" where
  "gate_attempt mode expired g =
     (if gate_admitted mode g then (gate_take mode (gate_leave mode g), Admitted)
      else if expired then (gate_leave mode g, TimedOut)
      else (g, Asleep))"

fun gate_drop :: "gate_mode \<Rightarrow> gate_state \<Rightarrow> gate_state" where
  "gate_drop Shared g = g \<lparr> gs_shared := gs_shared g - 1 \<rparr>"
| "gate_drop Exclusive g = g \<lparr> gs_exclusive := False \<rparr>"

definition gate_describe :: "gate_state \<Rightarrow> string" where
  "gate_describe g =
     (let held =
        (if gs_exclusive g then [''one exclusive operation''] else []) @
        (if gs_shared g > 0 then [dec_string (gs_shared g) @ '' workspace operation(s)''] else []) @
        (if gs_waiting_exclusive g > 0
         then [dec_string (gs_waiting_exclusive g) @ '' waiting operation(s)''] else [])
      in if held = [] then ''no holder recorded'' else join_with '', '' held)"

section \<open>Scopes\<close>

datatype lease_scope =
    GlobalScope
  | SandboxScope string
  | WorkspaceScope string string

datatype gate_key =
    GlobalGate
  | SandboxGate string
  | WorkspaceGate string string

type_synonym guard = "gate_key \<times> gate_mode"

fun acquire_plan :: "lease_scope \<Rightarrow> guard list" where
  "acquire_plan GlobalScope = [(GlobalGate, Exclusive)]"
| "acquire_plan (SandboxScope s) = [(GlobalGate, Shared), (SandboxGate s, Exclusive)]"
| "acquire_plan (WorkspaceScope s w) =
     [(GlobalGate, Shared), (WorkspaceGate s w, Exclusive), (SandboxGate s, Shared)]"

definition workspace_only_plan :: "string \<Rightarrow> string \<Rightarrow> guard list" where
  "workspace_only_plan s w = [(WorkspaceGate s w, Exclusive), (SandboxGate s, Shared)]"

text \<open>Two scopes overlap when they cover a common workspace.\<close>

fun scopes_overlap :: "lease_scope \<Rightarrow> lease_scope \<Rightarrow> bool" where
  "scopes_overlap GlobalScope b = True"
| "scopes_overlap a GlobalScope = True"
| "scopes_overlap (SandboxScope s) (SandboxScope s') = (s = s')"
| "scopes_overlap (SandboxScope s) (WorkspaceScope s' w) = (s = s')"
| "scopes_overlap (WorkspaceScope s w) (SandboxScope s') = (s = s')"
| "scopes_overlap (WorkspaceScope s w) (WorkspaceScope s' w') = (s = s' \<and> w = w')"

section \<open>Threads\<close>

text \<open>
  A thread is idle, arriving at the next gate of its plan, waiting there (awake or asleep), holding
  its lease, or dropping its guards. \<open>lt_nested\<close> is the inner workspace acquisition that
  \<open>acquire_workspace_only\<close> makes while the thread keeps the global lease.
\<close>

datatype lease_phase = Idle | Arriving | Waiting bool | Holding | Releasing

record lease_thread =
  lt_scope :: lease_scope
  lt_nested :: "(string \<times> string) option"
  lt_held :: "guard list"
  lt_todo :: "guard list"
  lt_phase :: lease_phase

record lease_sys =
  ls_gates :: "gate_key \<Rightarrow> gate_state"
  ls_threads :: "lease_thread list"

datatype lease_event =
    Request nat lease_scope
  | RequestNested nat string string
  | Attempt nat bool
  | SpuriousWake nat
  | Finish nat
  | DropGuard nat

definition idle_thread :: lease_thread where
  "idle_thread = \<lparr> lt_scope = GlobalScope, lt_nested = None, lt_held = [], lt_todo = [],
     lt_phase = Idle \<rparr>"

definition lease_init :: "nat \<Rightarrow> lease_sys" where
  "lease_init n = \<lparr> ls_gates = (\<lambda>_. gate_default), ls_threads = replicate n idle_thread \<rparr>"

definition outer_guards :: "lease_thread \<Rightarrow> guard list" where
  "outer_guards t = (if lt_nested t = None then [] else acquire_plan GlobalScope)"

definition plan_of :: "lease_thread \<Rightarrow> guard list" where
  "plan_of t =
     (case lt_nested t of None \<Rightarrow> acquire_plan (lt_scope t) | Some (s, w) \<Rightarrow> workspace_only_plan s w)"

fun advance :: "attempt \<Rightarrow> lease_thread \<Rightarrow> lease_thread" where
  "advance Admitted t =
     t \<lparr> lt_held := lt_held t @ [hd (lt_todo t)], lt_todo := tl (lt_todo t),
         lt_phase := (if tl (lt_todo t) = [] then Holding else Arriving) \<rparr>"
| "advance TimedOut t = t \<lparr> lt_todo := [], lt_phase := Releasing \<rparr>"
| "advance Asleep t = t \<lparr> lt_phase := Waiting False \<rparr>"

definition waits_at :: "gate_key \<Rightarrow> lease_thread \<Rightarrow> bool" where
  "waits_at k t =
     ((lt_phase t = Waiting True \<or> lt_phase t = Waiting False) \<and> lt_todo t \<noteq> [] \<and>
      fst (hd (lt_todo t)) = k)"

definition wake :: "gate_key \<Rightarrow> lease_thread \<Rightarrow> lease_thread" where
  "wake k t = (if waits_at k t then t \<lparr> lt_phase := Waiting True \<rparr> else t)"

fun may_attempt :: "bool \<Rightarrow> lease_phase \<Rightarrow> bool" where
  "may_attempt expired Arriving = True"
| "may_attempt expired (Waiting awake) = (awake \<or> expired)"
| "may_attempt expired p = False"

definition attempt_gate :: "bool \<Rightarrow> lease_phase \<Rightarrow> gate_mode \<Rightarrow> gate_state \<Rightarrow>
    gate_state \<times> attempt" where
  "attempt_gate expired p mode g =
     gate_attempt mode expired (if p = Arriving then gate_begin mode g else g)"

definition released :: "lease_thread \<Rightarrow> lease_thread" where
  "released t =
     (if lt_nested t = None then idle_thread
      else t \<lparr> lt_nested := None, lt_held := acquire_plan GlobalScope, lt_phase := Holding \<rparr>)"

fun lease_exec :: "lease_event \<Rightarrow> lease_sys \<Rightarrow> lease_sys option" where
  "lease_exec (Request i scope) S =
     (if i < length (ls_threads S) \<and> lt_phase (ls_threads S ! i) = Idle
      then Some (S \<lparr> ls_threads := (ls_threads S)[i :=
             idle_thread \<lparr> lt_scope := scope, lt_todo := acquire_plan scope,
                           lt_phase := Arriving \<rparr>] \<rparr>)
      else None)"
| "lease_exec (RequestNested i s w) S =
     (let t = ls_threads S ! i in
      if i < length (ls_threads S) \<and> lt_phase t = Holding \<and> lt_scope t = GlobalScope \<and>
         lt_nested t = None
      then Some (S \<lparr> ls_threads := (ls_threads S)[i :=
             t \<lparr> lt_nested := Some (s, w), lt_held := [], lt_todo := workspace_only_plan s w,
                 lt_phase := Arriving \<rparr>] \<rparr>)
      else None)"
| "lease_exec (Attempt i expired) S =
     (let t = ls_threads S ! i in
      if i < length (ls_threads S) \<and> may_attempt expired (lt_phase t) \<and> lt_todo t \<noteq> []
      then let k = fst (hd (lt_todo t)); mode = snd (hd (lt_todo t));
               r = attempt_gate expired (lt_phase t) mode (ls_gates S k)
           in Some (S \<lparr> ls_gates := (ls_gates S)(k := fst r),
                       ls_threads := (ls_threads S)[i := advance (snd r) t] \<rparr>)
      else None)"
| "lease_exec (SpuriousWake i) S =
     (let t = ls_threads S ! i in
      if i < length (ls_threads S) \<and> lt_phase t = Waiting False
      then Some (S \<lparr> ls_threads := (ls_threads S)[i := t \<lparr> lt_phase := Waiting True \<rparr>] \<rparr>)
      else None)"
| "lease_exec (Finish i) S =
     (let t = ls_threads S ! i in
      if i < length (ls_threads S) \<and> lt_phase t = Holding
      then Some (S \<lparr> ls_threads := (ls_threads S)[i := t \<lparr> lt_phase := Releasing \<rparr>] \<rparr>)
      else None)"
| "lease_exec (DropGuard i) S =
     (let t = ls_threads S ! i in
      if i < length (ls_threads S) \<and> lt_phase t = Releasing
      then (case lt_held t of
              [] \<Rightarrow> Some (S \<lparr> ls_threads := (ls_threads S)[i := released t] \<rparr>)
            | (k, mode) # rest \<Rightarrow>
                Some (S \<lparr> ls_gates := (ls_gates S)(k := gate_drop mode (ls_gates S k)),
                         ls_threads := map (wake k)
                           ((ls_threads S)[i := t \<lparr> lt_held := rest \<rparr>]) \<rparr>))
      else None)"

inductive lease_reach :: "lease_sys \<Rightarrow> bool" where
  reach_init: "lease_reach (lease_init n)"
| reach_step: "lease_reach S \<Longrightarrow> lease_exec ev S = Some S' \<Longrightarrow> lease_reach S'"

fun lease_run :: "lease_event list \<Rightarrow> lease_sys \<Rightarrow> lease_sys option" where
  "lease_run [] S = Some S"
| "lease_run (ev # evs) S = (case lease_exec ev S of None \<Rightarrow> None | Some S' \<Rightarrow> lease_run evs S')"

lemma lease_run_reach: "lease_reach S \<Longrightarrow> lease_run evs S = Some S' \<Longrightarrow> lease_reach S'"
  by (induction evs arbitrary: S) (auto split: option.splits intro: reach_step)

section \<open>Counters agree with guards and waiters\<close>

definition holds :: "gate_key \<Rightarrow> gate_mode \<Rightarrow> lease_thread \<Rightarrow> nat" where
  "holds k m t = count_list (outer_guards t @ lt_held t) (k, m)"

definition waits_exclusive :: "gate_key \<Rightarrow> lease_thread \<Rightarrow> nat" where
  "waits_exclusive k t = of_bool (waits_at k t \<and> snd (hd (lt_todo t)) = Exclusive)"

definition tally :: "(lease_thread \<Rightarrow> nat) \<Rightarrow> lease_sys \<Rightarrow> nat" where
  "tally f S = sum_list (map f (ls_threads S))"

definition gate_ok :: "lease_sys \<Rightarrow> gate_key \<Rightarrow> bool" where
  "gate_ok S k \<longleftrightarrow>
     gs_shared (ls_gates S k) = tally (holds k Shared) S \<and>
     of_bool (gs_exclusive (ls_gates S k)) = tally (holds k Exclusive) S \<and>
     gs_waiting_exclusive (ls_gates S k) = tally (waits_exclusive k) S \<and>
     \<not> (gs_exclusive (ls_gates S k) \<and> 0 < gs_shared (ls_gates S k))"

definition thread_ok :: "lease_thread \<Rightarrow> bool" where
  "thread_ok t \<longleftrightarrow>
     (lt_nested t \<noteq> None \<longrightarrow> lt_scope t = GlobalScope) \<and>
     (case lt_phase t of
        Idle \<Rightarrow> t = idle_thread
      | Arriving \<Rightarrow> lt_held t @ lt_todo t = plan_of t \<and> lt_todo t \<noteq> []
      | Waiting _ \<Rightarrow> lt_held t @ lt_todo t = plan_of t \<and> lt_todo t \<noteq> []
      | Holding \<Rightarrow> lt_held t = plan_of t \<and> lt_todo t = []
      | Releasing \<Rightarrow> lt_todo t = [])"

definition lease_inv :: "lease_sys \<Rightarrow> bool" where
  "lease_inv S \<longleftrightarrow> (\<forall>k. gate_ok S k) \<and> (\<forall>t\<in>set (ls_threads S). thread_ok t)"

lemma sum_list_update_nat:
  assumes "i < length ts"
  shows "sum_list (map f (ts[i := t])) + f (ts ! i) = sum_list (map f ts) + (f t :: nat)"
  using assms by (induction ts arbitrary: i) (auto split: nat.splits)

lemma gate_ok_update:
  assumes "gate_ok S k" "i < length (ls_threads S)"
    and "gs_shared g + holds k Shared (ls_threads S ! i) =
           gs_shared (ls_gates S k) + holds k Shared t"
    and "of_bool (gs_exclusive g) + holds k Exclusive (ls_threads S ! i) =
           of_bool (gs_exclusive (ls_gates S k)) + holds k Exclusive t"
    and "gs_waiting_exclusive g + waits_exclusive k (ls_threads S ! i) =
           gs_waiting_exclusive (ls_gates S k) + waits_exclusive k t"
    and "\<not> (gs_exclusive g \<and> 0 < gs_shared g)"
    and "ls_gates S' k = g"
    and "\<And>f. f = holds k Shared \<or> f = holds k Exclusive \<or> f = waits_exclusive k \<Longrightarrow>
           tally f S' = sum_list (map f ((ls_threads S)[i := t]))"
  shows "gate_ok S' k"
  using assms sum_list_update_nat [OF assms(2), of "holds k Shared" t]
    sum_list_update_nat [OF assms(2), of "holds k Exclusive" t]
    sum_list_update_nat [OF assms(2), of "waits_exclusive k" t]
  unfolding gate_ok_def tally_def by auto

lemma le_tally:
  assumes "i < length (ls_threads S)"
  shows "f (ls_threads S ! i) \<le> tally f S"
  unfolding tally_def using assms by (intro member_le_sum_list) simp_all

lemma tally_pos: "0 < tally f S \<longleftrightarrow> (\<exists>i<length (ls_threads S). 0 < f (ls_threads S ! i))"
  unfolding tally_def neq0_conv [symmetric] sum_list_eq_0_iff
  by (auto simp: in_set_conv_nth intro: nth_mem)

lemma wake_fields [simp]:
  "lt_held (wake k t) = lt_held t" "lt_todo (wake k t) = lt_todo t"
  "lt_scope (wake k t) = lt_scope t" "lt_nested (wake k t) = lt_nested t"
  by (simp_all add: wake_def)

lemma waits_at_wake [simp]: "waits_at k' (wake k t) = waits_at k' t"
  by (auto simp: wake_def waits_at_def)

lemma holds_wake [simp]: "holds k m (wake k' t) = holds k m t"
  by (simp add: holds_def outer_guards_def)

lemma waits_exclusive_wake [simp]: "waits_exclusive k (wake k' t) = waits_exclusive k t"
  by (simp add: waits_exclusive_def)

lemma plan_of_simps [simp]:
  "plan_of (t \<lparr> lt_phase := p \<rparr>) = plan_of t"
  "plan_of (t \<lparr> lt_todo := td \<rparr>) = plan_of t"
  "plan_of (t \<lparr> lt_held := h \<rparr>) = plan_of t"
  by (simp_all add: plan_of_def split: option.splits)

lemma thread_ok_wake: "thread_ok t \<Longrightarrow> thread_ok (wake k t)"
  by (auto simp: wake_def thread_ok_def waits_at_def)

lemma holds_simps:
  "holds k m (t \<lparr> lt_phase := p \<rparr>) = holds k m t"
  "holds k m (t \<lparr> lt_todo := td, lt_phase := p \<rparr>) = holds k m t"
  "holds k m (t \<lparr> lt_held := h, lt_todo := td, lt_phase := p \<rparr>) =
     count_list (outer_guards t @ h) (k, m)"
  "holds k m (t \<lparr> lt_held := h \<rparr>) = count_list (outer_guards t @ h) (k, m)"
  "holds k m idle_thread = 0"
  by (simp_all add: holds_def outer_guards_def idle_thread_def)

lemma thread_ok_advance:
  assumes "thread_ok t" "may_attempt e (lt_phase t)" "lt_todo t \<noteq> []"
  shows "thread_ok (advance out t)"
proof -
  have plan: "lt_held t @ lt_todo t = plan_of t"
    using assms(1,2) by (auto simp: thread_ok_def split: lease_phase.splits)
  obtain h rest where todo: "lt_todo t = h # rest" using assms(3) by (cases "lt_todo t") auto
  show ?thesis
    using assms(1) plan todo by (cases out) (auto simp: thread_ok_def)
qed

lemma gate_ok_frame:
  assumes "gate_ok S k" "i < length (ls_threads S)"
    and "\<And>m. holds k m t = holds k m (ls_threads S ! i)"
    and "waits_exclusive k t = waits_exclusive k (ls_threads S ! i)"
    and "ls_gates S' k = ls_gates S k"
    and "\<And>f. f = holds k Shared \<or> f = holds k Exclusive \<or> f = waits_exclusive k \<Longrightarrow>
           tally f S' = sum_list (map f ((ls_threads S)[i := t]))"
  shows "gate_ok S' k"
  using assms by (intro gate_ok_update [OF assms(1,2)]) (auto simp: gate_ok_def)

lemma waits_exclusive_phase:
  "lt_phase t = Idle \<or> lt_phase t = Arriving \<or> lt_phase t = Holding \<or> lt_phase t = Releasing \<Longrightarrow>
     waits_exclusive k t = 0"
  by (auto simp: waits_exclusive_def waits_at_def)

lemma gate_ok_attempt:
  assumes inv: "lease_inv S" and i: "i < length (ls_threads S)"
    and t: "t = ls_threads S ! i"
    and may: "may_attempt e (lt_phase t)" and todo: "lt_todo t = (k, m) # rest"
    and r: "r = attempt_gate e (lt_phase t) m (ls_gates S k)"
  shows "gate_ok (S \<lparr> ls_gates := (ls_gates S)(k := fst r),
                     ls_threads := (ls_threads S)[i := advance (snd r) t] \<rparr>) k'"
proof -
  have ok: "gate_ok S k'" for k' using inv by (simp add: lease_inv_def)
  have W: "waits_exclusive k t \<le> gs_waiting_exclusive (ls_gates S k)"
    using ok [of k] le_tally [OF i, of "waits_exclusive k"] by (simp add: gate_ok_def t)
  have wt: "waits_exclusive k'' t =
      of_bool (lt_phase t \<noteq> Arriving \<and> k'' = k \<and> m = Exclusive)" for k''
    using may todo by (cases "lt_phase t") (auto simp: waits_exclusive_def waits_at_def)
  have held: "holds k'' m'' (advance out t) = holds k'' m'' t +
      of_bool (out = Admitted \<and> k'' = k \<and> m'' = m)" for k'' m'' out
    using todo by (cases out) (auto simp: holds_def outer_guards_def)
  have waiting: "waits_exclusive k'' (advance out t) =
      of_bool (out = Asleep \<and> k'' = k \<and> m = Exclusive)" for k'' out
    using todo by (cases out) (auto simp: waits_exclusive_def waits_at_def)
  show ?thesis
  proof (cases "k' = k")
    case False
    show ?thesis
      by (rule gate_ok_frame [OF ok i]) (use False in \<open>auto simp: t [symmetric] held waiting wt tally_def\<close>)
  next
    case True
    have nx: "\<not> (gs_exclusive (ls_gates S k) \<and> 0 < gs_shared (ls_gates S k))"
      using ok [of k] by (auto simp: gate_ok_def)
    show ?thesis unfolding True
      by (rule gate_ok_update [OF ok i, where g = "fst r" and t = "advance (snd r) t"])
        (use W nx in \<open>cases m; auto simp: r t [symmetric] held waiting wt tally_def attempt_gate_def
           gate_attempt_def gate_begin_def gate_leave_def\<close>)+
  qed
qed

text \<open>A step that replaces one thread and leaves its guards and its wait alone keeps every counter.\<close>

lemma lease_inv_thread:
  assumes inv: "lease_inv S" and i: "i < length (ls_threads S)"
    and ok: "thread_ok t"
    and same: "\<And>k m. holds k m t = holds k m (ls_threads S ! i)"
      "\<And>k. waits_exclusive k t = waits_exclusive k (ls_threads S ! i)"
  shows "lease_inv (S \<lparr> ls_threads := (ls_threads S)[i := t] \<rparr>)"
proof -
  have "gate_ok (S \<lparr> ls_threads := (ls_threads S)[i := t] \<rparr>) k" for k
    by (rule gate_ok_frame [OF _ i]) (use inv same in \<open>auto simp: lease_inv_def tally_def\<close>)
  moreover have "\<forall>u\<in>set ((ls_threads S)[i := t]). thread_ok u"
    using inv ok set_update_subset_insert [of "ls_threads S" i t] by (auto simp: lease_inv_def)
  ultimately show ?thesis by (simp add: lease_inv_def)
qed

lemma thread_ok_nth: "lease_inv S \<Longrightarrow> i < length (ls_threads S) \<Longrightarrow> thread_ok (ls_threads S ! i)"
  by (simp add: lease_inv_def)

lemma lease_inv_attempt:
  assumes inv: "lease_inv S" and exec: "lease_exec (Attempt i e) S = Some S'"
  shows "lease_inv S'"
proof -
  let ?t = "ls_threads S ! i"
  have i: "i < length (ls_threads S)" and may: "may_attempt e (lt_phase ?t)"
    and todo: "lt_todo ?t \<noteq> []"
    using exec by (auto simp: Let_def split: if_splits)
  obtain k m rest where hd: "lt_todo ?t = (k, m) # rest"
    using todo by (cases "lt_todo ?t") auto
  define r where "r = attempt_gate e (lt_phase ?t) m (ls_gates S k)"
  have S': "S' = S \<lparr> ls_gates := (ls_gates S)(k := fst r),
                     ls_threads := (ls_threads S)[i := advance (snd r) ?t] \<rparr>"
    using exec i may todo hd by (simp add: Let_def r_def)
  have "thread_ok (advance (snd r) ?t)"
    using thread_ok_advance [OF thread_ok_nth [OF inv i] may todo] .
  then have "\<forall>u\<in>set ((ls_threads S)[i := advance (snd r) ?t]). thread_ok u"
    using inv set_update_subset_insert [of "ls_threads S" i "advance (snd r) ?t"]
    by (auto simp: lease_inv_def)
  then show ?thesis
    using gate_ok_attempt [OF inv i refl may hd r_def] by (simp add: lease_inv_def S')
qed

lemma gate_ok_drop:
  assumes inv: "lease_inv S" and i: "i < length (ls_threads S)" and t: "t = ls_threads S ! i"
    and ph: "lt_phase t = Releasing" and held: "lt_held t = (k, m) # rest"
  shows "gate_ok (S \<lparr> ls_gates := (ls_gates S)(k := gate_drop m (ls_gates S k)),
            ls_threads := map (wake k) ((ls_threads S)[i := t \<lparr> lt_held := rest \<rparr>]) \<rparr>) k'"
    (is "gate_ok ?S' k'")
proof -
  have ok: "gate_ok S k'" for k' using inv by (simp add: lease_inv_def)
  have H: "holds k' m' t = holds k' m' (t \<lparr> lt_held := rest \<rparr>) + of_bool (k' = k \<and> m' = m)" for k' m'
    using held by (auto simp: holds_def outer_guards_def)
  have w: "waits_exclusive k' (t \<lparr> lt_held := rest \<rparr>) = waits_exclusive k' t" for k'
    by (simp add: waits_exclusive_def waits_at_def)
  have tot: "tally f ?S' = sum_list (map f ((ls_threads S)[i := t \<lparr> lt_held := rest \<rparr>]))"
    if "\<And>u. f (wake k u) = f u" for f
    using that by (simp add: tally_def comp_def)
  have le: "holds k m t \<le> tally (holds k m) S"
    using le_tally [OF i, of "holds k m"] by (simp add: t)
  show ?thesis
  proof (cases "k' = k")
    case False
    show ?thesis
      by (rule gate_ok_frame [OF ok i, where t = "t \<lparr> lt_held := rest \<rparr>"])
        (use False H w tot in \<open>auto simp: t [symmetric]\<close>)
  next
    case True
    show ?thesis unfolding True
      by (rule gate_ok_update [OF ok i, where t = "t \<lparr> lt_held := rest \<rparr>"
            and g = "gate_drop m (ls_gates S k)"])
        (use H [of k] w tot le ok [of k] in
          \<open>cases m; auto simp: t [symmetric] gate_ok_def of_bool_def split: if_splits\<close>)+
  qed
qed

lemma lease_inv_drop:
  assumes inv: "lease_inv S" and exec: "lease_exec (DropGuard i) S = Some S'"
  shows "lease_inv S'"
proof -
  let ?t = "ls_threads S ! i"
  have i: "i < length (ls_threads S)" and ph: "lt_phase ?t = Releasing"
    using exec by (auto simp: Let_def split: if_splits)
  have ok: "thread_ok ?t" by (rule thread_ok_nth [OF inv i])
  show ?thesis
  proof (cases "lt_held ?t")
    case Nil
    have S': "S' = S \<lparr> ls_threads := (ls_threads S)[i := released ?t] \<rparr>"
      using exec i ph Nil by (simp add: Let_def)
    show ?thesis unfolding S'
      by (rule lease_inv_thread [OF inv i])
        (use ok ph Nil in \<open>auto simp: released_def thread_ok_def idle_thread_def plan_of_def
          holds_def outer_guards_def waits_exclusive_def waits_at_def\<close>)
  next
    case (Cons g rest)
    obtain k m where g: "g = (k, m)" by (cases g)
    have S': "S' = S \<lparr> ls_gates := (ls_gates S)(k := gate_drop m (ls_gates S k)),
            ls_threads := map (wake k) ((ls_threads S)[i := ?t \<lparr> lt_held := rest \<rparr>]) \<rparr>"
      using exec i ph Cons g by (simp add: Let_def)
    have "thread_ok (?t \<lparr> lt_held := rest \<rparr>)" using ok ph by (simp add: thread_ok_def)
    then have "\<forall>u\<in>set ((ls_threads S)[i := ?t \<lparr> lt_held := rest \<rparr>]). thread_ok u"
      using inv set_update_subset_insert [of "ls_threads S" i "?t \<lparr> lt_held := rest \<rparr>"]
      by (auto simp: lease_inv_def)
    then show ?thesis
      using gate_ok_drop [OF inv i refl ph] Cons g
      by (auto simp: lease_inv_def S' thread_ok_wake)
  qed
qed

lemma lease_inv_exec:
  assumes inv: "lease_inv S" and exec: "lease_exec ev S = Some S'"
  shows "lease_inv S'"
proof (cases ev)
  case (Request i scope)
  then have i: "i < length (ls_threads S)" "lt_phase (ls_threads S ! i) = Idle"
    using exec by (auto split: if_splits)
  have t: "ls_threads S ! i = idle_thread"
    using thread_ok_nth [OF inv i(1)] i(2) by (simp add: thread_ok_def)
  show ?thesis using exec Request i
    by (auto intro!: lease_inv_thread [OF inv i(1)] simp: t thread_ok_def idle_thread_def
        plan_of_def holds_def outer_guards_def waits_exclusive_def waits_at_def)
       (cases scope; simp)
next
  case (RequestNested i s w)
  then have i: "i < length (ls_threads S)" using exec by (auto simp: Let_def split: if_splits)
  show ?thesis using exec RequestNested i thread_ok_nth [OF inv i]
    by (auto intro!: lease_inv_thread [OF inv i] simp: Let_def thread_ok_def plan_of_def
        workspace_only_plan_def holds_def outer_guards_def waits_exclusive_def waits_at_def
        split: if_splits)
next
  case (Attempt i e)
  with assms show ?thesis using lease_inv_attempt by simp
next
  case (SpuriousWake i)
  then have i: "i < length (ls_threads S)" using exec by (auto simp: Let_def split: if_splits)
  show ?thesis using exec SpuriousWake i thread_ok_nth [OF inv i]
    by (auto intro!: lease_inv_thread [OF inv i] simp: Let_def thread_ok_def
        holds_simps waits_exclusive_def waits_at_def split: if_splits)
next
  case (Finish i)
  then have i: "i < length (ls_threads S)" using exec by (auto simp: Let_def split: if_splits)
  show ?thesis using exec Finish i thread_ok_nth [OF inv i]
    by (auto intro!: lease_inv_thread [OF inv i] simp: Let_def thread_ok_def
        holds_simps waits_exclusive_def waits_at_def split: if_splits)
next
  case (DropGuard i)
  with assms show ?thesis using lease_inv_drop by simp
qed

lemma lease_inv_init: "lease_inv (lease_init n)"
  by (auto simp: lease_inv_def lease_init_def gate_ok_def tally_def gate_default_def holds_simps
      thread_ok_def idle_thread_def waits_exclusive_def waits_at_def holds_def outer_guards_def)

lemma lease_inv_reach: "lease_reach S \<Longrightarrow> lease_inv S"
  by (induction rule: lease_reach.induct) (auto intro: lease_inv_init lease_inv_exec)

section \<open>Exclusion\<close>

lemma two_le_tally:
  assumes "i < length (ls_threads S)" "j < length (ls_threads S)" "i \<noteq> j"
  shows "f (ls_threads S ! i) + f (ls_threads S ! j) \<le> tally f S"
proof -
  let ?ts = "ls_threads S"
  have "tally f S = (\<Sum>x = 0..<length ?ts. f (?ts ! x))"
    by (simp add: tally_def sum_list_sum_nth)
  moreover have "(\<Sum>x\<in>{i, j}. f (?ts ! x)) \<le> (\<Sum>x = 0..<length ?ts. f (?ts ! x))"
    by (rule sum_mono2) (use assms in auto)
  ultimately show ?thesis using assms(3) by simp
qed

definition guards_of :: "lease_thread \<Rightarrow> guard list" where
  "guards_of t = outer_guards t @ lt_held t"

lemma holds_pos: "0 < holds k m t \<longleftrightarrow> (k, m) \<in> set (guards_of t)"
  by (simp add: holds_def guards_of_def count_list_0_iff zero_less_iff_neq_zero del: neq0_conv)

lemma exclusive_alone:
  assumes inv: "lease_inv S" and ij: "i < length (ls_threads S)" "j < length (ls_threads S)" "i \<noteq> j"
    and x: "(k, Exclusive) \<in> set (guards_of (ls_threads S ! i))"
  shows "(k, m) \<notin> set (guards_of (ls_threads S ! j))"
proof
  assume "(k, m) \<in> set (guards_of (ls_threads S ! j))"
  then have j: "0 < holds k m (ls_threads S ! j)" by (simp add: holds_pos)
  have i: "0 < holds k Exclusive (ls_threads S ! i)" using x by (simp add: holds_pos)
  have ok: "gate_ok S k" using inv by (simp add: lease_inv_def)
  have one: "tally (holds k Exclusive) S = 1" and none: "tally (holds k Shared) S = 0"
    using i le_tally [OF ij(1), of "holds k Exclusive"] ok
    by (auto simp: gate_ok_def of_bool_def split: if_splits)
  show False
  proof (cases m)
    case Shared
    with j none show False using le_tally [OF ij(2), of "holds k Shared"] by simp
  next
    case Exclusive
    with i j one show False using two_le_tally [OF ij, of "holds k Exclusive"] by simp
  qed
qed

definition owns_lease :: "lease_thread \<Rightarrow> lease_scope \<Rightarrow> bool" where
  "owns_lease t scope = (lt_scope t = scope \<and> (lt_phase t = Holding \<or> lt_nested t \<noteq> None))"

lemma owner_guards:
  "thread_ok t \<Longrightarrow> owns_lease t scope \<Longrightarrow> set (acquire_plan scope) \<subseteq> set (guards_of t)"
  by (auto simp: owns_lease_def guards_of_def outer_guards_def thread_ok_def plan_of_def
      split: option.splits)

lemma overlap_shares_gate:
  "scopes_overlap a b \<Longrightarrow> \<exists>k m.
     (k, Exclusive) \<in> set (acquire_plan a) \<and> (k, m) \<in> set (acquire_plan b) \<or>
     (k, m) \<in> set (acquire_plan a) \<and> (k, Exclusive) \<in> set (acquire_plan b)"
  by (cases a; cases b) auto

lemma overlap_excluded:
  assumes "lease_reach S" "i < length (ls_threads S)" "j < length (ls_threads S)" "i \<noteq> j"
    and "owns_lease (ls_threads S ! i) a" "owns_lease (ls_threads S ! j) b"
  shows "\<not> scopes_overlap a b"
proof
  assume "scopes_overlap a b"
  then obtain k m where km:
    "(k, Exclusive) \<in> set (acquire_plan a) \<and> (k, m) \<in> set (acquire_plan b) \<or>
     (k, m) \<in> set (acquire_plan a) \<and> (k, Exclusive) \<in> set (acquire_plan b)"
    using overlap_shares_gate by blast
  have inv: "lease_inv S" by (rule lease_inv_reach [OF assms(1)])
  have "set (acquire_plan a) \<subseteq> set (guards_of (ls_threads S ! i))"
    "set (acquire_plan b) \<subseteq> set (guards_of (ls_threads S ! j))"
    using assms inv by (auto intro: owner_guards [THEN subsetD] thread_ok_nth)
  with km exclusive_alone [OF inv assms(2-4)] exclusive_alone [OF inv assms(3,2)] assms(4)
  show False by blast
qed

text \<open>C2: two requests whose scopes overlap (the same workspace, a sandbox and one of its
  workspaces, or anything together with a host-wide operation) never hold their leases at the same
  time, in any interleaving of arrivals, waits, timeouts and releases.\<close>

theorem overlapping_leases_excluded:
  assumes "lease_reach S" "i < length (ls_threads S)" "j < length (ls_threads S)" "i \<noteq> j"
    and "owns_lease (ls_threads S ! i) a" "owns_lease (ls_threads S ! j) b"
  shows "\<not> scopes_overlap a b"
  using assms by (rule overlap_excluded)

definition two_workspaces :: "lease_event list" where
  "two_workspaces =
     [Request 0 (WorkspaceScope ''s'' ''a''), Attempt 0 False, Attempt 0 False, Attempt 0 False,
      Request 1 (WorkspaceScope ''s'' ''b''), Attempt 1 False, Attempt 1 False, Attempt 1 False]"

theorem overlapping_leases_excluded_witness:
  "\<exists>S. lease_reach S \<and> owns_lease (ls_threads S ! 0) (WorkspaceScope ''s'' ''a'') \<and>
     owns_lease (ls_threads S ! 1) (WorkspaceScope ''s'' ''b'') \<and>
     \<not> scopes_overlap (WorkspaceScope ''s'' ''a'') (WorkspaceScope ''s'' ''b'')"
proof -
  define S where "S = the (lease_run two_workspaces (lease_init 2))"
  have run: "lease_run two_workspaces (lease_init 2) = Some S"
    and own: "owns_lease (ls_threads S ! 0) (WorkspaceScope ''s'' ''a'')"
      "owns_lease (ls_threads S ! 1) (WorkspaceScope ''s'' ''b'')" "length (ls_threads S) = 2"
    unfolding S_def two_workspaces_def lease_init_def
    by (simp_all add: idle_thread_def Let_def attempt_gate_def gate_attempt_def gate_begin_def
        gate_leave_def gate_default_def owns_lease_def numeral_2_eq_2)
  have reach: "lease_reach S" by (rule lease_run_reach [OF reach_init run])
  show ?thesis
    using overlapping_leases_excluded [OF reach, of 0 1] own reach by auto
qed

section \<open>No state in which everyone sleeps\<close>

definition asleep_at :: "gate_key \<Rightarrow> lease_thread \<Rightarrow> bool" where
  "asleep_at k t = (waits_at k t \<and> lt_phase t = Waiting False)"

definition awake_exclusive_at :: "gate_key \<Rightarrow> lease_thread \<Rightarrow> bool" where
  "awake_exclusive_at k t =
     (waits_at k t \<and> lt_phase t = Waiting True \<and> snd (hd (lt_todo t)) = Exclusive)"

definition occupied :: "gate_state \<Rightarrow> bool" where
  "occupied g = (gs_exclusive g \<or> 0 < gs_shared g)"

text \<open>Whoever sleeps at a gate is owed a wake-up: the gate has a holder, whose drop notifies it, or an
  exclusive waiter that is already awake.\<close>

definition sleep_ok :: "lease_sys \<Rightarrow> bool" where
  "sleep_ok S \<longleftrightarrow>
     (\<forall>k. (\<exists>t\<in>set (ls_threads S). asleep_at k t) \<longrightarrow>
        occupied (ls_gates S k) \<or> (\<exists>t\<in>set (ls_threads S). awake_exclusive_at k t))"

lemma in_set_update_other: "u \<in> set ts \<Longrightarrow> u \<noteq> ts ! i \<Longrightarrow> u \<in> set (ts[i := x])"
  by (metis in_set_conv_nth length_list_update nth_list_update_neq)

lemma in_set_updateD: "u \<in> set (ts[i := x]) \<Longrightarrow> u = x \<or> u \<in> set ts"
  using set_update_subset_insert by fastforce

lemma sleep_ok_thread:
  assumes ok: "sleep_ok S"
    and new: "lt_phase t \<noteq> Waiting False" and old: "lt_phase (ls_threads S ! i) \<noteq> Waiting True"
  shows "sleep_ok (S \<lparr> ls_threads := (ls_threads S)[i := t] \<rparr>)"
  unfolding sleep_ok_def
proof (intro allI impI)
  let ?ts = "(ls_threads S)[i := t]" and ?S' = "S \<lparr> ls_threads := (ls_threads S)[i := t] \<rparr>"
  fix k
  assume "\<exists>u\<in>set (ls_threads ?S'). asleep_at k u"
  then obtain u where "u \<in> set ?ts" "asleep_at k u" by auto
  with new have u: "u \<in> set (ls_threads S)" by (auto dest!: in_set_updateD simp: asleep_at_def)
  have "occupied (ls_gates S k) \<or> (\<exists>w\<in>set (ls_threads S). awake_exclusive_at k w)"
    using ok u \<open>asleep_at k u\<close> unfolding sleep_ok_def by blast
  then show "occupied (ls_gates ?S' k) \<or> (\<exists>w\<in>set (ls_threads ?S'). awake_exclusive_at k w)"
  proof
    assume "\<exists>w\<in>set (ls_threads S). awake_exclusive_at k w"
    then obtain w where w: "w \<in> set (ls_threads S)" "awake_exclusive_at k w" by blast
    then have "w \<noteq> ls_threads S ! i" using old by (auto simp: awake_exclusive_at_def)
    with w have "w \<in> set ?ts" by (intro in_set_update_other)
    with w(2) show ?thesis by auto
  qed simp
qed

text \<open>What one attempt does to the occupancy of its gate.\<close>

lemma attempt_gate_occupied:
  "occupied g \<Longrightarrow> occupied (fst (attempt_gate e p m g))"
  by (cases m) (auto simp: occupied_def attempt_gate_def gate_attempt_def gate_begin_def gate_leave_def)

lemma attempt_gate_exclusive:
  "occupied (fst (attempt_gate e p Exclusive g))"
  by (auto simp: occupied_def attempt_gate_def gate_attempt_def gate_begin_def gate_leave_def)

lemma attempt_gate_shared_asleep:
  "snd (attempt_gate e p Shared g) = Asleep \<Longrightarrow>
     fst (attempt_gate e p Shared g) = g \<and> (gs_exclusive g \<or> 0 < gs_waiting_exclusive g)"
  by (auto simp: attempt_gate_def gate_attempt_def gate_begin_def split: if_splits)

lemma advance_asleep: "asleep_at k (advance out t) \<Longrightarrow>
    out = Asleep \<and> k = fst (hd (lt_todo t)) \<and> lt_todo t \<noteq> []"
  by (cases out) (auto simp: asleep_at_def waits_at_def)

lemma waiting_exclusive_thread:
  assumes "lease_inv S" "0 < gs_waiting_exclusive (ls_gates S k)"
  obtains v where "v \<in> set (ls_threads S)" "waits_at k v" "snd (hd (lt_todo v)) = Exclusive"
proof -
  have "0 < tally (waits_exclusive k) S"
    using assms by (simp add: lease_inv_def gate_ok_def)
  then obtain i where "i < length (ls_threads S)" "0 < waits_exclusive k (ls_threads S ! i)"
    by (auto simp: tally_pos)
  then show ?thesis
    using that [of "ls_threads S ! i"] by (auto simp: waits_exclusive_def)
qed

lemma owed_at:
  assumes inv: "lease_inv S" and ok: "sleep_ok S"
    and g: "gs_exclusive (ls_gates S k) \<or> 0 < gs_waiting_exclusive (ls_gates S k)"
  shows "occupied (ls_gates S k) \<or> (\<exists>w\<in>set (ls_threads S). awake_exclusive_at k w)"
proof (cases "gs_exclusive (ls_gates S k)")
  case False
  with g obtain v where v: "v \<in> set (ls_threads S)" "waits_at k v" "snd (hd (lt_todo v)) = Exclusive"
    using waiting_exclusive_thread [OF inv] by blast
  show ?thesis
  proof (cases "lt_phase v = Waiting True")
    case True
    with v show ?thesis by (auto simp: awake_exclusive_at_def)
  next
    case False
    with v have "asleep_at k v" by (auto simp: asleep_at_def waits_at_def)
    with ok v(1) show ?thesis unfolding sleep_ok_def by blast
  qed
qed (simp add: occupied_def)

lemma sleep_ok_attempt:
  assumes inv: "lease_inv S" and ok: "sleep_ok S"
    and exec: "lease_exec (Attempt i e) S = Some S'"
  shows "sleep_ok S'"
proof -
  define t where "t = ls_threads S ! i"
  have todo: "lt_todo t \<noteq> []" using exec by (auto simp: t_def Let_def split: if_splits)
  obtain k m rest where hd: "lt_todo t = (k, m) # rest" using todo by (cases "lt_todo t") auto
  define r where "r = attempt_gate e (lt_phase t) m (ls_gates S k)"
  have S': "S' = S \<lparr> ls_gates := (ls_gates S)(k := fst r),
                     ls_threads := (ls_threads S)[i := advance (snd r) t] \<rparr>"
    using exec hd by (auto simp: Let_def r_def t_def split: if_splits)
  let ?owed = "\<lambda>k'. occupied (ls_gates S' k') \<or> (\<exists>w\<in>set (ls_threads S'). awake_exclusive_at k' w)"
  have keep: "?owed k'" if "occupied (ls_gates S k') \<or> (\<exists>w\<in>set (ls_threads S). awake_exclusive_at k' w)"
    for k' using that
  proof
    assume "occupied (ls_gates S k')"
    then show ?thesis using attempt_gate_occupied by (auto simp: S' r_def)
  next
    assume "\<exists>w\<in>set (ls_threads S). awake_exclusive_at k' w"
    then obtain w where w: "w \<in> set (ls_threads S)" "awake_exclusive_at k' w" by blast
    show ?thesis
    proof (cases "w = ls_threads S ! i")
      case True
      with w hd have "k' = k" "m = Exclusive"
        by (auto simp: awake_exclusive_at_def waits_at_def t_def)
      then show ?thesis using attempt_gate_exclusive by (simp add: S' r_def)
    next
      case False
      with w show ?thesis using in_set_update_other by (fastforce simp: S')
    qed
  qed
  show ?thesis unfolding sleep_ok_def
  proof (intro allI impI, elim bexE)
    fix k' u
    assume u: "u \<in> set (ls_threads S')" "asleep_at k' u"
    then consider "u = advance (snd r) t" | "u \<in> set (ls_threads S)"
      by (auto simp: S' dest!: in_set_updateD)
    then show "?owed k'"
    proof cases
      case 1
      with u(2) hd have s: "snd r = Asleep" "k' = k" by (auto dest: advance_asleep)
      show ?thesis
      proof (cases m)
        case Exclusive
        then show ?thesis using s attempt_gate_exclusive by (simp add: S' r_def)
      next
        case Shared
        then show ?thesis
          using s attempt_gate_shared_asleep owed_at [OF inv ok] by (intro keep) (auto simp: r_def)
      qed
    next
      case 2
      with u(2) ok show ?thesis unfolding sleep_ok_def by (intro keep) blast
    qed
  qed
qed

lemma sleep_ok_drop:
  assumes ok: "sleep_ok S" and exec: "lease_exec (DropGuard i) S = Some S'"
  shows "sleep_ok S'"
proof -
  let ?t = "ls_threads S ! i"
  have ph: "lt_phase ?t = Releasing" using exec by (auto simp: Let_def split: if_splits)
  show ?thesis
  proof (cases "lt_held ?t")
    case Nil
    then have S': "S' = S \<lparr> ls_threads := (ls_threads S)[i := released ?t] \<rparr>"
      using exec by (auto simp: Let_def split: if_splits)
    show ?thesis unfolding S'
      by (rule sleep_ok_thread [OF ok]) (use ph in \<open>auto simp: released_def idle_thread_def\<close>)
  next
    case (Cons g rest)
    obtain k m where g: "g = (k, m)" by (cases g)
    define T where "T = S \<lparr> ls_threads := (ls_threads S)[i := ?t \<lparr> lt_held := rest \<rparr>] \<rparr>"
    have T: "sleep_ok T" unfolding T_def by (rule sleep_ok_thread [OF ok]) (use ph in auto)
    have S': "S' = T \<lparr> ls_gates := (ls_gates S)(k := gate_drop m (ls_gates S k)),
            ls_threads := map (wake k) (ls_threads T) \<rparr>"
      using exec Cons g by (auto simp: Let_def T_def split: if_splits)
    have woken: "asleep_at k' (wake k u) \<Longrightarrow> k' \<noteq> k \<and> asleep_at k' u" for k' u
      by (auto simp: asleep_at_def wake_def waits_at_def split: if_splits)
    have stay: "awake_exclusive_at k' u \<Longrightarrow> awake_exclusive_at k' (wake k u)" for k' u
      by (auto simp: awake_exclusive_at_def wake_def waits_at_def)
    show ?thesis unfolding sleep_ok_def
    proof (intro allI impI, elim bexE)
      fix k' u assume "u \<in> set (ls_threads S')" "asleep_at k' u"
      then obtain v where v: "v \<in> set (ls_threads T)" "k' \<noteq> k" "asleep_at k' v"
        using woken by (auto simp: S')
      with T have "occupied (ls_gates T k') \<or> (\<exists>w\<in>set (ls_threads T). awake_exclusive_at k' w)"
        unfolding sleep_ok_def by blast
      with v(2) stay show "occupied (ls_gates S' k') \<or> (\<exists>w\<in>set (ls_threads S'). awake_exclusive_at k' w)"
        by (auto simp: S' T_def)
    qed
  qed
qed

lemma sleep_ok_exec:
  assumes inv: "lease_inv S" and ok: "sleep_ok S" and exec: "lease_exec ev S = Some S'"
  shows "sleep_ok S'"
proof (cases ev)
  case (Attempt i e)
  with assms show ?thesis using sleep_ok_attempt by simp
next
  case (DropGuard i)
  with assms show ?thesis using sleep_ok_drop by simp
qed (use exec in \<open>auto simp: Let_def intro!: sleep_ok_thread [OF ok] split: if_splits\<close>)

lemma sleep_ok_reach: "lease_reach S \<Longrightarrow> sleep_ok S"
proof (induction rule: lease_reach.induct)
  case (reach_init n)
  show ?case
    by (simp add: sleep_ok_def lease_init_def asleep_at_def idle_thread_def)
qed (auto intro: sleep_ok_exec lease_inv_reach)

text \<open>The lock order: global, then workspace, then sandbox.\<close>

fun gate_rank :: "gate_key \<Rightarrow> nat" where
  "gate_rank GlobalGate = 0"
| "gate_rank (WorkspaceGate s w) = 1"
| "gate_rank (SandboxGate s) = 2"

lemma plan_ordered: "sorted_wrt (<) (map (gate_rank \<circ> fst) (outer_guards t @ plan_of t))"
  by (cases "lt_scope t")
     (auto simp: outer_guards_def plan_of_def workspace_only_plan_def split: option.splits)

lemma held_below_wait:
  assumes "thread_ok t" "waits_at k t" "(k', m) \<in> set (guards_of t)"
  shows "gate_rank k' < gate_rank k"
proof -
  obtain m' rest where todo: "lt_todo t = (k, m') # rest"
    using assms(2) by (cases "lt_todo t") (auto simp: waits_at_def)
  have "plan_of t = lt_held t @ (k, m') # rest"
    using assms(1,2) todo by (auto simp: thread_ok_def waits_at_def)
  with plan_ordered [of t] assms(3) show ?thesis
    by (auto simp: sorted_wrt_append guards_of_def)
qed

definition lease_busy :: "lease_thread \<Rightarrow> bool" where
  "lease_busy t = (lt_phase t \<noteq> Idle \<and> lt_phase t \<noteq> Waiting False)"

lemma occupied_holder:
  assumes "lease_inv S" "occupied (ls_gates S k)"
  obtains t m where "t \<in> set (ls_threads S)" "(k, m) \<in> set (guards_of t)"
proof -
  have "gate_ok S k" using assms(1) by (simp add: lease_inv_def)
  then have "0 < tally (holds k Shared) S \<or> 0 < tally (holds k Exclusive) S"
    using assms(2) by (auto simp: occupied_def gate_ok_def of_bool_def split: if_splits)
  then obtain i m where "i < length (ls_threads S)" "0 < holds k m (ls_threads S ! i)"
    by (auto simp: tally_pos)
  then show ?thesis using that [of "ls_threads S ! i" m] by (simp add: holds_pos)
qed

lemma idle_guards: "thread_ok t \<Longrightarrow> lt_phase t = Idle \<Longrightarrow> guards_of t = []"
  by (simp add: thread_ok_def idle_thread_def guards_of_def outer_guards_def)

text \<open>C3: leases cannot deadlock. Whenever some request sleeps at a gate, some other request is not
  asleep: it is arriving, awake, holding its lease or dropping its guards, so it can take a step
  without any deadline passing and without spurious wake-ups.\<close>

theorem leases_never_all_asleep:
  assumes reach: "lease_reach S" and asleep: "\<exists>t\<in>set (ls_threads S). lt_phase t = Waiting False"
  shows "\<exists>t\<in>set (ls_threads S). lease_busy t"
proof (rule ccontr)
  assume none: "\<not> ?thesis"
  have inv: "lease_inv S" and ok: "sleep_ok S"
    using reach by (simp_all add: lease_inv_reach sleep_ok_reach)
  have tok: "thread_ok t" if "t \<in> set (ls_threads S)" for t
    using inv that by (simp add: lease_inv_def)
  let ?K = "{k. \<exists>t\<in>set (ls_threads S). asleep_at k t}"
  have at: "\<exists>k. asleep_at k t" if "t \<in> set (ls_threads S)" "lt_phase t = Waiting False" for t
    using tok [OF that(1)] that(2) by (auto simp: asleep_at_def waits_at_def thread_ok_def)
  then have "?K \<noteq> {}" using asleep by blast
  moreover have "\<exists>k'\<in>?K. gate_rank k < gate_rank k'" if k: "k \<in> ?K" for k
  proof -
    have "\<not> (\<exists>w\<in>set (ls_threads S). awake_exclusive_at k w)"
      using none by (auto simp: lease_busy_def awake_exclusive_at_def)
    then have "occupied (ls_gates S k)" using ok k unfolding sleep_ok_def by blast
    then obtain t m where t: "t \<in> set (ls_threads S)" "(k, m) \<in> set (guards_of t)"
      using occupied_holder [OF inv] by blast
    then have "lt_phase t = Waiting False"
      using none idle_guards [OF tok [OF t(1)]] by (force simp: lease_busy_def)
    then obtain k' where k': "asleep_at k' t" using at [OF t(1)] by blast
    then have "gate_rank k < gate_rank k'"
      using held_below_wait [OF tok [OF t(1)] _ t(2)] by (simp add: asleep_at_def)
    with k' t(1) show ?thesis by blast
  qed
  moreover have "gate_rank k \<le> 2" for k by (cases k) simp_all
  ultimately show False
    using infinite_growing [of "gate_rank ` ?K"] finite_subset [of "gate_rank ` ?K" "{..2}"]
    by auto
qed

lemmas lease_run_simps =
  lease_init_def idle_thread_def Let_def attempt_gate_def gate_attempt_def gate_begin_def
  gate_leave_def gate_default_def numeral_2_eq_2 numeral_3_eq_3 wake_def waits_at_def

definition sandbox_waits_for_workspace :: "lease_event list" where
  "sandbox_waits_for_workspace =
     [Request 0 (WorkspaceScope ''s'' ''a''), Attempt 0 False, Attempt 0 False, Attempt 0 False,
      Request 1 (SandboxScope ''s''), Attempt 1 False, Attempt 1 False]"

theorem leases_never_all_asleep_witness:
  "\<exists>S. lease_reach S \<and> (\<exists>t\<in>set (ls_threads S). lt_phase t = Waiting False) \<and>
     (\<exists>t\<in>set (ls_threads S). lease_busy t)"
proof -
  define S where "S = the (lease_run sandbox_waits_for_workspace (lease_init 2))"
  have run: "lease_run sandbox_waits_for_workspace (lease_init 2) = Some S"
    and "lt_phase (ls_threads S ! 1) = Waiting False" "length (ls_threads S) = 2"
    unfolding S_def sandbox_waits_for_workspace_def by (simp_all add: lease_run_simps)
  then have "\<exists>t\<in>set (ls_threads S). lt_phase t = Waiting False"
    by (metis nth_mem one_less_numeral_iff semiring_norm(76))
  moreover have "lease_reach S" by (rule lease_run_reach [OF reach_init run])
  ultimately show ?thesis using leases_never_all_asleep by blast
qed

definition timed_out_exclusive_waiter :: "lease_event list" where
  "timed_out_exclusive_waiter =
     [Request 0 (WorkspaceScope ''s'' ''a''), Attempt 0 False, Attempt 0 False, Attempt 0 False,
      Request 1 (SandboxScope ''s''), Attempt 1 False, Attempt 1 False,
      Request 2 (WorkspaceScope ''s'' ''b''), Attempt 2 False, Attempt 2 False, Attempt 2 False,
      Attempt 1 True]"

text \<open>Finding: an exclusive waiter that times out leaves without notifying the gate. A workspace operation
  it had held back then stays asleep although the gate would admit it at once.\<close>

theorem timeout_leaves_admissible_sleeper:
  "\<exists>S k m t. lease_run timed_out_exclusive_waiter (lease_init 3) = Some S \<and>
     t \<in> set (ls_threads S) \<and> lt_phase t = Waiting False \<and> hd (lt_todo t) = (k, m) \<and>
     gate_admitted m (ls_gates S k)"
proof -
  define S where "S = the (lease_run timed_out_exclusive_waiter (lease_init 3))"
  have run: "lease_run timed_out_exclusive_waiter (lease_init 3) = Some S"
    and "lt_phase (ls_threads S ! 2) = Waiting False" "length (ls_threads S) = 3"
      "hd (lt_todo (ls_threads S ! 2)) = (SandboxGate ''s'', Shared)"
      "gate_admitted Shared (ls_gates S (SandboxGate ''s''))"
    unfolding S_def timed_out_exclusive_waiter_def by (simp_all add: lease_run_simps)
  moreover have "ls_threads S ! 2 \<in> set (ls_threads S)" using calculation(3) by simp
  ultimately show ?thesis by blast
qed

end
