(* ===== verification/Policy.thy ===== *)
theory Policy
  imports Errors
begin

text \<open>
  The policy engine (\<open>src/policy/types.rs\<close>, \<open>src/policy/engine/decision.rs\<close>, \<open>rules.rs\<close>,
  \<open>authorize.rs\<close>): patterns, rule groups, the decision for one uid and action, and the edits an
  operator makes. Shows that the decision depends only on which rules exist (a uid rule beats a
  wildcard rule, a deny beats an allow), that edits keep the rule table free of duplicates and
  contradictions, and that a deny rule takes effect whatever else the table holds.
\<close>

section \<open>Data\<close>

record policy_rule =
  pr_uid :: "u32 option"
  pr_allow :: "string list"
  pr_deny :: "string list"

record policy =
  pol_version :: u32
  pol_default_allow :: bool
  pol_rules :: "policy_rule list"

definition POLICY_VERSION :: u32 where
  "POLICY_VERSION = 1"

definition policy_default :: policy where
  "policy_default = \<lparr> pol_version = POLICY_VERSION, pol_default_allow = True, pol_rules = [] \<rparr>"

section \<open>Decision\<close>

definition matches_pattern :: "string \<Rightarrow> string \<Rightarrow> bool" where
  "matches_pattern pattern action =
     (if pattern = ''*'' then True
      else if pattern \<noteq> [] \<and> last pattern = CHR ''*'' then starts_with (butlast pattern) action
      else action = pattern)"

fun evaluate_rules :: "bool \<Rightarrow> policy_rule list \<Rightarrow> string \<Rightarrow> bool option" where
  "evaluate_rules allow_matched [] action = (if allow_matched then Some True else None)"
| "evaluate_rules allow_matched (rule # rules) action =
     (if list_ex (\<lambda>p. matches_pattern p action) (pr_deny rule) then Some False
      else if list_ex (\<lambda>p. matches_pattern p action) (pr_allow rule)
      then evaluate_rules True rules action
      else evaluate_rules allow_matched rules action)"

definition evaluate_rule_group :: "policy_rule list \<Rightarrow> string \<Rightarrow> bool option" where
  "evaluate_rule_group rules action = evaluate_rules False rules action"

definition evaluate_policy_decision :: "policy \<Rightarrow> u32 \<Rightarrow> string \<Rightarrow> bool option" where
  "evaluate_policy_decision policy uid action =
     (case evaluate_rule_group (filter (\<lambda>r. pr_uid r = Some uid) (pol_rules policy)) action of
        Some decision \<Rightarrow> Some decision
      | None \<Rightarrow> evaluate_rule_group (filter (\<lambda>r. pr_uid r = None) (pol_rules policy)) action)"

section \<open>Authorization\<close>

definition POLICY_EXEMPT_ACTIONS :: "string list" where
  "POLICY_EXEMPT_ACTIONS = [''ping'', ''shutdown'', ''daemon.health'', ''policy.get'']"

definition ROOT_ONLY_ACTIONS :: "string list" where
  "ROOT_ONLY_ACTIONS = [''policy.set_default'', ''policy.allow'', ''policy.deny'', ''policy.clear'']"

definition is_policy_exempt :: "string \<Rightarrow> bool" where
  "is_policy_exempt action = (action \<in> set POLICY_EXEMPT_ACTIONS)"

definition is_root_only :: "string \<Rightarrow> bool" where
  "is_root_only action = (action \<in> set ROOT_ONLY_ACTIONS)"

text \<open>\<open>loaded\<close> is what \<open>load_policy\<close> returns at the moment of the call.\<close>

definition authorize :: "policy result \<Rightarrow> u32 \<Rightarrow> string \<Rightarrow> unit result" where
  "authorize loaded uid action =
     (if uid = 0 then Inr ()
      else if is_root_only action then bail ''policy denied action: restricted to root''
      else if is_policy_exempt action then Inr ()
      else and_then loaded (\<lambda>policy.
        case evaluate_policy_decision policy uid action of
          Some True \<Rightarrow> Inr ()
        | Some False \<Rightarrow> bail ''policy denied action''
        | None \<Rightarrow> if pol_default_allow policy then Inr ()
                  else bail ''policy denied action (default deny)''))"

section \<open>Edits\<close>

definition pattern_char :: "char \<Rightarrow> bool" where
  "pattern_char c =
     (is_ascii_alphanumeric c \<or> c = CHR ''.'' \<or> c = CHR ''*'' \<or> c = CHR ''_'' \<or> c = CHR ''-'')"

definition validate_action_pattern :: "string \<Rightarrow> unit result" where
  "validate_action_pattern action =
     (if action = [] \<or> length action > 120 then bail ''action pattern must be 1-120 characters''
      else if \<not> list_all pattern_char action then bail ''action pattern contains invalid character''
      else Inr ())"

definition push_new :: "string \<Rightarrow> string list \<Rightarrow> string list" where
  "push_new x xs = (if x \<in> set xs then xs else xs @ [x])"

definition edit_rule :: "string \<Rightarrow> bool \<Rightarrow> policy_rule \<Rightarrow> policy_rule" where
  "edit_rule action is_allow rule =
     (if is_allow
      then rule \<lparr> pr_allow := push_new action (pr_allow rule),
                  pr_deny := filter (\<lambda>x. x \<noteq> action) (pr_deny rule) \<rparr>
      else rule \<lparr> pr_deny := push_new action (pr_deny rule),
                  pr_allow := filter (\<lambda>x. x \<noteq> action) (pr_allow rule) \<rparr>)"

definition new_rule :: "u32 option \<Rightarrow> string \<Rightarrow> bool \<Rightarrow> policy_rule" where
  "new_rule uid action is_allow =
     \<lparr> pr_uid = uid, pr_allow = (if is_allow then [action] else []),
       pr_deny = (if is_allow then [] else [action]) \<rparr>"

text \<open>The loop over the rules stops at the first rule of the uid; without one a rule is appended.\<close>

fun upsert_rules :: "u32 option \<Rightarrow> string \<Rightarrow> bool \<Rightarrow> policy_rule list \<Rightarrow> policy_rule list" where
  "upsert_rules uid action is_allow [] = [new_rule uid action is_allow]"
| "upsert_rules uid action is_allow (rule # rules) =
     (if pr_uid rule = uid then edit_rule action is_allow rule # rules
      else rule # upsert_rules uid action is_allow rules)"

definition upsert_rule :: "u32 option \<Rightarrow> string \<Rightarrow> bool \<Rightarrow> policy \<Rightarrow> policy result" where
  "upsert_rule uid action is_allow policy =
     and_then (validate_action_pattern action) (\<lambda>_.
       Inr (policy \<lparr> pol_rules := upsert_rules uid action is_allow (pol_rules policy) \<rparr>))"

definition add_allow_rule :: "u32 option \<Rightarrow> string \<Rightarrow> policy \<Rightarrow> policy result" where
  "add_allow_rule uid action policy = upsert_rule uid action True policy"

definition add_deny_rule :: "u32 option \<Rightarrow> string \<Rightarrow> policy \<Rightarrow> policy result" where
  "add_deny_rule uid action policy = upsert_rule uid action False policy"

definition set_default_allow :: "bool \<Rightarrow> policy \<Rightarrow> policy result" where
  "set_default_allow default_allow policy = Inr (policy \<lparr> pol_default_allow := default_allow \<rparr>)"

definition clear_rules :: "u32 option \<Rightarrow> policy \<Rightarrow> policy result" where
  "clear_rules uid policy =
     Inr (policy \<lparr> pol_rules :=
       (case uid of Some u \<Rightarrow> filter (\<lambda>r. pr_uid r \<noteq> Some u) (pol_rules policy) | None \<Rightarrow> []) \<rparr>)"

section \<open>The decision as a specification\<close>

definition denied_by :: "policy \<Rightarrow> u32 option \<Rightarrow> string \<Rightarrow> bool" where
  "denied_by policy who action \<longleftrightarrow>
     (\<exists>r\<in>set (pol_rules policy). pr_uid r = who \<and> (\<exists>p\<in>set (pr_deny r). matches_pattern p action))"

definition allowed_by :: "policy \<Rightarrow> u32 option \<Rightarrow> string \<Rightarrow> bool" where
  "allowed_by policy who action \<longleftrightarrow>
     (\<exists>r\<in>set (pol_rules policy). pr_uid r = who \<and> (\<exists>p\<in>set (pr_allow r). matches_pattern p action))"

lemma evaluate_rules_spec:
  "evaluate_rules b rules action =
     (if \<exists>r\<in>set rules. \<exists>p\<in>set (pr_deny r). matches_pattern p action then Some False
      else if b \<or> (\<exists>r\<in>set rules. \<exists>p\<in>set (pr_allow r). matches_pattern p action) then Some True
      else None)"
proof (induction rules arbitrary: b)
  case (Cons r rs)
  show ?case by (auto simp: list_ex_iff Cons.IH)
qed simp

lemma evaluate_group_spec:
  "evaluate_rule_group (filter (\<lambda>r. pr_uid r = who) (pol_rules policy)) action =
     (if denied_by policy who action then Some False
      else if allowed_by policy who action then Some True else None)"
  by (auto simp: evaluate_rule_group_def evaluate_rules_spec denied_by_def allowed_by_def)

lemma decision_spec:
  "evaluate_policy_decision policy uid action =
     (if denied_by policy (Some uid) action then Some False
      else if allowed_by policy (Some uid) action then Some True
      else if denied_by policy None action then Some False
      else if allowed_by policy None action then Some True
      else None)"
  by (simp add: evaluate_policy_decision_def evaluate_group_spec)

text \<open>C7: the decision is made in a fixed order that does not depend on the order of the rules. A rule
  for the caller's uid beats a wildcard rule, at the same specificity a deny beats an allow, and
  without a matching rule there is no decision.\<close>

theorem policy_decision_precedence:
  "evaluate_policy_decision policy uid action =
     (if denied_by policy (Some uid) action then Some False
      else if allowed_by policy (Some uid) action then Some True
      else if denied_by policy None action then Some False
      else if allowed_by policy None action then Some True
      else None)"
  by (rule decision_spec)

lemma authorize_iff:
  "is_ok (authorize (Inr policy) uid action) \<longleftrightarrow>
     uid = 0 \<or> \<not> is_root_only action \<and>
       (is_policy_exempt action \<or>
        (case evaluate_policy_decision policy uid action of
           Some decision \<Rightarrow> decision
         | None \<Rightarrow> pol_default_allow policy))"
  by (auto simp: authorize_def bail_def split: option.splits bool.splits)

lemma authorize_root_only: "uid \<noteq> 0 \<Longrightarrow> is_root_only action \<Longrightarrow> \<not> is_ok (authorize loaded uid action)"
  by (simp add: authorize_def bail_def)

section \<open>Edits keep the table consistent\<close>

text \<open>At most one rule per uid, and in a rule no pattern twice and none both allowed and denied.\<close>

definition rule_ok :: "policy_rule \<Rightarrow> bool" where
  "rule_ok r \<longleftrightarrow> distinct (pr_allow r) \<and> distinct (pr_deny r) \<and>
     set (pr_allow r) \<inter> set (pr_deny r) = {}"

definition policy_ok :: "policy \<Rightarrow> bool" where
  "policy_ok policy \<longleftrightarrow>
     distinct (map pr_uid (pol_rules policy)) \<and> list_all rule_ok (pol_rules policy)"

lemma pr_uid_edit_rule [simp]: "pr_uid (edit_rule a b r) = pr_uid r"
  by (simp add: edit_rule_def)

lemma rule_ok_edit: "rule_ok r \<Longrightarrow> rule_ok (edit_rule a b r)"
  by (auto simp: rule_ok_def edit_rule_def push_new_def)

lemma rule_ok_new: "rule_ok (new_rule uid a b)"
  by (simp add: rule_ok_def new_rule_def)

lemma uids_upsert:
  "set (map pr_uid (upsert_rules uid a b rules)) = insert uid (set (map pr_uid rules))"
  by (induction rules) (auto simp: new_rule_def)

lemma upsert_rules_ok:
  "distinct (map pr_uid rules) \<Longrightarrow> list_all rule_ok rules \<Longrightarrow>
     distinct (map pr_uid (upsert_rules uid a b rules)) \<and>
     list_all rule_ok (upsert_rules uid a b rules)"
proof (induction rules)
  case (Cons r rs)
  then show ?case
    using uids_upsert [of uid a b rs] by (auto simp: rule_ok_edit)
qed (simp add: rule_ok_new)

datatype policy_edit =
    AddAllow "u32 option" string
  | AddDeny "u32 option" string
  | SetDefault bool
  | ClearRules "u32 option"

fun apply_edit :: "policy_edit \<Rightarrow> policy \<Rightarrow> policy result" where
  "apply_edit (AddAllow uid action) policy = add_allow_rule uid action policy"
| "apply_edit (AddDeny uid action) policy = add_deny_rule uid action policy"
| "apply_edit (SetDefault d) policy = set_default_allow d policy"
| "apply_edit (ClearRules uid) policy = clear_rules uid policy"

lemmas edit_defs =
  add_allow_rule_def add_deny_rule_def upsert_rule_def set_default_allow_def clear_rules_def

lemma list_all_filterI: "list_all P xs \<Longrightarrow> list_all P (filter Q xs)"
  by (simp add: list_all_iff)

lemma policy_ok_edit: "policy_ok policy \<Longrightarrow> apply_edit e policy = Inr policy' \<Longrightarrow> policy_ok policy'"
  by (cases e) (auto simp: edit_defs policy_ok_def upsert_rules_ok result_simps
      list_all_filterI distinct_map_filter split: option.splits)

text \<open>An edit that fails leaves the stored policy as it was.\<close>

definition edit_policy :: "policy_edit \<Rightarrow> policy \<Rightarrow> policy" where
  "edit_policy e policy = (case apply_edit e policy of Inl _ \<Rightarrow> policy | Inr p \<Rightarrow> p)"

lemma policy_ok_edit_policy: "policy_ok policy \<Longrightarrow> policy_ok (edit_policy e policy)"
  by (auto simp: edit_policy_def intro: policy_ok_edit split: sum.splits)

text \<open>starting from the default policy, any sequence of allow, deny, default and clear edits keeps
  at most one rule per uid, and no rule lists a pattern twice or both allows and denies it.\<close>

theorem policy_edits_consistent:
  "policy_ok (fold edit_policy edits policy_default)"
proof -
  have "policy_ok policy \<Longrightarrow> policy_ok (fold edit_policy edits policy)" for policy
    by (induction edits arbitrary: policy) (auto intro: policy_ok_edit_policy)
  then show ?thesis by (simp add: policy_ok_def policy_default_def)
qed

section \<open>A new rule takes effect\<close>

lemma matches_pattern_refl: "matches_pattern a a"
  by (auto simp: matches_pattern_def starts_with_iff intro: append_butlast_last_id [symmetric])

lemma deny_in_upsert:
  "\<exists>r\<in>set (upsert_rules uid a False rules). pr_uid r = uid \<and> a \<in> set (pr_deny r)"
  by (induction rules) (auto simp: new_rule_def edit_rule_def push_new_def)

lemma upsert_other:
  "who \<noteq> uid \<Longrightarrow> filter (\<lambda>r. pr_uid r = who) (upsert_rules uid a b rules) =
     filter (\<lambda>r. pr_uid r = who) rules"
  by (induction rules) (auto simp: new_rule_def)

lemma denied_by_filter:
  "denied_by policy who action =
     (\<exists>r\<in>set (filter (\<lambda>r. pr_uid r = who) (pol_rules policy)).
        \<exists>p\<in>set (pr_deny r). matches_pattern p action)"
  by (auto simp: denied_by_def)

lemma allowed_by_filter:
  "allowed_by policy who action =
     (\<exists>r\<in>set (filter (\<lambda>r. pr_uid r = who) (pol_rules policy)).
        \<exists>p\<in>set (pr_allow r). matches_pattern p action)"
  by (auto simp: allowed_by_def)

text \<open>a deny rule an operator adds for a uid takes effect at once. Every action its pattern matches
  is refused for that uid, whatever rules the table already held, and no decision for another uid
  changes.\<close>

theorem add_deny_rule_effective:
  assumes "add_deny_rule (Some uid) pattern policy = Inr policy'" "matches_pattern pattern action"
  shows "evaluate_policy_decision policy' uid action = Some False \<and>
     (other \<noteq> uid \<longrightarrow>
        evaluate_policy_decision policy' other act = evaluate_policy_decision policy other act)"
proof -
  have p': "pol_rules policy' = upsert_rules (Some uid) pattern False (pol_rules policy)"
    using assms(1) by (auto simp: edit_defs result_simps)
  then have "denied_by policy' (Some uid) action"
    using deny_in_upsert [of "Some uid" pattern "pol_rules policy"] assms(2)
    by (auto simp: denied_by_def)
  then have "evaluate_policy_decision policy' uid action = Some False" by (simp add: decision_spec)
  moreover have "other \<noteq> uid \<longrightarrow>
      evaluate_policy_decision policy' other act = evaluate_policy_decision policy other act"
    by (simp add: evaluate_policy_decision_def p' upsert_other split: option.split)
  ultimately show ?thesis by simp
qed

theorem add_deny_rule_effective_witness:
  "evaluate_policy_decision
     (policy_default \<lparr> pol_rules := [new_rule (Some 7) ''workspace.*'' False] \<rparr>) 7 ''workspace.stop''
     = Some False"
proof (rule add_deny_rule_effective [THEN conjunct1])
  show "add_deny_rule (Some 7) ''workspace.*'' policy_default =
      Inr (policy_default \<lparr> pol_rules := [new_rule (Some 7) ''workspace.*'' False] \<rparr>)"
    by code_simp
  show "matches_pattern ''workspace.*'' ''workspace.stop''" by code_simp
qed

end
