(* ===== verification/Port_Spec.thy ===== *)
theory Port_Spec
  imports Errors Ordered_Map
begin

text \<open>
  Published port specifications (\<open>src/workspace/ports.rs\<close>) and the port list edits of
  \<open>src/daemon/dispatch/ports.rs\<close>: parsing and printing of specs and bindings, the duplicate check,
  and the merge of configured ports with what the publisher reports. Shows the round trip of
  specs, that validation is exactly distinctness of bindings, and that the merged report has one
  entry per binding, in configuration order, with no runtime status lost.
\<close>

section \<open>Bindings\<close>

datatype published_port_binding =
  Binding (pb_host_ip: string) (pb_host_port: u16) (pb_protocol: string)

definition binding_key :: "published_port_binding \<Rightarrow> string \<times> u16 \<times> string" where
  "binding_key b = (pb_host_ip b, pb_host_port b, pb_protocol b)"

lemma binding_key_eq [simp]: "binding_key a = binding_key b \<longleftrightarrow> a = b"
  by (cases a; cases b) (simp add: binding_key_def)

instantiation published_port_binding :: linorder
begin

definition less_eq_published_port_binding :: "published_port_binding \<Rightarrow> published_port_binding \<Rightarrow> bool" where
  "less_eq_published_port_binding a b = (binding_key a \<le> binding_key b)"

definition less_published_port_binding :: "published_port_binding \<Rightarrow> published_port_binding \<Rightarrow> bool" where
  "less_published_port_binding a b = (binding_key a < binding_key b)"

instance
proof
  fix a b c :: published_port_binding
  show "(a < b) = (a \<le> b \<and> \<not> b \<le> a)"
    unfolding less_eq_published_port_binding_def less_published_port_binding_def
    by (rule less_le_not_le)
  show "a \<le> a" by (simp add: less_eq_published_port_binding_def)
  show "a \<le> c" if "a \<le> b" "b \<le> c"
    using that order_trans unfolding less_eq_published_port_binding_def by blast
  show "a = b" if "a \<le> b" "b \<le> a"
    using that order_antisym unfolding less_eq_published_port_binding_def
    by (metis binding_key_eq)
  show "a \<le> b \<or> b \<le> a"
    unfolding less_eq_published_port_binding_def by (rule linear)
qed

end

record published_port_spec =
  ps_host_ip :: string
  ps_host_port :: u16
  ps_workspace_port :: u16
  ps_protocol :: string

definition LOOPBACK_HOST_IP :: string where
  "LOOPBACK_HOST_IP = ''127.0.0.1''"

definition TCP_PROTOCOL :: string where
  "TCP_PROTOCOL = ''tcp''"

definition spec_binding :: "published_port_spec \<Rightarrow> published_port_binding" where
  "spec_binding s = Binding (ps_host_ip s) (ps_host_port s) (ps_protocol s)"

section \<open>Parsing and printing\<close>

definition normalize_protocol :: "string \<Rightarrow> string result" where
  "normalize_protocol raw =
     (let protocol = map to_ascii_lowercase (trim raw) in
      if protocol \<noteq> TCP_PROTOCOL then bail ''unsupported protocol; only tcp is supported''
      else Inr protocol)"

definition validate_host_ip :: "string \<Rightarrow> unit result" where
  "validate_host_ip host_ip =
     (if host_ip \<noteq> LOOPBACK_HOST_IP then bail ''unsupported host IP'' else Inr ())"

definition parse_port :: "string \<Rightarrow> u16 result" where
  "parse_port raw =
     (case parse_uint 65535 raw of
        None \<Rightarrow> bail ''invalid port''
      | Some n \<Rightarrow> let port = of_nat n in if port = 0 then bail ''invalid port'' else Inr port)"

definition split_protocol :: "string \<Rightarrow> string \<times> string" where
  "split_protocol trimmed =
     (case rsplit_once CHR ''/'' trimmed of
        Some (base, protocol) \<Rightarrow> (base, protocol)
      | None \<Rightarrow> (trimmed, TCP_PROTOCOL))"

fun spec_from_parts :: "string \<Rightarrow> string list \<Rightarrow> published_port_spec result" where
  "spec_from_parts protocol [host_ip, host_port_raw, workspace_port_raw] =
     and_then (validate_host_ip host_ip) (\<lambda>_.
     and_then (parse_port host_port_raw) (\<lambda>host_port.
     and_then (parse_port workspace_port_raw) (\<lambda>workspace_port.
       Inr \<lparr> ps_host_ip = host_ip, ps_host_port = host_port,
             ps_workspace_port = workspace_port, ps_protocol = protocol \<rparr>)))"
| "spec_from_parts protocol _ =
     bail ''published port spec must use HOST_IP:HOST_PORT:WORKSPACE_PORT[/tcp]''"

definition spec_parse :: "string \<Rightarrow> published_port_spec result" where
  "spec_parse raw =
     (let trimmed = trim raw in
      if trimmed = [] then bail ''published port spec must not be empty''
      else let (base, protocol_raw) = split_protocol trimmed in
        and_then (normalize_protocol protocol_raw) (\<lambda>protocol.
          spec_from_parts protocol (split_on CHR '':'' base)))"

definition show_u16 :: "u16 \<Rightarrow> string" where
  "show_u16 w = dec_string (unat w)"

definition spec_display :: "published_port_spec \<Rightarrow> string" where
  "spec_display s =
     ps_host_ip s @ '':'' @ show_u16 (ps_host_port s) @ '':'' @ show_u16 (ps_workspace_port s) @
     ''/'' @ ps_protocol s"

definition binding_parse :: "string \<Rightarrow> published_port_binding result" where
  "binding_parse raw =
     (let trimmed = trim raw in
      if trimmed = [] then bail ''published port binding must not be empty''
      else let (base, protocol_raw) = split_protocol trimmed in
        and_then (normalize_protocol protocol_raw) (\<lambda>protocol.
        and_then (ok_or (Message ''published port binding must use HOST_IP:HOST_PORT[/tcp]'')
                    (rsplit_once CHR '':'' base)) (\<lambda>(host_ip, host_port_raw).
        and_then (validate_host_ip host_ip) (\<lambda>_.
        and_then (parse_port host_port_raw) (\<lambda>host_port.
          Inr (Binding host_ip host_port protocol))))))"

definition binding_display :: "published_port_binding \<Rightarrow> string" where
  "binding_display b = pb_host_ip b @ '':'' @ show_u16 (pb_host_port b) @ ''/'' @ pb_protocol b"

section \<open>Statuses and the configured list\<close>

datatype published_port_state = Configured | Active | Failed

record published_port_status =
  st_host_ip :: string
  st_host_port :: u16
  st_workspace_ip :: "string option"
  st_workspace_port :: u16
  st_protocol :: string
  st_state :: published_port_state
  st_error :: "string option"

definition status_configured :: "published_port_spec \<Rightarrow> published_port_status" where
  "status_configured s =
     \<lparr> st_host_ip = ps_host_ip s, st_host_port = ps_host_port s, st_workspace_ip = None,
       st_workspace_port = ps_workspace_port s, st_protocol = ps_protocol s,
       st_state = Configured, st_error = None \<rparr>"

definition status_active :: "published_port_spec \<Rightarrow> string \<Rightarrow> published_port_status" where
  "status_active s workspace_ip =
     \<lparr> st_host_ip = ps_host_ip s, st_host_port = ps_host_port s,
       st_workspace_ip = Some workspace_ip, st_workspace_port = ps_workspace_port s,
       st_protocol = ps_protocol s, st_state = Active, st_error = None \<rparr>"

definition status_failed :: "published_port_spec \<Rightarrow> string \<Rightarrow> published_port_status" where
  "status_failed s error =
     \<lparr> st_host_ip = ps_host_ip s, st_host_port = ps_host_port s, st_workspace_ip = None,
       st_workspace_port = ps_workspace_port s, st_protocol = ps_protocol s,
       st_state = Failed, st_error = Some error \<rparr>"

definition status_binding :: "published_port_status \<Rightarrow> published_port_binding" where
  "status_binding s = Binding (st_host_ip s) (st_host_port s) (st_protocol s)"

fun validate_bindings :: "published_port_binding set \<Rightarrow> published_port_spec list \<Rightarrow> unit result" where
  "validate_bindings bindings [] = Inr ()"
| "validate_bindings bindings (spec # specs) =
     (if spec_binding spec \<in> bindings
      then bail ''duplicate published host binding in workspace configuration''
      else validate_bindings (insert (spec_binding spec) bindings) specs)"

definition validate_published_ports :: "published_port_spec list \<Rightarrow> unit result" where
  "validate_published_ports specs = validate_bindings {} specs"

definition configured_port_statuses :: "published_port_spec list \<Rightarrow> published_port_status list" where
  "configured_port_statuses specs = map status_configured specs"

type_synonym status_table = "(published_port_binding, published_port_status) btree"

fun merge_specs :: "published_port_spec list \<Rightarrow> status_table \<Rightarrow>
    published_port_status list \<times> status_table" where
  "merge_specs [] table = ([], table)"
| "merge_specs (spec # specs) table =
     (case bt_get table (spec_binding spec) of
        Some status \<Rightarrow>
          let (merged, rest) = merge_specs specs (bt_remove (spec_binding spec) table)
          in (status # merged, rest)
      | None \<Rightarrow>
          let (merged, rest) = merge_specs specs table
          in (status_configured spec # merged, rest))"

definition merge_published_port_statuses :: "published_port_spec list \<Rightarrow>
    published_port_status list \<Rightarrow> published_port_status list" where
  "merge_published_port_statuses specs runtime_statuses =
     (let table = fold (\<lambda>(k, v). bt_insert k v)
                    (map (\<lambda>s. (status_binding s, s)) runtime_statuses) [];
          (merged, rest) = merge_specs specs table
      in merged @ map snd rest)"

text \<open>The list edits of the publish and unpublish requests.\<close>

definition desired_after_publish :: "published_port_spec list \<Rightarrow> published_port_spec \<Rightarrow>
    published_port_spec list result" where
  "desired_after_publish current spec =
     (let desired = (if spec \<in> set current then current else current @ [spec]) in
      and_then (validate_published_ports desired) (\<lambda>_. Inr desired))"

definition desired_after_unpublish :: "published_port_spec list \<Rightarrow> published_port_binding \<Rightarrow>
    published_port_spec list result" where
  "desired_after_unpublish current binding =
     (let desired = filter (\<lambda>spec. spec_binding spec \<noteq> binding) current in
      if length desired = length current then bail ''workspace has no published port bound''
      else Inr desired)"

section \<open>Round trips\<close>

definition spec_ok :: "published_port_spec \<Rightarrow> bool" where
  "spec_ok s \<longleftrightarrow> ps_host_ip s = LOOPBACK_HOST_IP \<and> ps_host_port s \<noteq> 0 \<and>
     ps_workspace_port s \<noteq> 0 \<and> ps_protocol s = TCP_PROTOCOL"

lemma unat_u16_le: "unat (w :: u16) \<le> 65535"
proof -
  have "unat w < 2 ^ LENGTH(16)" by (rule unsigned_less)
  then show ?thesis by simp
qed

lemma parse_port_show: "w \<noteq> 0 \<Longrightarrow> parse_port (show_u16 w) = Inr w"
  by (simp add: parse_port_def show_u16_def unat_u16_le Let_def)

lemma parse_port_nonzero: "parse_port raw = Inr w \<Longrightarrow> w \<noteq> 0"
  by (auto simp: parse_port_def Let_def split: option.splits if_splits)

lemma normalize_tcp: "normalize_protocol TCP_PROTOCOL = Inr TCP_PROTOCOL"
  by code_simp

lemma normalize_protocol_Inr: "normalize_protocol raw = Inr p \<Longrightarrow> p = TCP_PROTOCOL"
  by (auto simp: normalize_protocol_def Let_def split: if_splits)

lemma validate_host_ip_Inr: "validate_host_ip ip = Inr u \<longleftrightarrow> ip = LOOPBACK_HOST_IP"
  by (auto simp: validate_host_ip_def)

lemma colon_not_in_show [simp]: "CHR '':'' \<notin> set (show_u16 w)" "CHR ''/'' \<notin> set (show_u16 w)"
  by (simp_all add: show_u16_def digit_not_in_dec_string ascii_defs)

lemma split_protocol_tcp: "split_protocol (base @ ''/'' @ TCP_PROTOCOL) = (base, TCP_PROTOCOL)"
proof -
  have "rsplit_once CHR ''/'' (base @ ''/'' @ TCP_PROTOCOL) = Some (base, TCP_PROTOCOL)"
    by (simp add: rsplit_once_Some_iff TCP_PROTOCOL_def)
  then show ?thesis by (simp add: split_protocol_def)
qed

lemma trim_loopback: "trim (LOOPBACK_HOST_IP @ x @ ''/'' @ TCP_PROTOCOL) = LOOPBACK_HOST_IP @ x @ ''/'' @ TCP_PROTOCOL"
  by (rule trim_graphic) (simp_all add: LOOPBACK_HOST_IP_def TCP_PROTOCOL_def graphic_def byte_def)

lemma loopback_no_colon: "CHR '':'' \<notin> set LOOPBACK_HOST_IP"
  by (simp add: LOOPBACK_HOST_IP_def)

lemma spec_display_parse:
  assumes "spec_ok s"
  shows "spec_parse (spec_display s) = Inr s"
proof -
  let ?x = "'':'' @ show_u16 (ps_host_port s) @ '':'' @ show_u16 (ps_workspace_port s)"
  have disp: "spec_display s = LOOPBACK_HOST_IP @ ?x @ ''/'' @ TCP_PROTOCOL"
    using assms by (simp add: spec_display_def spec_ok_def)
  have "split_on CHR '':'' (LOOPBACK_HOST_IP @ ?x) =
      [LOOPBACK_HOST_IP, show_u16 (ps_host_port s), show_u16 (ps_workspace_port s)]"
    by (simp add: split_on_append_sep split_on_no_sep loopback_no_colon)
  moreover have "split_protocol (LOOPBACK_HOST_IP @ ?x @ ''/'' @ TCP_PROTOCOL) =
      (LOOPBACK_HOST_IP @ ?x, TCP_PROTOCOL)"
    using split_protocol_tcp [of "LOOPBACK_HOST_IP @ ?x"] by simp
  ultimately show ?thesis
    using assms unfolding spec_parse_def disp trim_loopback
    by (simp add: normalize_tcp validate_host_ip_def parse_port_show spec_ok_def LOOPBACK_HOST_IP_def)
qed

lemma spec_from_parts_ok:
  "spec_from_parts TCP_PROTOCOL parts = Inr s \<Longrightarrow> spec_ok s"
  by (induction TCP_PROTOCOL parts rule: spec_from_parts.induct)
     (auto simp: spec_ok_def result_simps validate_host_ip_Inr dest: parse_port_nonzero)

lemma spec_parse_ok: "spec_parse raw = Inr s \<Longrightarrow> spec_ok s"
  by (auto simp: spec_parse_def Let_def and_then_Inr_iff
      dest!: normalize_protocol_Inr intro: spec_from_parts_ok split: if_splits prod.splits)

text \<open>C9: a port spec survives printing and parsing. Whatever text a request parsed to a spec, the
  printed spec parses to the same spec, and its binding printed on its own parses to the binding of
  the spec, so the form shown by a listing can be used to unpublish the port.\<close>

theorem port_spec_roundtrip:
  assumes "spec_parse raw = Inr s"
  shows "spec_parse (spec_display s) = Inr s \<and>
     binding_parse (binding_display (spec_binding s)) = Inr (spec_binding s)"
proof -
  have ok: "spec_ok s" by (rule spec_parse_ok [OF assms])
  let ?x = "'':'' @ show_u16 (ps_host_port s)"
  have disp: "binding_display (spec_binding s) = LOOPBACK_HOST_IP @ ?x @ ''/'' @ TCP_PROTOCOL"
    using ok by (simp add: binding_display_def spec_binding_def spec_ok_def)
  have "rsplit_once CHR '':'' (LOOPBACK_HOST_IP @ ?x) =
      Some (LOOPBACK_HOST_IP, show_u16 (ps_host_port s))"
    by (simp add: rsplit_once_Some_iff)
  moreover have "split_protocol (LOOPBACK_HOST_IP @ ?x @ ''/'' @ TCP_PROTOCOL) =
      (LOOPBACK_HOST_IP @ ?x, TCP_PROTOCOL)"
    using split_protocol_tcp [of "LOOPBACK_HOST_IP @ ?x"] by simp
  ultimately have "binding_parse (binding_display (spec_binding s)) = Inr (spec_binding s)"
    using ok unfolding binding_parse_def disp trim_loopback
    by (simp add: normalize_tcp validate_host_ip_def parse_port_show spec_ok_def spec_binding_def
        LOOPBACK_HOST_IP_def)
  with spec_display_parse [OF ok] show ?thesis by simp
qed

theorem port_spec_roundtrip_witness:
  "spec_parse (spec_display \<lparr> ps_host_ip = ''127.0.0.1'', ps_host_port = 8080,
      ps_workspace_port = 80, ps_protocol = ''tcp'' \<rparr>) =
   Inr \<lparr> ps_host_ip = ''127.0.0.1'', ps_host_port = 8080, ps_workspace_port = 80,
      ps_protocol = ''tcp'' \<rparr>"
proof (rule port_spec_roundtrip [THEN conjunct1])
  have "normalize_protocol ''TCP'' = Inr ''tcp''" by code_simp
  then show "spec_parse '' 127.0.0.1:8080:80/TCP '' =
      Inr \<lparr> ps_host_ip = ''127.0.0.1'', ps_host_port = 8080, ps_workspace_port = 80,
        ps_protocol = ''tcp'' \<rparr>"
    by (simp add: spec_parse_def trim_def trim_start_def trim_end_def ws1_def ws2_def ws3_def
        byte_def split_protocol_def rsplit_once_def split_once_def
        ascii_defs TCP_PROTOCOL_def validate_host_ip_def LOOPBACK_HOST_IP_def parse_port_def
        parse_uint_def dec_value_def digit_val_def)
qed

section \<open>Duplicates and the merged report\<close>

lemma validate_bindings_ok:
  "is_ok (validate_bindings bs specs) \<longleftrightarrow>
     distinct (map spec_binding specs) \<and> set (map spec_binding specs) \<inter> bs = {}"
  by (induction specs arbitrary: bs) (auto simp: bail_def)

lemma validate_published_ports_iff:
  "is_ok (validate_published_ports specs) \<longleftrightarrow> distinct (map spec_binding specs)"
  by (simp add: validate_published_ports_def validate_bindings_ok)

lemma status_binding_configured [simp]: "status_binding (status_configured s) = spec_binding s"
  by (simp add: status_binding_def status_configured_def spec_binding_def)

text \<open>Every entry of the table sits under its own binding.\<close>

definition table_ok :: "status_table \<Rightarrow> bool" where
  "table_ok table \<longleftrightarrow> bt_wf table \<and> (\<forall>(k, s)\<in>set table. status_binding s = k)"

lemma table_ok_get: "table_ok table \<Longrightarrow> bt_get table k = Some s \<Longrightarrow> status_binding s = k"
  by (auto simp: table_ok_def dest: map_of_SomeD)

lemma table_ok_remove: "table_ok table \<Longrightarrow> table_ok (bt_remove k table)"
  using bt_wf_remove [of table k] by (auto simp: table_ok_def bt_remove_def)

lemma merge_specs_spec:
  assumes "table_ok table" "distinct (map spec_binding specs)"
    and "merge_specs specs table = (merged, rest)"
  shows "merged = map (\<lambda>s. case bt_get table (spec_binding s) of
                          Some st \<Rightarrow> st | None \<Rightarrow> status_configured s) specs \<and>
         rest = filter (\<lambda>(k, _). k \<notin> set (map spec_binding specs)) table"
  using assms
proof (induction specs arbitrary: table merged rest)
  case Nil
  then show ?case by simp
next
  case (Cons s specs)
  let ?b = "spec_binding s"
  have dist: "distinct (map spec_binding specs)" "?b \<notin> spec_binding ` set specs"
    using Cons.prems(2) by auto
  show ?case
  proof (cases "bt_get table ?b")
    case None
    then obtain m where m: "merge_specs specs table = (m, rest)" "merged = status_configured s # m"
      using Cons.prems(3) by (auto simp: Let_def split: prod.splits)
    have "k \<noteq> ?b" if "(k, v) \<in> set table" for k v
      using None that by (metis map_of_eq_None_iff fst_conv image_eqI)
    then have "filter (\<lambda>(k, _). k \<notin> set (map spec_binding specs)) table =
        filter (\<lambda>(k, _). k \<notin> set (map spec_binding (s # specs))) table"
      by (intro filter_cong) auto
    with Cons.IH [OF Cons.prems(1) dist(1) m(1)] m(2) None show ?thesis by simp
  next
    case (Some st)
    then obtain m where m: "merge_specs specs (bt_remove ?b table) = (m, rest)" "merged = st # m"
      using Cons.prems(3) by (auto simp: Let_def split: prod.splits)
    note IH = Cons.IH [OF table_ok_remove [OF Cons.prems(1)] dist(1) m(1)]
    have "m = map (\<lambda>s. case bt_get table (spec_binding s) of
                          Some st \<Rightarrow> st | None \<Rightarrow> status_configured s) specs"
      using IH dist(2) by (auto intro!: map_cong simp: image_iff split: option.splits)
    moreover have "rest = filter (\<lambda>(k, _). k \<notin> set (map spec_binding (s # specs))) table"
      using IH by (auto simp: bt_remove_def intro!: filter_cong)
    ultimately show ?thesis using m(2) Some by simp
  qed
qed

lemma table_ok_insert: "table_ok table \<Longrightarrow> table_ok (bt_insert (status_binding s) s table)"
proof -
  assume ok: "table_ok table"
  then have wf: "bt_wf (bt_insert (status_binding s) s table)" by (auto simp: table_ok_def intro: bt_intros)
  have "status_binding v = k" if "(k, v) \<in> set (bt_insert (status_binding s) s table)" for k v
    using that ok wf table_ok_get [OF ok]
    by (auto simp: bt_get_eq_Some_iff [symmetric] split: if_splits)
  with wf show ?thesis by (auto simp: table_ok_def)
qed

definition runtime_table :: "published_port_status list \<Rightarrow> status_table" where
  "runtime_table sts = fold (\<lambda>(k, v). bt_insert k v) (map (\<lambda>s. (status_binding s, s)) sts) []"

lemma table_ok_runtime: "table_ok (runtime_table sts)"
proof -
  have "table_ok t \<Longrightarrow> table_ok (fold (\<lambda>(k, v). bt_insert k v) (map (\<lambda>s. (status_binding s, s)) sts) t)" for t
    by (induction sts arbitrary: t) (auto intro: table_ok_insert)
  moreover have "table_ok []" by (simp add: table_ok_def)
  ultimately show ?thesis unfolding runtime_table_def by blast
qed

lemma runtime_table_keys: "fst ` set (runtime_table sts) = status_binding ` set sts"
proof -
  have "fst ` set (fold (\<lambda>(k, v). bt_insert k v) (map (\<lambda>s. (status_binding s, s)) sts) t) =
      fst ` set t \<union> status_binding ` set sts" for t
    by (induction sts arbitrary: t) auto
  then show ?thesis by (simp add: runtime_table_def)
qed

lemma merge_statuses_eq:
  assumes "distinct (map spec_binding specs)"
  shows "merge_published_port_statuses specs sts =
     map (\<lambda>s. case bt_get (runtime_table sts) (spec_binding s) of
                Some st \<Rightarrow> st | None \<Rightarrow> status_configured s) specs @
     map snd (filter (\<lambda>(k, _). k \<notin> set (map spec_binding specs)) (runtime_table sts))"
  using merge_specs_spec [OF table_ok_runtime assms]
  by (auto simp: merge_published_port_statuses_def runtime_table_def [symmetric] Let_def
      split: prod.split)

lemma table_bindings:
  "table_ok table \<Longrightarrow> map status_binding (map snd (filter p table)) = map fst (filter p table)"
  unfolding map_map by (rule map_cong [OF refl]) (auto simp: table_ok_def)

text \<open>the port report of a workspace with a valid configuration lists each binding once, begins
  with the configured ports in configuration order, and covers exactly the configured bindings and
  the bindings the publisher reports.\<close>

theorem merged_ports_complete:
  assumes "is_ok (validate_published_ports specs)"
  shows "distinct (map status_binding (merge_published_port_statuses specs sts)) \<and>
     map status_binding (take (length specs) (merge_published_port_statuses specs sts)) =
       map spec_binding specs \<and>
     status_binding ` set (merge_published_port_statuses specs sts) =
       spec_binding ` set specs \<union> status_binding ` set sts"
proof -
  let ?t = "runtime_table sts" and ?m = "merge_published_port_statuses specs sts"
  let ?rest = "map fst (filter (\<lambda>(k, _). k \<notin> set (map spec_binding specs)) ?t)"
  have dist: "distinct (map spec_binding specs)"
    using assms by (simp add: validate_published_ports_iff)
  note m = merge_statuses_eq [OF dist, of sts]
  have head: "map status_binding (map (\<lambda>s. case bt_get ?t (spec_binding s) of
      Some st \<Rightarrow> st | None \<Rightarrow> status_configured s) specs) = map spec_binding specs"
    using table_ok_get [OF table_ok_runtime] by (auto split: option.splits)
  have all: "map status_binding ?m = map spec_binding specs @ ?rest"
    unfolding m map_append head table_bindings [OF table_ok_runtime] ..
  have "distinct (map fst ?t)"
    using table_ok_runtime [of sts] by (simp add: table_ok_def bt_wf_distinct)
  then have "distinct (map status_binding ?m)"
    unfolding all using dist by (auto simp: distinct_map_filter)
  moreover have "map status_binding (take (length specs) ?m) = map spec_binding specs"
    unfolding take_map [symmetric] all by simp
  moreover have "status_binding ` set ?m = spec_binding ` set specs \<union> status_binding ` set sts"
  proof -
    have "status_binding ` set ?m = set (map status_binding ?m)" by simp
    also have "\<dots> = spec_binding ` set specs \<union> fst ` set ?t" unfolding all by force
    finally show ?thesis by (simp add: runtime_table_keys)
  qed
  ultimately show ?thesis by blast
qed

theorem merged_ports_complete_witness:
  "\<exists>specs. specs \<noteq> [] \<and> distinct (map status_binding (merge_published_port_statuses specs []))"
proof -
  let ?s = "[\<lparr> ps_host_ip = ''127.0.0.1'', ps_host_port = 90, ps_workspace_port = 80,
      ps_protocol = ''tcp'' \<rparr>, \<lparr> ps_host_ip = ''127.0.0.1'', ps_host_port = 91,
      ps_workspace_port = 80, ps_protocol = ''tcp'' \<rparr>]"
  have "is_ok (validate_published_ports ?s)"
    by (simp add: validate_published_ports_iff spec_binding_def)
  then have "distinct (map status_binding (merge_published_port_statuses ?s []))"
    by (rule merged_ports_complete [THEN conjunct1])
  then show ?thesis by blast
qed

section \<open>Publishing and unpublishing\<close>

lemma desired_after_publish_Inr:
  "desired_after_publish current spec = Inr desired \<Longrightarrow>
     distinct (map spec_binding desired) \<and> set desired = insert spec (set current)"
  by (auto simp: desired_after_publish_def Let_def result_simps
      validate_published_ports_iff [symmetric] is_ok_iff split: if_splits)

lemma unpublish_publish:
  assumes "desired_after_publish current spec = Inr desired" "spec \<notin> set current"
  shows "desired_after_unpublish desired (spec_binding spec) = Inr current"
proof -
  have d: "desired = current @ [spec]" and dist: "distinct (map spec_binding desired)"
    using assms desired_after_publish_Inr [OF assms(1)]
    by (auto simp: desired_after_publish_def Let_def result_simps)
  then have "filter (\<lambda>s. spec_binding s \<noteq> spec_binding spec) desired = current"
    by (auto simp: filter_id_conv image_iff)
  then show ?thesis using d by (simp add: desired_after_unpublish_def)
qed

end
