(* ===== verification/Resource_Limits.thy ===== *)
theory Resource_Limits
  imports Errors Complex_Main
begin

text \<open>
  Resource limits (\<open>src/resource_limits.rs\<close>, \<open>src/workspace/types/limits.rs\<close>,
  \<open>SandboxLimits\<close> of \<open>src/sandbox/types.rs\<close>): validation, the partial updates of a resize, and the
  disk budget of a sandbox. An \<open>f64\<close> is only compared here, so it is its rational value or one of
  the non-finite values. Shows that an accepted update changes exactly the fields it names and
  always yields valid limits, and that the saturating budget check is exact.
\<close>

section \<open>Values\<close>

datatype f64 = Fin rat | PInf | NInf | NaN

fun f64_is_finite :: "f64 \<Rightarrow> bool" where
  "f64_is_finite (Fin _) = True"
| "f64_is_finite _ = False"

fun f64_le :: "f64 \<Rightarrow> f64 \<Rightarrow> bool" where
  "f64_le NaN _ = False"
| "f64_le _ NaN = False"
| "f64_le NInf _ = True"
| "f64_le _ PInf = True"
| "f64_le (Fin a) (Fin b) = (a \<le> b)"
| "f64_le _ _ = False"

fun f64_gt :: "f64 \<Rightarrow> f64 \<Rightarrow> bool" where
  "f64_gt NaN _ = False"
| "f64_gt _ NaN = False"
| "f64_gt (Fin a) (Fin b) = (a > b)"
| "f64_gt PInf b = (b \<noteq> PInf)"
| "f64_gt a NInf = (a \<noteq> NInf)"
| "f64_gt _ _ = False"

fun f64_eq :: "f64 \<Rightarrow> f64 \<Rightarrow> bool" where
  "f64_eq NaN _ = False"
| "f64_eq _ NaN = False"
| "f64_eq a b = (a = b)"

fun f64_opt_eq :: "f64 option \<Rightarrow> f64 option \<Rightarrow> bool" where
  "f64_opt_eq None None = True"
| "f64_opt_eq (Some a) (Some b) = f64_eq a b"
| "f64_opt_eq _ _ = False"

definition MIN_MEMORY_BYTES :: u64 where
  "MIN_MEMORY_BYTES = 16 * 1024 * 1024"

definition validate_memory_bytes :: "u64 option \<Rightarrow> unit result" where
  "validate_memory_bytes value =
     (case value of
        None \<Rightarrow> Inr ()
      | Some bytes \<Rightarrow>
          if bytes < MIN_MEMORY_BYTES then bail ''memory limit must be at least 16 MiB'' else Inr ())"

definition validate_cpu_percent :: "f64 \<Rightarrow> unit result" where
  "validate_cpu_percent value =
     (if \<not> f64_is_finite value then bail ''cpu_percent must be a finite number''
      else if f64_le value (Fin 0) then bail ''cpu_percent must be greater than 0''
      else if f64_gt value (Fin 100) then bail ''cpu_percent must be less than or equal to 100''
      else Inr ())"

definition validate_cpu_opt :: "f64 option \<Rightarrow> unit result" where
  "validate_cpu_opt value = (case value of None \<Rightarrow> Inr () | Some v \<Rightarrow> validate_cpu_percent v)"

section \<open>Workspace limits\<close>

record workspace_limits =
  wl_cpu_seconds :: "u64 option"
  wl_cpu_percent :: "f64 option"
  wl_memory_bytes :: "u64 option"
  wl_max_processes :: "u64 option"
  wl_max_open_files :: "u64 option"
  wl_disk_bytes :: "u64 option"

record workspace_limits_update =
  wu_clear_tmp_on_restart :: "bool option"
  wu_keep_running :: "bool option"
  wu_idle_stop_after_secs :: "u64 option option"
  wu_destroy_after_secs :: "u64 option option"
  wu_cpu_seconds :: "u64 option option"
  wu_cpu_percent :: "f64 option option"
  wu_memory_bytes :: "u64 option option"
  wu_max_processes :: "u64 option option"
  wu_max_open_files :: "u64 option option"
  wu_disk_bytes :: "u64 option option"

definition or_else :: "'a option \<Rightarrow> 'a option \<Rightarrow> 'a option" where
  "or_else a b = (case a of None \<Rightarrow> b | Some _ \<Rightarrow> a)"

definition wl_apply_defaults :: "f64 option \<Rightarrow> u64 option \<Rightarrow> workspace_limits \<Rightarrow> workspace_limits" where
  "wl_apply_defaults cpu_percent max_processes l =
     l \<lparr> wl_cpu_percent := or_else (wl_cpu_percent l) cpu_percent,
        wl_max_processes := or_else (wl_max_processes l) max_processes \<rparr>"

definition wl_validate :: "workspace_limits \<Rightarrow> unit result" where
  "wl_validate l =
     and_then (validate_cpu_opt (wl_cpu_percent l)) (\<lambda>_.
       if wl_max_processes l = Some 0 then bail ''max_processes must be greater than 0''
       else validate_memory_bytes (wl_memory_bytes l))"

definition wl_cpu_percent_requires_cgroup :: "workspace_limits \<Rightarrow> bool" where
  "wl_cpu_percent_requires_cgroup l = (wl_cpu_percent l \<noteq> None)"

text \<open>One field of an update: absent leaves the field, present replaces it and records a change.\<close>

definition update_field :: "('a \<Rightarrow> 'a \<Rightarrow> bool) \<Rightarrow> 'a option \<Rightarrow> 'a \<times> bool \<Rightarrow> 'a \<times> bool" where
  "update_field same u f =
     (case u of None \<Rightarrow> f | Some new \<Rightarrow> (new, snd f \<or> \<not> same (fst f) new))"

definition wl_apply_update :: "workspace_limits_update \<Rightarrow> workspace_limits \<Rightarrow>
    (workspace_limits \<times> bool) result" where
  "wl_apply_update u l =
     (let (cpu_seconds, c1) = update_field (=) (wu_cpu_seconds u) (wl_cpu_seconds l, False) in
      and_then (case wu_cpu_percent u of None \<Rightarrow> Inr () | Some v \<Rightarrow> validate_cpu_opt v) (\<lambda>_.
      let (cpu_percent, c2) = update_field f64_opt_eq (wu_cpu_percent u) (wl_cpu_percent l, c1);
          (memory_bytes, c3) = update_field (=) (wu_memory_bytes u) (wl_memory_bytes l, c2);
          (max_processes, c4) = update_field (=) (wu_max_processes u) (wl_max_processes l, c3);
          (max_open_files, c5) = update_field (=) (wu_max_open_files u) (wl_max_open_files l, c4);
          (disk_bytes, c6) = update_field (=) (wu_disk_bytes u) (wl_disk_bytes l, c5);
          l' = l \<lparr> wl_cpu_seconds := cpu_seconds, wl_cpu_percent := cpu_percent,
                   wl_memory_bytes := memory_bytes, wl_max_processes := max_processes,
                   wl_max_open_files := max_open_files, wl_disk_bytes := disk_bytes \<rparr>
      in and_then (wl_validate l') (\<lambda>_. Inr (l', c6))))"

definition wu_is_empty :: "workspace_limits_update \<Rightarrow> bool" where
  "wu_is_empty u \<longleftrightarrow>
     wu_clear_tmp_on_restart u = None \<and> wu_keep_running u = None \<and>
     wu_idle_stop_after_secs u = None \<and> wu_destroy_after_secs u = None \<and>
     wu_cpu_seconds u = None \<and> wu_cpu_percent u = None \<and> wu_memory_bytes u = None \<and>
     wu_max_processes u = None \<and> wu_max_open_files u = None \<and> wu_disk_bytes u = None"

section \<open>Sandbox limits\<close>

record sandbox_limits =
  sl_cpu_percent :: "f64 option"
  sl_memory_bytes :: "u64 option"
  sl_max_processes :: "u64 option"
  sl_disk_bytes :: "u64 option"
  sl_max_running_workspaces :: "nat option"

record sandbox_limits_update =
  su_cpu_percent :: "f64 option option"
  su_memory_bytes :: "u64 option option"
  su_max_processes :: "u64 option option"
  su_disk_bytes :: "u64 option option"
  su_max_running_workspaces :: "nat option option"

definition sl_validate :: "sandbox_limits \<Rightarrow> unit result" where
  "sl_validate l =
     and_then (validate_cpu_opt (sl_cpu_percent l)) (\<lambda>_.
     and_then (validate_memory_bytes (sl_memory_bytes l)) (\<lambda>_.
       if sl_max_running_workspaces l = Some 0
       then bail ''max_running_workspaces must be greater than 0'' else Inr ()))"

definition sl_has_limits :: "sandbox_limits \<Rightarrow> bool" where
  "sl_has_limits l =
     (sl_cpu_percent l \<noteq> None \<or> sl_memory_bytes l \<noteq> None \<or> sl_max_processes l \<noteq> None)"

definition check_disk_budget :: "sandbox_limits \<Rightarrow> u64 \<Rightarrow> u64 \<Rightarrow> unit result" where
  "check_disk_budget l already_allocated requested_bytes =
     (case sl_disk_bytes l of
        None \<Rightarrow> Inr ()
      | Some budget \<Rightarrow>
          if saturating_add already_allocated requested_bytes > budget
          then bail ''the sandbox disk budget would be exceeded'' else Inr ())"

definition check_disk_budget_covers :: "sandbox_limits \<Rightarrow> u64 \<Rightarrow> unit result" where
  "check_disk_budget_covers l allocated_bytes =
     (case sl_disk_bytes l of
        None \<Rightarrow> Inr ()
      | Some budget \<Rightarrow>
          if allocated_bytes > budget
          then bail ''the workspaces already allocate more than the requested budget'' else Inr ())"

definition sl_apply_update :: "sandbox_limits_update \<Rightarrow> sandbox_limits \<Rightarrow>
    (sandbox_limits \<times> bool) result" where
  "sl_apply_update u l =
     and_then (case su_cpu_percent u of None \<Rightarrow> Inr () | Some v \<Rightarrow> validate_cpu_opt v) (\<lambda>_.
      let (cpu_percent, c1) = update_field f64_opt_eq (su_cpu_percent u) (sl_cpu_percent l, False);
          (memory_bytes, c2) = update_field (=) (su_memory_bytes u) (sl_memory_bytes l, c1);
          (max_processes, c3) = update_field (=) (su_max_processes u) (sl_max_processes l, c2);
          (disk_bytes, c4) = update_field (=) (su_disk_bytes u) (sl_disk_bytes l, c3)
      in if su_max_running_workspaces u = Some (Some 0)
         then bail ''max_running_workspaces must be greater than 0''
         else let (max_running, c5) = update_field (=) (su_max_running_workspaces u)
                                        (sl_max_running_workspaces l, c4);
                  l' = l \<lparr> sl_cpu_percent := cpu_percent, sl_memory_bytes := memory_bytes,
                           sl_max_processes := max_processes, sl_disk_bytes := disk_bytes,
                           sl_max_running_workspaces := max_running \<rparr>
              in and_then (sl_validate l') (\<lambda>_. Inr (l', c5)))"

definition su_is_empty :: "sandbox_limits_update \<Rightarrow> bool" where
  "su_is_empty u \<longleftrightarrow>
     su_cpu_percent u = None \<and> su_memory_bytes u = None \<and> su_max_processes u = None \<and>
     su_disk_bytes u = None \<and> su_max_running_workspaces u = None"

section \<open>Budget checks are exact\<close>

text \<open>The check adds with saturation, which cannot turn a refusal into an acceptance as long as the
  budget itself is below the largest representable value.\<close>

lemma check_disk_budget_iff:
  assumes "sl_disk_bytes l = Some budget" "budget \<noteq> - 1"
  shows "is_ok (check_disk_budget l a r) \<longleftrightarrow> unat a + unat r \<le> unat budget"
proof -
  have "unat budget < 2 ^ LENGTH(64)" by (rule unsigned_less)
  moreover have "unat budget \<noteq> 2 ^ LENGTH(64) - 1"
    using assms(2) by (metis unat_minus_one_word_pow word_unat_eq_iff)
  ultimately have "unat budget < 2 ^ LENGTH(64) - 1" by linarith
  then show ?thesis
    by (auto simp: check_disk_budget_def assms(1) bail_def word_less_nat_alt unat_saturating_add)
qed

text \<open>the disk budget check is exact. For every budget below the largest 64-bit value an
  allocation is granted if and only if the true sum of what the other workspaces hold and what is
  requested stays within the budget; the saturating addition never hides an overflow.\<close>

theorem disk_budget_exact:
  assumes "sl_disk_bytes l = Some budget" "budget \<noteq> - 1"
  shows "is_ok (check_disk_budget l a r) \<longleftrightarrow> unat a + unat r \<le> unat budget"
  by (rule check_disk_budget_iff [OF assms])

definition limits_of_budget :: "u64 \<Rightarrow> sandbox_limits" where
  "limits_of_budget b = \<lparr> sl_cpu_percent = None, sl_memory_bytes = None, sl_max_processes = None,
     sl_disk_bytes = Some b, sl_max_running_workspaces = None \<rparr>"

theorem disk_budget_exact_witness:
  "\<not> is_ok (check_disk_budget (limits_of_budget 1000) (- 1) 2)"
proof -
  have "sl_disk_bytes (limits_of_budget 1000) = Some 1000" by (simp add: limits_of_budget_def)
  moreover have "(1000 :: u64) \<noteq> - 1" by simp
  moreover have "\<not> unat (- 1 :: u64) + unat (2 :: u64) \<le> unat (1000 :: u64)"
    by (simp add: unat_minus_one_word_pow)
  ultimately show ?thesis using disk_budget_exact by blast
qed

section \<open>Updates\<close>

definition overlay :: "'a option \<Rightarrow> 'a \<Rightarrow> 'a" where
  "overlay u x = (case u of None \<Rightarrow> x | Some v \<Rightarrow> v)"

lemma update_field_eq:
  "update_field same u (x, c) = (overlay u x, c \<or> (u \<noteq> None \<and> \<not> same x (overlay u x)))"
  by (cases u) (simp_all add: update_field_def overlay_def)

lemma overlay_changed [simp]: "(u \<noteq> None \<and> x \<noteq> overlay u x) \<longleftrightarrow> x \<noteq> overlay u x"
  by (cases u) (simp_all add: overlay_def)

lemma f64_eq_iff: "f64_eq a b \<longleftrightarrow> a = b \<and> a \<noteq> NaN"
  by (cases a; cases b) auto

lemma f64_opt_eq_iff: "f64_opt_eq a b \<longleftrightarrow> a = b \<and> a \<noteq> Some NaN"
  by (cases a; cases b) (auto simp: f64_eq_iff)

definition wl_updated :: "workspace_limits_update \<Rightarrow> workspace_limits \<Rightarrow> workspace_limits" where
  "wl_updated u l =
     l \<lparr> wl_cpu_seconds := overlay (wu_cpu_seconds u) (wl_cpu_seconds l),
        wl_cpu_percent := overlay (wu_cpu_percent u) (wl_cpu_percent l),
        wl_memory_bytes := overlay (wu_memory_bytes u) (wl_memory_bytes l),
        wl_max_processes := overlay (wu_max_processes u) (wl_max_processes l),
        wl_max_open_files := overlay (wu_max_open_files u) (wl_max_open_files l),
        wl_disk_bytes := overlay (wu_disk_bytes u) (wl_disk_bytes l) \<rparr>"

lemma validate_cpu_opt_NaN: "\<not> is_ok (validate_cpu_opt (Some NaN))"
  by (simp add: validate_cpu_opt_def validate_cpu_percent_def bail_def)

text \<open>resizing a workspace replaces exactly the limits the request names. An accepted update yields
  the old limits overlaid with the named fields, the result is valid, the reported change flag is
  set exactly when some limit differs, and every update whose result would be valid is accepted.\<close>

theorem workspace_limits_update_correct:
  assumes "is_ok (wl_validate l)"
  shows "case wl_apply_update u l of
      Inr (l', changed) \<Rightarrow> l' = wl_updated u l \<and> is_ok (wl_validate l') \<and> (changed \<longleftrightarrow> l' \<noteq> l)
    | Inl e \<Rightarrow> \<not> is_ok (wl_validate (wl_updated u l))"
proof -
  have nan: "wl_cpu_percent l \<noteq> Some NaN"
    using assms validate_cpu_opt_NaN by (auto simp: wl_validate_def is_ok_iff result_simps)
  have cpu: "is_ok (wl_validate (wl_updated u l)) \<Longrightarrow>
      is_ok (case wu_cpu_percent u of None \<Rightarrow> Inr () | Some v \<Rightarrow> validate_cpu_opt v)"
    by (auto simp: wl_validate_def wl_updated_def overlay_def is_ok_iff result_simps
        split: option.splits)
  let ?c = "case wu_cpu_percent u of None \<Rightarrow> Inr () | Some v \<Rightarrow> validate_cpu_opt v"
  have cpu_flag: "(wu_cpu_percent u \<noteq> None \<and>
      \<not> f64_opt_eq (wl_cpu_percent l) (overlay (wu_cpu_percent u) (wl_cpu_percent l))) \<longleftrightarrow>
      wl_cpu_percent l \<noteq> overlay (wu_cpu_percent u) (wl_cpu_percent l)"
    using nan by (cases "wu_cpu_percent u") (auto simp: f64_opt_eq_iff overlay_def)
  have flag: "((((wl_cpu_seconds l \<noteq> overlay (wu_cpu_seconds u) (wl_cpu_seconds l) \<or>
      wl_cpu_percent l \<noteq> overlay (wu_cpu_percent u) (wl_cpu_percent l)) \<or>
      wl_memory_bytes l \<noteq> overlay (wu_memory_bytes u) (wl_memory_bytes l)) \<or>
      wl_max_processes l \<noteq> overlay (wu_max_processes u) (wl_max_processes l)) \<or>
      wl_max_open_files l \<noteq> overlay (wu_max_open_files u) (wl_max_open_files l)) \<or>
      wl_disk_bytes l \<noteq> overlay (wu_disk_bytes u) (wl_disk_bytes l) \<longleftrightarrow> wl_updated u l \<noteq> l"
    by (cases l) (auto simp: wl_updated_def)
  have eq: "wl_apply_update u l =
      and_then ?c (\<lambda>_. and_then (wl_validate (wl_updated u l)) (\<lambda>_.
        Inr (wl_updated u l, wl_updated u l \<noteq> l)))"
    unfolding wl_apply_update_def update_field_eq Let_def prod.case overlay_changed cpu_flag
      simp_thms flag wl_updated_def [symmetric] by (rule TrueI)
  show ?thesis
    using cpu unfolding eq by (cases ?c; cases "wl_validate (wl_updated u l)") auto
qed

definition no_update :: workspace_limits_update where
  "no_update = \<lparr> wu_clear_tmp_on_restart = None, wu_keep_running = None,
     wu_idle_stop_after_secs = None, wu_destroy_after_secs = None, wu_cpu_seconds = None,
     wu_cpu_percent = None, wu_memory_bytes = None, wu_max_processes = None,
     wu_max_open_files = None, wu_disk_bytes = None \<rparr>"

definition no_limits :: workspace_limits where
  "no_limits = \<lparr> wl_cpu_seconds = None, wl_cpu_percent = None, wl_memory_bytes = None,
     wl_max_processes = None, wl_max_open_files = None, wl_disk_bytes = None \<rparr>"

theorem workspace_limits_update_correct_witness:
  "is_ok (wl_validate (wl_updated (no_update \<lparr> wu_max_processes := Some (Some 64) \<rparr>) no_limits)) \<and>
     wl_updated (no_update \<lparr> wu_max_processes := Some (Some 64) \<rparr>) no_limits \<noteq> no_limits"
proof -
  let ?u = "no_update \<lparr> wu_max_processes := Some (Some 64) \<rparr>"
  have "is_ok (wl_validate no_limits)"
    by (simp add: wl_validate_def no_limits_def validate_cpu_opt_def validate_memory_bytes_def)
  moreover have r: "wl_apply_update ?u no_limits = Inr (wl_updated ?u no_limits, True)"
    by (simp add: wl_apply_update_def update_field_def wl_updated_def no_update_def no_limits_def
        overlay_def wl_validate_def validate_cpu_opt_def validate_memory_bytes_def)
  ultimately show ?thesis
    using workspace_limits_update_correct [of no_limits ?u] unfolding r by simp
qed

end
