(* ===== verification/Metadata.thy ===== *)
theory Metadata
  imports Resource_Limits Port_Spec Ordered_Map
begin

text \<open>
  The durable records (\<open>src/workspace/types/metadata.rs\<close>, \<open>status.rs\<close>, \<open>src/sandbox/types.rs\<close>,
  \<open>src/registry/mod.rs\<close>): the lifecycle statuses, the metadata of workspaces and sandboxes, and the
  registry that maps ids to them. The well-formedness predicate states that every record sits under
  its own id.
\<close>

section \<open>Statuses\<close>

datatype workspace_status = WsStarting | WsRunning | WsStopping | WsStopped

fun ws_is_transitional :: "workspace_status \<Rightarrow> bool" where
  "ws_is_transitional WsStarting = True"
| "ws_is_transitional WsStopping = True"
| "ws_is_transitional _ = False"

fun ws_may_have_runtime :: "workspace_status \<Rightarrow> bool" where
  "ws_may_have_runtime WsStopped = False"
| "ws_may_have_runtime _ = True"

fun ws_is_running :: "workspace_status \<Rightarrow> bool" where
  "ws_is_running WsRunning = True"
| "ws_is_running _ = False"

fun ws_status_as_str :: "workspace_status \<Rightarrow> string" where
  "ws_status_as_str WsStarting = ''starting''"
| "ws_status_as_str WsRunning = ''running''"
| "ws_status_as_str WsStopping = ''stopping''"
| "ws_status_as_str WsStopped = ''stopped''"

datatype sandbox_status = SbStarting | SbRunning | SbPaused | SbStopping | SbStopped

fun sb_status_as_str :: "sandbox_status \<Rightarrow> string" where
  "sb_status_as_str SbStarting = ''starting''"
| "sb_status_as_str SbRunning = ''running''"
| "sb_status_as_str SbPaused = ''paused''"
| "sb_status_as_str SbStopping = ''stopping''"
| "sb_status_as_str SbStopped = ''stopped''"

fun sb_is_transitional :: "sandbox_status \<Rightarrow> bool" where
  "sb_is_transitional SbStarting = True"
| "sb_is_transitional SbStopping = True"
| "sb_is_transitional _ = False"

fun sb_rootfs_is_mounted :: "sandbox_status \<Rightarrow> bool" where
  "sb_rootfs_is_mounted SbStopped = False"
| "sb_rootfs_is_mounted _ = True"

fun sb_is_active :: "sandbox_status \<Rightarrow> bool" where
  "sb_is_active SbRunning = True"
| "sb_is_active SbPaused = True"
| "sb_is_active _ = False"

lemma ws_transitional_may_have_runtime: "ws_is_transitional s \<Longrightarrow> ws_may_have_runtime s"
  by (cases s) simp_all

section \<open>Records\<close>

record namespace_refs =
  nr_mount :: string
  nr_pid :: string

definition namespace_refs_default :: namespace_refs where
  "namespace_refs_default = \<lparr> nr_mount = ''unassigned'', nr_pid = ''unassigned'' \<rparr>"

record workspace_metadata =
  wm_id :: string
  wm_sandbox_id :: string
  wm_name :: string
  wm_created_at :: string
  wm_last_request_at :: "string option"
  wm_last_process_activity_at :: "string option"
  wm_last_stopped_at :: "string option"
  wm_workspace_path :: string
  wm_filesystem_path :: string
  wm_filesystem_mount_target :: string
  wm_home_mount_source_path :: "string option"
  wm_sandbox_rootfs_path :: string
  wm_overlay_home_base_path :: string
  wm_overlay_home_upper_path :: string
  wm_overlay_home_work_path :: string
  wm_overlay_home_merged_path :: string
  wm_auth_providers :: "string list"
  wm_owner :: "string option"
  wm_env_tokens :: "string list"
  wm_published_ports :: "published_port_spec list"
  wm_status :: workspace_status
  wm_runtime_pid :: "u32 option"
  wm_runtime_starttime_ticks :: "u64 option"
  wm_namespace_refs :: namespace_refs
  wm_clear_tmp_on_restart :: bool
  wm_keep_running :: bool
  wm_idle_stop_after_secs :: "u64 option"
  wm_destroy_after_secs :: "u64 option"
  wm_limits :: workspace_limits
  wm_assigned_ip :: "string option"

datatype bootstrap_method = Debootstrap | CachedRootfs

fun bootstrap_method_display :: "bootstrap_method \<Rightarrow> string" where
  "bootstrap_method_display Debootstrap = ''debootstrap''"
| "bootstrap_method_display CachedRootfs = ''cached_rootfs''"

definition bootstrap_method_from_str :: "string \<Rightarrow> bootstrap_method result" where
  "bootstrap_method_from_str s =
     (if s = ''debootstrap'' then Inr Debootstrap
      else if s = ''cached_rootfs'' then Inr CachedRootfs
      else bail ''unknown bootstrap method'')"

lemma bootstrap_method_roundtrip:
  "bootstrap_method_from_str (bootstrap_method_display m) = Inr m"
  by (cases m) (simp_all add: bootstrap_method_from_str_def)

record sandbox_metadata =
  sm_id :: string
  sm_name :: string
  sm_suite :: string
  sm_mirror :: string
  sm_bootstrap_method :: bootstrap_method
  sm_created_at :: string
  sm_sandbox_path :: string
  sm_rootfs_path :: string
  sm_rootfs_lower_path :: "string option"
  sm_mounted_rootfs_path :: string
  sm_workspaces_path :: string
  sm_home_base_path :: string
  sm_limits :: sandbox_limits
  sm_status :: sandbox_status

record registry_sandbox =
  rs_metadata :: sandbox_metadata
  rs_workspaces :: "(string, workspace_metadata) btree"

record registry =
  reg_version :: u32
  reg_generation :: u64
  reg_sandboxes :: "(string, registry_sandbox) btree"

definition REGISTRY_VERSION :: u32 where
  "REGISTRY_VERSION = 1"

definition registry_default :: registry where
  "registry_default = \<lparr> reg_version = REGISTRY_VERSION, reg_generation = 0, reg_sandboxes = [] \<rparr>"

section \<open>Access\<close>

definition get_sandbox :: "registry \<Rightarrow> string \<Rightarrow> registry_sandbox option" where
  "get_sandbox r sid = bt_get (reg_sandboxes r) sid"

definition get_workspace :: "registry \<Rightarrow> string \<Rightarrow> string \<Rightarrow> workspace_metadata option" where
  "get_workspace r sid wid =
     (case get_sandbox r sid of None \<Rightarrow> None | Some s \<Rightarrow> bt_get (rs_workspaces s) wid)"

definition update_sandbox :: "string \<Rightarrow> (registry_sandbox \<Rightarrow> registry_sandbox) \<Rightarrow> registry \<Rightarrow> registry" where
  "update_sandbox sid f r = r \<lparr> reg_sandboxes := bt_adjust sid f (reg_sandboxes r) \<rparr>"

definition update_workspace :: "string \<Rightarrow> string \<Rightarrow> (workspace_metadata \<Rightarrow> workspace_metadata) \<Rightarrow>
    registry \<Rightarrow> registry" where
  "update_workspace sid wid f r =
     update_sandbox sid (\<lambda>s. s \<lparr> rs_workspaces := bt_adjust wid f (rs_workspaces s) \<rparr>) r"

definition insert_workspace :: "string \<Rightarrow> workspace_metadata \<Rightarrow> registry \<Rightarrow> registry" where
  "insert_workspace sid w r =
     update_sandbox sid (\<lambda>s. s \<lparr> rs_workspaces := bt_insert (wm_id w) w (rs_workspaces s) \<rparr>) r"

definition remove_workspace :: "string \<Rightarrow> string \<Rightarrow> registry \<Rightarrow> registry" where
  "remove_workspace sid wid r =
     update_sandbox sid (\<lambda>s. s \<lparr> rs_workspaces := bt_remove wid (rs_workspaces s) \<rparr>) r"

text \<open>Every record of the registry is stored under its own id.\<close>

definition sandbox_ok :: "string \<Rightarrow> registry_sandbox \<Rightarrow> bool" where
  "sandbox_ok sid s \<longleftrightarrow> sm_id (rs_metadata s) = sid \<and> bt_wf (rs_workspaces s) \<and>
     (\<forall>wid w. (wid, w) \<in> set (rs_workspaces s) \<longrightarrow> wm_id w = wid \<and> wm_sandbox_id w = sid)"

definition registry_ok :: "registry \<Rightarrow> bool" where
  "registry_ok r \<longleftrightarrow> bt_wf (reg_sandboxes r) \<and> 
     (\<forall>sid s. (sid, s) \<in> set (reg_sandboxes r) \<longrightarrow> sandbox_ok sid s)"

lemma get_sandbox_update [simp]:
  "get_sandbox (update_sandbox sid f r) sid' =
     (if sid' = sid then map_option f (get_sandbox r sid) else get_sandbox r sid')"
  by (simp add: get_sandbox_def update_sandbox_def)

lemma get_workspace_update [simp]:
  "get_workspace (update_workspace sid wid f r) sid' wid' =
     (if sid' = sid \<and> wid' = wid then map_option f (get_workspace r sid wid)
      else get_workspace r sid' wid')"
  by (auto simp: get_workspace_def update_workspace_def split: option.splits)

lemma get_workspace_remove [simp]:
  "get_workspace (remove_workspace sid wid r) sid' wid' =
     (if sid' = sid \<and> wid' = wid then None else get_workspace r sid' wid')"
  by (auto simp: get_workspace_def remove_workspace_def split: option.splits)

lemma set_bt_adjust: "set (bt_adjust k f m) = (\<lambda>(k', v). (k', if k' = k then f v else v)) ` set m"
  by (simp add: bt_adjust_def)

lemma registry_ok_update_sandbox:
  "registry_ok r \<Longrightarrow> (\<And>s. sandbox_ok sid s \<Longrightarrow> sandbox_ok sid (f s)) \<Longrightarrow>
     registry_ok (update_sandbox sid f r)"
  by (auto simp: registry_ok_def update_sandbox_def set_bt_adjust intro: bt_intros)

lemma registry_ok_update_workspace:
  assumes "registry_ok r"
    and "\<And>w. wm_id (f w) = wm_id w \<and> wm_sandbox_id (f w) = wm_sandbox_id w"
  shows "registry_ok (update_workspace sid wid f r)"
  unfolding update_workspace_def
  by (rule registry_ok_update_sandbox [OF assms(1)])
     (auto simp: sandbox_ok_def set_bt_adjust assms(2) intro: bt_intros)

lemma registry_ok_remove_workspace:
  "registry_ok r \<Longrightarrow> registry_ok (remove_workspace sid wid r)"
  unfolding remove_workspace_def
  by (rule registry_ok_update_sandbox, assumption)
     (auto simp: sandbox_ok_def bt_remove_def intro: bt_wf_filter)

lemma registry_ok_get: "registry_ok r \<Longrightarrow> get_sandbox r sid = Some s \<Longrightarrow> sandbox_ok sid s"
  by (auto simp: registry_ok_def get_sandbox_def dest: map_of_SomeD)

lemma registry_ok_get_workspace:
  assumes "registry_ok r" "get_workspace r sid wid = Some w"
  shows "wm_id w = wid \<and> wm_sandbox_id w = sid"
proof -
  obtain s where "get_sandbox r sid = Some s" "bt_get (rs_workspaces s) wid = Some w"
    using assms(2) by (auto simp: get_workspace_def split: option.splits)
  with registry_ok_get [OF assms(1)] show ?thesis
    by (force simp: sandbox_ok_def dest: map_of_SomeD)
qed

section \<open>A record for examples\<close>

definition blank_limits :: workspace_limits where
  "blank_limits = \<lparr> wl_cpu_seconds = None, wl_cpu_percent = None, wl_memory_bytes = None,
     wl_max_processes = None, wl_max_open_files = None, wl_disk_bytes = None \<rparr>"

definition blank_workspace :: "string \<Rightarrow> string \<Rightarrow> workspace_metadata" where
  "blank_workspace sid wid =
     \<lparr> wm_id = wid, wm_sandbox_id = sid, wm_name = wid, wm_created_at = ''t'',
       wm_last_request_at = None, wm_last_process_activity_at = None, wm_last_stopped_at = None,
       wm_workspace_path = ''/w'', wm_filesystem_path = ''/w/fs'',
       wm_filesystem_mount_target = ''/w/m'', wm_home_mount_source_path = None,
       wm_sandbox_rootfs_path = ''/r'', wm_overlay_home_base_path = ''/b'',
       wm_overlay_home_upper_path = ''/u'', wm_overlay_home_work_path = ''/k'',
       wm_overlay_home_merged_path = ''/g'', wm_auth_providers = [], wm_owner = None,
       wm_env_tokens = [], wm_published_ports = [], wm_status = WsStopped, wm_runtime_pid = None,
       wm_runtime_starttime_ticks = None, wm_namespace_refs = namespace_refs_default,
       wm_clear_tmp_on_restart = False, wm_keep_running = False, wm_idle_stop_after_secs = None,
       wm_destroy_after_secs = None, wm_limits = blank_limits, wm_assigned_ip = None \<rparr>"

definition blank_sandbox :: "string \<Rightarrow> sandbox_metadata" where
  "blank_sandbox sid =
     \<lparr> sm_id = sid, sm_name = sid, sm_suite = ''stable'', sm_mirror = ''m'',
       sm_bootstrap_method = Debootstrap, sm_created_at = ''t'', sm_sandbox_path = ''/s'',
       sm_rootfs_path = ''/s/r'', sm_rootfs_lower_path = None, sm_mounted_rootfs_path = ''/s/m'',
       sm_workspaces_path = ''/s/w'', sm_home_base_path = ''/s/h'',
       sm_limits = \<lparr> sl_cpu_percent = None, sl_memory_bytes = None, sl_max_processes = None,
         sl_disk_bytes = None, sl_max_running_workspaces = None \<rparr>,
       sm_status = SbRunning \<rparr>"

end
