(* ===== verification/Fsutil.thy ===== *)
theory Fsutil
  imports Errors
begin

text \<open>
  Filesystem helpers (\<open>src/fsutil/mod.rs\<close>, \<open>src/fsutil/paths.rs\<close>): the file lock with its bounded
  retry loop, the atomic replacement of a file, and slugs. The host is a table from paths to the
  content and the fingerprint \<open>stat\<close> reports; which system calls fail is an input. A write yields
  the sequence of tables other processes can observe, so that a crash between two system calls is
  one of them. Shows that an atomic write never exposes anything but the old or the new content,
  that the lock loop makes a bounded number of attempts, and the shape of slugs.
\<close>

section \<open>Files\<close>

record file_fingerprint =
  fp_device :: u64
  fp_inode :: u64
  fp_size :: u64
  fp_modified_seconds :: int
  fp_modified_nanos :: int

type_synonym file_table = "string \<rightharpoonup> string \<times> file_fingerprint"

definition join_path :: "string \<Rightarrow> string \<Rightarrow> string" where
  "join_path dir name =
     (if dir = [] \<or> last dir = CHR ''/'' then dir @ name else dir @ ''/'' @ name)"

datatype durability = Required | BestEffort

text \<open>The outcome of each system call of one write. \<open>wi_partial\<close> is how much of the content a failing
  write left in the temporary file.\<close>

record write_io =
  wi_parent_ok :: bool
  wi_create_ok :: bool
  wi_write_ok :: bool
  wi_partial :: nat
  wi_sync_ok :: bool
  wi_chmod_ok :: bool
  wi_rename_ok :: bool
  wi_cleanup_ok :: bool
  wi_dir_sync_ok :: bool
  wi_fp :: file_fingerprint

definition write_file_atomic_with :: "write_io \<Rightarrow> string \<Rightarrow> string \<Rightarrow> string \<Rightarrow> durability \<Rightarrow>
    file_table \<Rightarrow> unit result \<times> file_table list" where
  "write_file_atomic_with io path temp content durability fs =
     (if \<not> wi_parent_ok io then (bail ''failed to create parent'', [fs])
      else if \<not> wi_create_ok io then (bail ''failed to create temp file'', [fs])
      else
        let created = fs(temp \<mapsto> ([], wi_fp io)) in
        if \<not> wi_write_ok io
        then (bail ''failed to write temp file'',
              [fs, created, fs(temp \<mapsto> (take (wi_partial io) content, wi_fp io))])
        else
          let written = fs(temp \<mapsto> (content, wi_fp io)) in
          if durability = Required \<and> \<not> wi_sync_ok io
          then (bail ''failed to fsync temp file'', [fs, created, written])
          else if \<not> wi_chmod_ok io then (bail ''failed to set mode'', [fs, created, written])
          else if \<not> wi_rename_ok io
          then (bail ''failed to atomically rename'',
                [fs, created, written, if wi_cleanup_ok io then fs(temp := None) else written])
          else
            let renamed = fs(temp := None, path \<mapsto> (content, wi_fp io)) in
            if durability = Required \<and> \<not> wi_dir_sync_ok io
            then (bail ''failed to fsync directory'', [fs, created, written, renamed])
            else (Inr (), [fs, created, written, renamed]))"

definition write_file_atomic :: "write_io \<Rightarrow> string \<Rightarrow> string \<Rightarrow> string \<Rightarrow> file_table \<Rightarrow>
    unit result \<times> file_table" where
  "write_file_atomic io path temp content fs =
     (let (r, trace) = write_file_atomic_with io path temp content Required fs in (r, last trace))"

lemma write_file_atomic_path:
  assumes "write_file_atomic io path temp content fs = (r, fs')" "temp \<noteq> path"
  shows "fs' path = fs path \<and> \<not> is_ok r \<or> fs' path = Some (content, wi_fp io)"
  using assms
  by (auto simp: write_file_atomic_def write_file_atomic_with_def Let_def bail_def split: if_splits)

lemma write_file_atomic_ok:
  "write_file_atomic io path temp content fs = (Inr u, fs') \<Longrightarrow> fs' path = Some (content, wi_fp io)"
  by (auto simp: write_file_atomic_def write_file_atomic_with_def Let_def bail_def split: if_splits)

lemma write_file_atomic_other:
  assumes "write_file_atomic io path temp content fs = (r, fs')"
  shows "fs' p = fs p \<or> fs' p = None \<or> (\<exists>raw. fs' p = Some (raw, wi_fp io))"
  using assms
  by (auto simp: write_file_atomic_def write_file_atomic_with_def Let_def split: if_splits)

text \<open>C6: replacing a file is atomic. In every state another process (or a restart after a crash) can
  observe, the file holds its old content or the complete new content, success means the new
  content is in place, and no other file than the temporary one is touched.\<close>

theorem atomic_write_old_or_new:
  assumes "temp \<noteq> path"
    and "write_file_atomic_with io path temp content durability fs = (r, trace)"
  shows "(\<forall>fs'\<in>set trace. fs' path = fs path \<or> fs' path = Some (content, wi_fp io)) \<and>
     (is_ok r \<longrightarrow> last trace path = Some (content, wi_fp io)) \<and>
     (\<forall>fs'\<in>set trace. \<forall>p. p \<noteq> path \<and> p \<noteq> temp \<longrightarrow> fs' p = fs p)"
  using assms by (auto simp: write_file_atomic_with_def Let_def bail_def split: if_splits)

definition sample_fp :: file_fingerprint where
  "sample_fp = \<lparr> fp_device = 1, fp_inode = 2, fp_size = 3, fp_modified_seconds = 4,
     fp_modified_nanos = 5 \<rparr>"

definition all_ok :: write_io where
  "all_ok = \<lparr> wi_parent_ok = True, wi_create_ok = True, wi_write_ok = True, wi_partial = 0,
     wi_sync_ok = True, wi_chmod_ok = True, wi_rename_ok = True, wi_cleanup_ok = True,
     wi_dir_sync_ok = True, wi_fp = sample_fp \<rparr>"

theorem atomic_write_old_or_new_witness:
  "last (snd (write_file_atomic_with all_ok ''a'' ''.a.tmp'' ''new'' Required Map.empty)) ''a'' =
     Some (''new'', sample_fp)"
proof -
  obtain r trace where w: "write_file_atomic_with all_ok ''a'' ''.a.tmp'' ''new'' Required Map.empty = (r, trace)"
    by fastforce
  moreover from w have "is_ok r"
    by (auto simp: write_file_atomic_with_def all_ok_def Let_def)
  moreover have "''.a.tmp'' \<noteq> ''a''" by simp
  ultimately show ?thesis
    using atomic_write_old_or_new [of "''.a.tmp''" "''a''" all_ok "''new''" Required Map.empty r trace]
    by (simp add: all_ok_def)
qed

section \<open>The file lock\<close>

datatype flock_outcome = Locked | WouldBlock | LockError

definition LOCK_TIMEOUT :: nat where
  "LOCK_TIMEOUT = 30000"

definition LOCK_RETRY_INTERVAL :: nat where
  "LOCK_RETRY_INTERVAL = 25"

text \<open>\<open>flock i\<close> is the outcome of attempt \<open>i\<close>. Before it the thread has slept \<open>i\<close> times the retry
  interval, and \<open>delay i\<close> is whatever time passed on top; times are in milliseconds.\<close>

function lock_loop :: "(nat \<Rightarrow> flock_outcome) \<Rightarrow> (nat \<Rightarrow> nat) \<Rightarrow> nat \<Rightarrow> bool" where
  "lock_loop flock delay i =
     (case flock i of
        Locked \<Rightarrow> True
      | WouldBlock \<Rightarrow>
          if i * LOCK_RETRY_INTERVAL + delay i < LOCK_TIMEOUT then lock_loop flock delay (Suc i)
          else False
      | LockError \<Rightarrow> False)"
  by pat_completeness auto

termination
  by (relation "measure (\<lambda>(_, _, i). LOCK_TIMEOUT - i)")
     (auto simp: LOCK_TIMEOUT_def LOCK_RETRY_INTERVAL_def)

declare lock_loop.simps [simp del]

lemma lock_loop_True:
  "lock_loop flock delay i \<Longrightarrow> \<exists>j\<ge>i. flock j = Locked \<and> (\<forall>k. i \<le> k \<and> k < j \<longrightarrow> flock k = WouldBlock)"
proof (induction flock delay i rule: lock_loop.induct)
  case (1 flock delay i)
  show ?case
  proof (cases "flock i")
    case WouldBlock
    then have "lock_loop flock delay (Suc i)" "i * LOCK_RETRY_INTERVAL + delay i < LOCK_TIMEOUT"
      using "1.prems" by (subst (asm) lock_loop.simps; simp split: if_splits)+
    with "1.IH" WouldBlock obtain j where "j \<ge> Suc i" "flock j = Locked"
      "\<forall>k. Suc i \<le> k \<and> k < j \<longrightarrow> flock k = WouldBlock" by auto
    with WouldBlock show ?thesis
      by (intro exI [of _ j]) (metis Suc_leD Suc_leI le_neq_implies_less)
  next
    case Locked
    then show ?thesis by (intro exI [of _ i]) auto
  next
    case LockError
    then show ?thesis using "1.prems" by (simp add: lock_loop.simps [of flock delay i])
  qed
qed

record lock_io =
  lk_dir_ok :: bool
  lk_open_ok :: bool
  lk_flock :: "nat \<Rightarrow> flock_outcome"
  lk_delay :: "nat \<Rightarrow> nat"
  lk_unlock_ok :: bool

text \<open>The operation runs under the lock; its effect stays even when releasing the lock fails.\<close>

definition with_file_lock :: "lock_io \<Rightarrow> ('s \<Rightarrow> 'a result \<times> 's) \<Rightarrow> 's \<Rightarrow> 'a result \<times> 's" where
  "with_file_lock io operation s =
     (if \<not> lk_dir_ok io then (bail ''failed to create lock directory'', s)
      else if \<not> lk_open_ok io then (bail ''failed to open lock file'', s)
      else if \<not> lock_loop (lk_flock io) (lk_delay io) 0 then (bail ''failed to lock'', s)
      else
        let (result, s') = operation s in
        (case result of
           Inr value \<Rightarrow> if lk_unlock_ok io then Inr value else bail ''failed to unlock''
         | Inl err \<Rightarrow> if lk_unlock_ok io then Inl err else Inl (Context ''failed to unlock'' err), s'))"

lemma with_file_lock_state:
  "snd (with_file_lock io operation s) = s \<or> snd (with_file_lock io operation s) = snd (operation s)"
  by (auto simp: with_file_lock_def Let_def split: prod.splits)

lemma with_file_lock_ok:
  "with_file_lock io operation s = (Inr a, s') \<Longrightarrow> operation s = (Inr a, s')"
  by (auto simp: with_file_lock_def Let_def bail_def split: prod.splits if_splits sum.splits)

lemma with_file_lock_preserves:
  "P s \<Longrightarrow> (\<And>r s'. operation s = (r, s') \<Longrightarrow> P s') \<Longrightarrow> P (snd (with_file_lock io operation s))"
  by (cases "operation s") (auto simp: with_file_lock_def Let_def)

section \<open>Slugs\<close>

fun slug_chars :: "bool \<Rightarrow> string \<Rightarrow> string" where
  "slug_chars previous_dash [] = []"
| "slug_chars previous_dash (c # cs) =
     (let normalized = to_ascii_lowercase c in
      if is_ascii_alphanumeric normalized then normalized # slug_chars False cs
      else if \<not> previous_dash then CHR ''-'' # slug_chars True cs
      else slug_chars True cs)"

definition trim_matches :: "char \<Rightarrow> string \<Rightarrow> string" where
  "trim_matches d s = rev (dropWhile (\<lambda>c. c = d) (rev (dropWhile (\<lambda>c. c = d) s)))"

definition slugify :: "string \<Rightarrow> string \<Rightarrow> string" where
  "slugify input fallback =
     (let trimmed = trim_matches CHR ''-'' (slug_chars False input) in
      if trimmed = [] then fallback else trimmed)"

definition slug_char :: "char \<Rightarrow> bool" where
  "slug_char c = (is_ascii_digit c \<or> is_ascii_lowercase c \<or> c = CHR ''-'')"

fun no_double_dash :: "string \<Rightarrow> bool" where
  "no_double_dash (a # b # s) = (\<not> (a = CHR ''-'' \<and> b = CHR ''-'') \<and> no_double_dash (b # s))"
| "no_double_dash _ = True"

text \<open>What a generated identifier looks like: lower-case letters, digits and single dashes, neither
  beginning nor ending with a dash.\<close>

definition slug_ok :: "string \<Rightarrow> bool" where
  "slug_ok s \<longleftrightarrow> s \<noteq> [] \<and> list_all slug_char s \<and> no_double_dash s \<and>
     hd s \<noteq> CHR ''-'' \<and> last s \<noteq> CHR ''-''"

lemma lowercase_not_upper: "\<not> is_ascii_uppercase (to_ascii_lowercase c)"
  by (auto simp: ascii_defs of_char_of)

lemma slug_chars_ok: "list_all slug_char (slug_chars b s)"
  using lowercase_not_upper
  by (induction b s rule: slug_chars.induct)
     (auto simp: Let_def slug_char_def is_ascii_alphanumeric_def)

lemma slug_chars_dash:
  "no_double_dash (slug_chars b s) \<and> (b \<longrightarrow> slug_chars b s = [] \<or> hd (slug_chars b s) \<noteq> CHR ''-'')"
proof (induction s arbitrary: b)
  case (Cons c cs)
  have dash: "\<not> is_ascii_alphanumeric CHR ''-''" by (simp add: ascii_defs)
  have step: "no_double_dash (x # t)"
    if "no_double_dash t" "x = CHR ''-'' \<longrightarrow> t = [] \<or> hd t \<noteq> CHR ''-''" for x t
    using that by (cases t) auto
  let ?n = "to_ascii_lowercase c"
  show ?case
  proof (cases "is_ascii_alphanumeric ?n")
    case True
    then have "?n \<noteq> CHR ''-''" using dash by metis
    with True Cons [of False] show ?thesis by (simp add: Let_def step)
  next
    case False
    with Cons [of True] show ?thesis by (simp add: Let_def step)
  qed
qed simp

lemma no_double_dash_Cons:
  "no_double_dash (x # t) \<longleftrightarrow> (t = [] \<or> \<not> (x = CHR ''-'' \<and> hd t = CHR ''-'')) \<and> no_double_dash t"
  by (cases t) auto

lemma no_double_dash_append: "no_double_dash (a @ b) \<Longrightarrow> no_double_dash a \<and> no_double_dash b"
  by (induction a) (auto simp: no_double_dash_Cons)

lemma trim_matches_parts: "\<exists>a b. s = a @ trim_matches d s @ b"
proof -
  have "s = takeWhile (\<lambda>c. c = d) s @ dropWhile (\<lambda>c. c = d) s" by simp
  moreover have "t = rev (dropWhile (\<lambda>c. c = d) (rev t)) @ rev (takeWhile (\<lambda>c. c = d) (rev t))" for t
    by (metis rev_append rev_rev_ident takeWhile_dropWhile_id)
  ultimately show ?thesis unfolding trim_matches_def by metis
qed

lemma trim_matches_ends:
  assumes "trim_matches d s \<noteq> []"
  shows "hd (trim_matches d s) \<noteq> d" "last (trim_matches d s) \<noteq> d"
proof -
  let ?u = "dropWhile (\<lambda>c. c = d) s"
  have u: "?u \<noteq> []"
  proof
    assume e: "?u = []"
    show False using assms unfolding trim_matches_def e by simp
  qed
  then have hu: "hd ?u \<noteq> d" using hd_dropWhile by blast
  have ne: "dropWhile (\<lambda>c. c = d) (rev ?u) \<noteq> []" using assms by (simp add: trim_matches_def)
  then have "hd (dropWhile (\<lambda>c. c = d) (rev ?u)) \<noteq> d" using hd_dropWhile by blast
  then show "last (trim_matches d s) \<noteq> d" by (simp add: trim_matches_def last_rev)
  obtain a where "?u = trim_matches d s @ a"
    unfolding trim_matches_def
    by (metis rev_append rev_rev_ident takeWhile_dropWhile_id)
  with hu assms show "hd (trim_matches d s) \<noteq> d" by (metis hd_append2)
qed

text \<open>\<open>slugify\<close> yields a well-formed identifier for every input whenever its fallback is one.\<close>

theorem slugify_well_formed:
  assumes "slug_ok fallback"
  shows "slug_ok (slugify input fallback)"
proof (cases "trim_matches CHR ''-'' (slug_chars False input) = []")
  case False
  let ?t = "trim_matches CHR ''-'' (slug_chars False input)"
  obtain a b where "slug_chars False input = a @ ?t @ b" using trim_matches_parts by blast
  then have "list_all slug_char ?t" "no_double_dash ?t"
    using slug_chars_ok [of False input] slug_chars_dash [of False input] no_double_dash_append
    by (metis list_all_append, metis)
  with False trim_matches_ends [OF False] show ?thesis
    by (simp add: slugify_def slug_ok_def Let_def)
qed (use assms in \<open>simp add: slugify_def Let_def\<close>)

theorem slugify_well_formed_witness:
  "slug_ok (slugify ''My  Box!'' ''sandbox'')"
proof (rule slugify_well_formed)
  show "slug_ok ''sandbox''" by code_simp
qed

end
