(* ===== verification/File_Cache.thy ===== *)
theory File_Cache
  imports Fsutil
begin

text \<open>
  What the registry and the policy engine share of their persistence: a codec for the file content
  (\<open>serde_json\<close>, a parameter), the outcomes of the system calls of one entry point, and the contract
  of a one-entry cache keyed by path and file identity. The locale \<open>fingerprint_cache\<close> is interpreted
  by \<open>Registry_Store\<close> (\<open>src/registry/storage.rs\<close>) and by \<open>Policy_Store\<close>
  (\<open>src/policy/engine/cache.rs\<close>).
\<close>

record 'v codec =
  cd_decode :: "string \<Rightarrow> 'v option"
  cd_encode :: "'v \<Rightarrow> string option"

definition codec_faithful :: "'v codec \<Rightarrow> bool" where
  "codec_faithful cd \<longleftrightarrow> (\<forall>v raw. cd_encode cd v = Some raw \<longrightarrow> cd_decode cd raw = Some v)"

text \<open>Outcomes of the system calls of one entry point.\<close>

record store_io =
  io_dir_ok :: bool
  io_stat_ok :: bool
  io_read_ok :: bool
  io_init_lock :: lock_io
  io_init_temp :: string
  io_init_write :: write_io
  io_lock :: lock_io
  io_temp :: string
  io_write :: write_io

section \<open>Cache contract\<close>

text \<open>A cache is coherent with the files when every hit is what decoding the current file yields.\<close>

definition coherent :: "(string \<Rightarrow> file_fingerprint \<Rightarrow> 'c \<Rightarrow> 'v option) \<Rightarrow> (string \<Rightarrow> 'v result) \<Rightarrow>
    file_table \<Rightarrow> 'c \<Rightarrow> bool" where
  "coherent hit decode fs c \<longleftrightarrow>
     (\<forall>p raw fp v. fs p = Some (raw, fp) \<and> hit p fp c = Some v \<longrightarrow> decode raw = Inr v)"

locale fingerprint_cache =
  fixes hit :: "string \<Rightarrow> file_fingerprint \<Rightarrow> 'c \<Rightarrow> 'v option"
    and put :: "string \<Rightarrow> file_fingerprint \<Rightarrow> 'v \<Rightarrow> 'c \<Rightarrow> 'c"
  assumes hit_put: "hit p fp (put q fp' v c) = (if p = q \<and> fp = fp' then Some v else None)"
begin

lemma coherent_put:
  "fs p = Some (raw, fp) \<Longrightarrow> decode raw = Inr v \<Longrightarrow> coherent hit decode fs (put p fp v c)"
  by (auto simp: coherent_def hit_put)

text \<open>A write by anyone keeps the cache coherent as long as it changes the identity of the file.\<close>

lemma coherent_write:
  "coherent hit decode fs c \<Longrightarrow> hit p fp c = None \<Longrightarrow> coherent hit decode (fs(p \<mapsto> (raw, fp))) c"
  by (auto simp: coherent_def)

lemma coherent_other:
  "coherent hit decode fs c \<Longrightarrow> (\<And>fp. hit p fp c = None) \<Longrightarrow> coherent hit decode (fs(p := x)) c"
  by (auto simp: coherent_def)

lemma coherent_remove: "coherent hit decode fs c \<Longrightarrow> coherent hit decode (fs(p := None)) c"
  by (auto simp: coherent_def)

lemma coherent_hit:
  "coherent hit decode fs c \<Longrightarrow> fs p = Some (raw, fp) \<Longrightarrow> hit p fp c = Some v \<Longrightarrow> decode raw = Inr v"
  by (auto simp: coherent_def)

lemma coherent_atomic_write:
  assumes "coherent hit decode fs c" "write_file_atomic io path temp content fs = (r, fs')"
    and "\<And>p. hit p (wi_fp io) c = None"
  shows "coherent hit decode fs' c"
  unfolding coherent_def
proof (intro allI impI, elim conjE)
  fix p raw fp v
  assume "fs' p = Some (raw, fp)" "hit p fp c = Some v"
  with assms write_file_atomic_other [OF assms(2), of p] have "fs p = Some (raw, fp)" by auto
  then show "decode raw = Inr v"
    using coherent_hit [OF assms(1)] \<open>hit p fp c = Some v\<close> by blast
qed

end

section \<open>Calls that succeed\<close>

definition free_lock :: lock_io where
  "free_lock = \<lparr> lk_dir_ok = True, lk_open_ok = True, lk_flock = (\<lambda>_. Locked), lk_delay = (\<lambda>_. 0),
     lk_unlock_ok = True \<rparr>"

lemma free_lock_runs: "with_file_lock free_lock operation s = operation s"
proof -
  have "lock_loop (\<lambda>_. Locked) (\<lambda>_. 0) 0" by (simp add: lock_loop.simps)
  then show ?thesis
    by (auto simp: with_file_lock_def free_lock_def Let_def split: prod.splits sum.splits)
qed

definition sample_io :: store_io where
  "sample_io = \<lparr> io_dir_ok = True, io_stat_ok = True, io_read_ok = True, io_init_lock = free_lock,
     io_init_temp = ''/d/.init'', io_init_write = all_ok, io_lock = free_lock, io_temp = ''/d/.tmp'',
     io_write = all_ok \<rparr>"

end
