(* ===== verification/Registry_Store.thy ===== *)
theory Registry_Store
  imports Metadata File_Cache
begin

text \<open>
  Persistence of the registry (\<open>src/registry/mod.rs\<close>, \<open>migrate.rs\<close>, \<open>storage.rs\<close>): schema migration,
  the fingerprint cache, and the read and read-modify-write entry points. The JSON codec
  (\<open>serde_json\<close>) is a parameter. Shows that
  migration lands on the current schema or refuses, that a cached read equals a read of the file,
  and that an update is committed completely or not at all.
\<close>

section \<open>Migration\<close>

record migration_step =
  mig_from :: u32
  mig_to :: u32

function migrate_loop :: "u32 \<Rightarrow> migration_step list \<Rightarrow> (u32 \<times> migration_step list) result" where
  "migrate_loop version applied =
     (if version < REGISTRY_VERSION then
        (if version = 0
         then migrate_loop (version + 1) (applied @ [\<lparr> mig_from = version, mig_to = version + 1 \<rparr>])
         else bail ''no migration from registry schema version'')
      else Inr (version, applied))"
  by pat_completeness auto

termination
  by (relation "measure (\<lambda>(v, _). if v = 0 then 1 else 0)") auto

definition migrate :: "registry \<Rightarrow> (registry \<times> migration_step list) result" where
  "migrate r =
     (if reg_version r > REGISTRY_VERSION
      then bail ''registry schema version is newer than this binary supports''
      else and_then (migrate_loop (reg_version r) []) (\<lambda>(version, steps).
        Inr (r \<lparr> reg_version := version \<rparr>, steps)))"

definition validate_registry_version :: "u32 \<Rightarrow> unit result" where
  "validate_registry_version version =
     (if version > REGISTRY_VERSION
      then bail ''registry schema version is newer than this binary supports'' else Inr ())"

lemma u32_cases: "(v :: u32) = 0 \<or> v = 1 \<or> 1 < v"
  by (metis linorder_cases word_less_1)

lemma migrate_iff:
  "migrate r = Inr (r', steps) \<longleftrightarrow>
     reg_version r \<le> 1 \<and> r' = r \<lparr> reg_version := REGISTRY_VERSION \<rparr> \<and>
     steps = (if reg_version r = 0 then [\<lparr> mig_from = 0, mig_to = 1 \<rparr>] else [])"
proof -
  have loop0: "migrate_loop 0 [] = Inr (1, [\<lparr> mig_from = 0, mig_to = 1 \<rparr>])"
    by (subst migrate_loop.simps, subst migrate_loop.simps) (simp add: REGISTRY_VERSION_def)
  have loop1: "migrate_loop 1 [] = Inr (1, [])"
    by (subst migrate_loop.simps) (simp add: REGISTRY_VERSION_def)
  consider "reg_version r = 0" | "reg_version r = 1" | "1 < reg_version r" using u32_cases by blast
  then show ?thesis
  proof cases
    case 3
    then show ?thesis by (auto simp: migrate_def REGISTRY_VERSION_def)
  qed (auto simp: migrate_def REGISTRY_VERSION_def loop0 loop1)
qed

section \<open>The registry file\<close>

record registry_cache =
  rc_path :: string
  rc_fingerprint :: file_fingerprint
  rc_registry :: registry

record registry_store =
  rg_files :: file_table
  rg_cache :: "registry_cache option"

definition registry_path :: "string \<Rightarrow> string" where
  "registry_path state_dir = join_path state_dir ''registry.json''"

definition registry_hit :: "string \<Rightarrow> file_fingerprint \<Rightarrow> registry_cache option \<Rightarrow> registry option" where
  "registry_hit path fp cache =
     (case cache of
        None \<Rightarrow> None
      | Some c \<Rightarrow> if rc_path c \<noteq> path \<or> rc_fingerprint c \<noteq> fp then None else Some (rc_registry c))"

definition registry_put :: "string \<Rightarrow> file_fingerprint \<Rightarrow> registry \<Rightarrow> registry_cache option \<Rightarrow>
    registry_cache option" where
  "registry_put path fp r cache =
     Some \<lparr> rc_path = path, rc_fingerprint = fp, rc_registry = r \<rparr>"

interpretation rcache: fingerprint_cache registry_hit registry_put
  by unfold_locales (auto simp: registry_hit_def registry_put_def)

definition registry_fingerprint :: "store_io \<Rightarrow> string \<Rightarrow> file_table \<Rightarrow> file_fingerprint option result" where
  "registry_fingerprint io path fs =
     (if \<not> io_stat_ok io then bail ''failed to stat registry'' else Inr (map_option snd (fs path)))"

definition with_cached_registry :: "store_io \<Rightarrow> string \<Rightarrow> (registry \<Rightarrow> 'a result) \<Rightarrow> registry_store \<Rightarrow>
    'a option result" where
  "with_cached_registry io path operation st =
     and_then (registry_fingerprint io path (rg_files st)) (\<lambda>fingerprint.
       case fingerprint of
         None \<Rightarrow> Inr None
       | Some fp \<Rightarrow>
           (case registry_hit path fp (rg_cache st) of
              None \<Rightarrow> Inr None
            | Some r \<Rightarrow> and_then (operation r) (\<lambda>a. Inr (Some a))))"

definition update_cache :: "store_io \<Rightarrow> string \<Rightarrow> registry \<Rightarrow> registry_store \<Rightarrow> registry_store" where
  "update_cache io state_dir r st =
     (let path = registry_path state_dir in
      case registry_fingerprint io path (rg_files st) of
        Inr (Some fp) \<Rightarrow> st \<lparr> rg_cache := registry_put path fp r (rg_cache st) \<rparr>
      | _ \<Rightarrow> st)"

text \<open>Decoding a registry file: parse, refuse newer schemas, migrate older ones.\<close>

definition decode_registry :: "registry codec \<Rightarrow> string \<Rightarrow> (registry \<times> migration_step list) result" where
  "decode_registry cd raw =
     and_then (with_context ''invalid registry'' (ok_or (Message ''json'') (cd_decode cd raw))) (\<lambda>r.
     and_then (validate_registry_version (reg_version r)) (\<lambda>_.
       with_context ''failed to migrate registry'' (migrate r)))"

definition load_registry_with_migrations :: "store_io \<Rightarrow> registry codec \<Rightarrow> string \<Rightarrow> file_table \<Rightarrow>
    (registry \<times> migration_step list) result" where
  "load_registry_with_migrations io cd state_dir fs =
     (case fs (registry_path state_dir) of
        None \<Rightarrow> bail ''failed to read registry''
      | Some (raw, fp) \<Rightarrow>
          if \<not> io_read_ok io then bail ''failed to read registry'' else decode_registry cd raw)"

definition load_registry_unlocked :: "store_io \<Rightarrow> registry codec \<Rightarrow> string \<Rightarrow> file_table \<Rightarrow>
    registry result" where
  "load_registry_unlocked io cd state_dir fs =
     and_then (load_registry_with_migrations io cd state_dir fs) (\<lambda>(r, steps). Inr r)"

definition save_registry_unlocked :: "store_io \<Rightarrow> registry codec \<Rightarrow> string \<Rightarrow> registry \<Rightarrow>
    registry_store \<Rightarrow> unit result \<times> registry_store" where
  "save_registry_unlocked io cd state_dir r st =
     (if reg_version r \<noteq> REGISTRY_VERSION
      then (bail ''refusing to write registry schema version'', st)
      else (case cd_encode cd r of
              None \<Rightarrow> (bail ''failed to serialize registry'', st)
            | Some payload \<Rightarrow>
                let (w, fs) = write_file_atomic (io_write io) (registry_path state_dir) (io_temp io)
                                payload (rg_files st)
                in (with_context ''failed to write registry'' w, st \<lparr> rg_files := fs \<rparr>)))"

definition init_registry :: "store_io \<Rightarrow> registry codec \<Rightarrow> string \<Rightarrow> registry_store \<Rightarrow>
    unit result \<times> registry_store" where
  "init_registry io cd path st =
     (if rg_files st path \<noteq> None then (Inr (), st)
      else (case cd_encode cd registry_default of
              None \<Rightarrow> (bail ''failed to serialize registry'', st)
            | Some payload \<Rightarrow>
                let (w, fs) = write_file_atomic (io_init_write io) path (io_init_temp io)
                                payload (rg_files st)
                in (with_context ''failed to initialize registry'' w, st \<lparr> rg_files := fs \<rparr>)))"

definition ensure_registry :: "store_io \<Rightarrow> registry codec \<Rightarrow> string \<Rightarrow> registry_store \<Rightarrow>
    unit result \<times> registry_store" where
  "ensure_registry io cd state_dir st =
     (let path = registry_path state_dir in
      if \<not> io_dir_ok io then (bail ''failed to create state dir'', st)
      else if rg_files st path \<noteq> None then (Inr (), st)
      else with_file_lock (io_init_lock io) (init_registry io cd path) st)"

definition read_locked :: "store_io \<Rightarrow> registry codec \<Rightarrow> string \<Rightarrow> (registry \<Rightarrow> 'a result) \<Rightarrow>
    registry_store \<Rightarrow> 'a result \<times> registry_store" where
  "read_locked io cd state_dir operation st =
     (case with_cached_registry io (registry_path state_dir) operation st of
        Inl err \<Rightarrow> (Inl err, st)
      | Inr (Some result) \<Rightarrow> (Inr result, st)
      | Inr None \<Rightarrow>
          (case load_registry_unlocked io cd state_dir (rg_files st) of
             Inl err \<Rightarrow> (Inl err, st)
           | Inr r \<Rightarrow>
               (case operation r of
                  Inl err \<Rightarrow> (Inl err, st)
                | Inr result \<Rightarrow> (Inr result, update_cache io state_dir r st))))"

definition with_registry :: "store_io \<Rightarrow> registry codec \<Rightarrow> string \<Rightarrow> (registry \<Rightarrow> 'a result) \<Rightarrow>
    registry_store \<Rightarrow> 'a result \<times> registry_store" where
  "with_registry io cd state_dir operation st0 =
     (case ensure_registry io cd state_dir st0 of
        (Inl err, st) \<Rightarrow> (Inl err, st)
      | (Inr _, st) \<Rightarrow>
          (case with_cached_registry io (registry_path state_dir) operation st of
             Inl err \<Rightarrow> (Inl err, st)
           | Inr (Some result) \<Rightarrow> (Inr result, st)
           | Inr None \<Rightarrow> with_file_lock (io_lock io) (read_locked io cd state_dir operation) st))"

text \<open>The operation sees the loaded registry and, when it succeeds, returns its result together with
  the registry it modified.\<close>

definition commit_registry :: "store_io \<Rightarrow> registry codec \<Rightarrow> string \<Rightarrow>
    (registry \<Rightarrow> ('a \<times> registry) result) \<Rightarrow> registry_store \<Rightarrow> 'a result \<times> registry_store" where
  "commit_registry io cd state_dir operation st =
     (case load_registry_unlocked io cd state_dir (rg_files st) of
        Inl err \<Rightarrow> (Inl err, st)
      | Inr r \<Rightarrow>
          (case operation r of
             Inl err \<Rightarrow> (Inl err, st)
           | Inr (out, r') \<Rightarrow>
               let r'' = r' \<lparr> reg_generation := saturating_add (reg_generation r') 1 \<rparr>;
                   (w, st') = save_registry_unlocked io cd state_dir r'' st
               in (case w of
                     Inl err \<Rightarrow> (Inl err, st')
                   | Inr _ \<Rightarrow> (Inr out, update_cache io state_dir r'' st'))))"

definition with_registry_mut :: "store_io \<Rightarrow> registry codec \<Rightarrow> string \<Rightarrow>
    (registry \<Rightarrow> ('a \<times> registry) result) \<Rightarrow> registry_store \<Rightarrow> 'a result \<times> registry_store" where
  "with_registry_mut io cd state_dir operation st0 =
     (case ensure_registry io cd state_dir st0 of
        (Inl err, st) \<Rightarrow> (Inl err, st)
      | (Inr _, st) \<Rightarrow> with_file_lock (io_lock io) (commit_registry io cd state_dir operation) st)"

section \<open>Reads\<close>

definition decode_current :: "registry codec \<Rightarrow> string \<Rightarrow> registry result" where
  "decode_current cd raw = and_then (decode_registry cd raw) (\<lambda>(r, steps). Inr r)"

definition store_coherent :: "registry codec \<Rightarrow> registry_store \<Rightarrow> bool" where
  "store_coherent cd st = coherent registry_hit (decode_current cd) (rg_files st) (rg_cache st)"

text \<open>A file that is written gets an identity the cache has not seen.\<close>

definition fresh_identity :: "registry_store \<Rightarrow> store_io \<Rightarrow> bool" where
  "fresh_identity st io \<longleftrightarrow>
     (\<forall>p. registry_hit p (wi_fp (io_write io)) (rg_cache st) = None \<and>
          registry_hit p (wi_fp (io_init_write io)) (rg_cache st) = None)"

lemma load_unlocked_decode:
  "load_registry_unlocked io cd dir fs = Inr r \<longleftrightarrow>
     (\<exists>raw fp. fs (registry_path dir) = Some (raw, fp) \<and> io_read_ok io \<and> decode_current cd raw = Inr r)"
  by (auto simp: load_registry_unlocked_def load_registry_with_migrations_def decode_current_def
      bail_def split: option.splits if_splits)

lemma coherent_update_cache:
  assumes "store_coherent cd st" "load_registry_unlocked io cd dir (rg_files st) = Inr r"
  shows "store_coherent cd (update_cache io dir r st)"
  using assms rcache.coherent_put [of "rg_files st" "registry_path dir" _ _ "decode_current cd" r]
  by (auto simp: store_coherent_def update_cache_def Let_def load_unlocked_decode
      registry_fingerprint_def bail_def split: sum.splits option.splits if_splits)

lemma init_registry_coherent:
  assumes "store_coherent cd st" "fresh_identity st io"
  shows "store_coherent cd (snd (init_registry io cd path st)) \<and>
     rg_cache (snd (init_registry io cd path st)) = rg_cache st"
proof (cases "rg_files st path = None \<and> cd_encode cd registry_default \<noteq> None")
  case True
  then obtain payload where p: "cd_encode cd registry_default = Some payload" by blast
  obtain w fs where w: "write_file_atomic (io_init_write io) path (io_init_temp io) payload
      (rg_files st) = (w, fs)" by fastforce
  have "coherent registry_hit (decode_current cd) fs (rg_cache st)"
    using rcache.coherent_atomic_write [OF _ w] assms by (simp add: store_coherent_def fresh_identity_def)
  with True p w show ?thesis by (simp add: init_registry_def store_coherent_def)
qed (use assms in \<open>auto simp: init_registry_def\<close>)

lemma ensure_registry_coherent:
  assumes "store_coherent cd st" "fresh_identity st io"
  shows "store_coherent cd (snd (ensure_registry io cd dir st)) \<and>
     rg_cache (snd (ensure_registry io cd dir st)) = rg_cache st"
proof -
  have "store_coherent cd (snd (with_file_lock lk (init_registry io cd path) st)) \<and>
     rg_cache (snd (with_file_lock lk (init_registry io cd path) st)) = rg_cache st" for lk path
    using with_file_lock_state [of lk "init_registry io cd path" st]
      init_registry_coherent [OF assms, of path] assms(1) by metis
  with assms show ?thesis by (simp add: ensure_registry_def Let_def)
qed

lemma ensure_registry_exists:
  "rg_files st (registry_path dir) \<noteq> None \<Longrightarrow> snd (ensure_registry io cd dir st) = st"
  by (simp add: ensure_registry_def Let_def)

lemma with_cached_registry_Some:
  assumes "store_coherent cd st" "with_cached_registry io path operation st = Inr (Some a)"
  shows "\<exists>raw fp r. rg_files st path = Some (raw, fp) \<and> decode_current cd raw = Inr r \<and> operation r = Inr a"
proof (cases "rg_files st path")
  case None
  with assms(2) show ?thesis
    by (auto simp: with_cached_registry_def registry_fingerprint_def result_simps split: if_splits)
next
  case (Some f)
  obtain raw fp where f: "f = (raw, fp)" by (cases f)
  show ?thesis
  proof (cases "registry_hit path fp (rg_cache st)")
    case None
    with assms(2) Some f show ?thesis
      by (auto simp: with_cached_registry_def registry_fingerprint_def result_simps split: if_splits)
  next
    case (Some r)
    then have "decode_current cd raw = Inr r"
      using rcache.coherent_hit assms(1) \<open>rg_files st path = Some f\<close> f
      unfolding store_coherent_def by blast
    moreover have "operation r = Inr a"
      using assms(2) Some f \<open>rg_files st path = Some f\<close>
      by (auto simp: with_cached_registry_def registry_fingerprint_def result_simps split: if_splits)
    ultimately show ?thesis using \<open>rg_files st path = Some f\<close> f by blast
  qed
qed

lemma update_cache_files [simp]: "rg_files (update_cache io dir r st) = rg_files st"
  by (auto simp: update_cache_def Let_def split: sum.splits option.splits)

lemma read_locked_ok:
  assumes "store_coherent cd st" "read_locked io cd dir operation st = (Inr a, st')"
  shows "\<exists>raw fp r. rg_files st' (registry_path dir) = Some (raw, fp) \<and>
     decode_current cd raw = Inr r \<and> operation r = Inr a"
  using assms with_cached_registry_Some [OF assms(1)]
  by (fastforce simp: read_locked_def load_unlocked_decode split: sum.splits option.splits)

lemma read_locked_coherent:
  "store_coherent cd st \<Longrightarrow> store_coherent cd (snd (read_locked io cd dir operation st))"
  by (auto simp: read_locked_def intro: coherent_update_cache split: sum.splits option.splits)


section \<open>Updates\<close>

definition next_generation :: "registry \<Rightarrow> registry" where
  "next_generation r = r \<lparr> reg_generation := saturating_add (reg_generation r) 1 \<rparr>"

lemma decode_current_encoded:
  assumes "codec_faithful cd" "cd_encode cd r = Some raw" "reg_version r = REGISTRY_VERSION"
  shows "decode_current cd raw = Inr r"
proof -
  have "migrate r = Inr (r, [])"
    using assms(3) by (auto simp: migrate_iff REGISTRY_VERSION_def)
  moreover have "cd_decode cd raw = Some r" using assms(1,2) by (simp add: codec_faithful_def)
  ultimately show ?thesis
    using assms(3)
    by (simp add: decode_current_def decode_registry_def validate_registry_version_def
        with_context_def)
qed

definition committed :: "registry codec \<Rightarrow> string \<Rightarrow> (registry \<Rightarrow> ('a \<times> registry) result) \<Rightarrow> 'a \<Rightarrow>
    file_table \<Rightarrow> file_table \<Rightarrow> bool" where
  "committed cd path operation out fs fs' \<longleftrightarrow>
     (\<exists>raw fp r r' raw' fp'. fs path = Some (raw, fp) \<and> decode_current cd raw = Inr r \<and>
        operation r = Inr (out, r') \<and> fs' path = Some (raw', fp') \<and>
        decode_current cd raw' = Inr (next_generation r'))"

lemma save_registry_spec:
  assumes cd: "codec_faithful cd" and temp: "io_temp io \<noteq> registry_path dir"
    and save: "save_registry_unlocked io cd dir r st = (w, st')"
  shows "rg_files st' (registry_path dir) = rg_files st (registry_path dir) \<and> \<not> is_ok w \<or>
     (\<exists>raw fp. rg_files st' (registry_path dir) = Some (raw, fp) \<and> decode_current cd raw = Inr r)"
proof (cases "reg_version r = REGISTRY_VERSION \<and> cd_encode cd r \<noteq> None")
  case True
  then obtain payload where p: "cd_encode cd r = Some payload" by blast
  obtain w0 fs where w0: "write_file_atomic (io_write io) (registry_path dir) (io_temp io) payload
      (rg_files st) = (w0, fs)" by fastforce
  have "st' = st \<lparr> rg_files := fs \<rparr>" "is_ok w \<longrightarrow> is_ok w0"
    using save True p w0 unfolding save_registry_unlocked_def
    by (auto simp: with_context_def split: sum.splits)
  with write_file_atomic_path [OF w0 temp] decode_current_encoded [OF cd p] True show ?thesis by auto
next
  case False
  with save show ?thesis by (auto simp: save_registry_unlocked_def bail_def split: if_splits)
qed

lemma commit_registry_spec:
  assumes cd: "codec_faithful cd" and temp: "io_temp io \<noteq> registry_path dir"
    and run: "commit_registry io cd dir operation st = (res, st')"
  shows "rg_files st' (registry_path dir) = rg_files st (registry_path dir) \<and> \<not> is_ok res \<or>
     (\<exists>out. committed cd (registry_path dir) operation out (rg_files st) (rg_files st') \<and>
        (is_ok res \<longrightarrow> res = Inr out))"
proof (cases "\<exists>r out r'. load_registry_unlocked io cd dir (rg_files st) = Inr r \<and>
    operation r = Inr (out, r')")
  case True
  then obtain r out r' where l: "load_registry_unlocked io cd dir (rg_files st) = Inr r"
    "operation r = Inr (out, r')" by blast
  obtain w st1 where s: "save_registry_unlocked io cd dir (next_generation r') st = (w, st1)" by fastforce
  have r: "rg_files st' = rg_files st1" "is_ok res \<longrightarrow> is_ok w \<and> res = Inr out"
    using run l s by (auto simp: commit_registry_def next_generation_def [symmetric]
        split: sum.splits)
  from save_registry_spec [OF cd temp s] l r show ?thesis
    by (auto simp: committed_def load_unlocked_decode)
next
  case False
  with run show ?thesis
    by (auto simp: commit_registry_def split: sum.splits prod.splits)
qed

lemma with_registry_mut_spec:
  assumes cd: "codec_faithful cd" and temp: "io_temp io \<noteq> registry_path dir"
    and "rg_files st (registry_path dir) \<noteq> None"
    and run: "with_registry_mut io cd dir operation st = (res, st')"
  shows "rg_files st' (registry_path dir) = rg_files st (registry_path dir) \<and> \<not> is_ok res \<or>
     (\<exists>out. committed cd (registry_path dir) operation out (rg_files st) (rg_files st') \<and>
        (is_ok res \<longrightarrow> res = Inr out))"
proof -
  obtain e where e: "ensure_registry io cd dir st = (e, st)"
    using ensure_registry_exists [OF assms(3), of io cd] by (metis prod.collapse)
  obtain res1 st1 where c: "commit_registry io cd dir operation st = (res1, st1)" by fastforce
  show ?thesis
  proof (cases "is_ok e")
    case True
    then have "with_file_lock (io_lock io) (commit_registry io cd dir operation) st = (res, st')"
      using run e by (auto simp: with_registry_mut_def is_ok_iff)
    then have "st' = st \<and> \<not> is_ok res \<or> st' = st1 \<and> (is_ok res \<longrightarrow> res = res1)"
      using c by (auto simp: with_file_lock_def Let_def bail_def split: if_splits sum.splits)
    with commit_registry_spec [OF cd temp c] show ?thesis by auto
  next
    case False
    then show ?thesis using run e by (auto simp: with_registry_mut_def split: sum.splits)
  qed
qed

text \<open>C4: an update of the registry is a transaction. Whatever system call fails, afterwards the registry
  file is byte for byte what it was, and then the update reports failure; or it holds exactly the
  registry the operation produced from the previous content, with the next generation number, and
  a reported success always means the latter. The codec is assumed to read back what it wrote.\<close>

theorem registry_update_transaction:
  assumes cd: "codec_faithful cd" and temp: "io_temp io \<noteq> registry_path dir"
    and "rg_files st (registry_path dir) \<noteq> None"
    and run: "with_registry_mut io cd dir operation st = (res, st')"
  shows "rg_files st' (registry_path dir) = rg_files st (registry_path dir) \<and> \<not> is_ok res \<or>
     (\<exists>out. committed cd (registry_path dir) operation out (rg_files st) (rg_files st') \<and>
        (is_ok res \<longrightarrow> res = Inr out))"
  using assms by (rule with_registry_mut_spec)

section \<open>A concrete store\<close>

definition sample_codec :: "registry codec" where
  "sample_codec =
     \<lparr> cd_decode = (\<lambda>raw. if raw = ''g0'' then Some registry_default
         else if raw = ''g1'' then Some (next_generation registry_default) else None),
       cd_encode = (\<lambda>r. if r = registry_default then Some ''g0''
         else if r = next_generation registry_default then Some ''g1'' else None) \<rparr>"

definition sample_store :: registry_store where
  "sample_store =
     \<lparr> rg_files = [''/d/registry.json'' \<mapsto> (''g0'', sample_fp)], rg_cache = None \<rparr>"

lemma sample_codec_faithful: "codec_faithful sample_codec"
  by (simp add: codec_faithful_def sample_codec_def)

lemma sample_path: "registry_path ''/d'' = ''/d/registry.json''"
  by (simp add: registry_path_def join_path_def)

lemma sample_decode: "decode_current sample_codec ''g0'' = Inr registry_default"
  by (rule decode_current_encoded [OF sample_codec_faithful])
     (simp_all add: sample_codec_def registry_default_def)

lemma sample_load:
  "load_registry_unlocked sample_io sample_codec ''/d'' (rg_files sample_store) = Inr registry_default"
  by (simp add: load_unlocked_decode sample_path sample_store_def sample_io_def sample_decode)


theorem registry_update_transaction_witness:
  "committed sample_codec (registry_path ''/d'') (\<lambda>r. Inr ((), r)) () (rg_files sample_store)
     (rg_files (snd (with_registry_mut sample_io sample_codec ''/d'' (\<lambda>r. Inr ((), r)) sample_store)))"
proof -
  let ?op = "\<lambda>r. Inr ((), r) :: (unit \<times> registry) result"
  obtain res st' where run: "with_registry_mut sample_io sample_codec ''/d'' ?op sample_store = (res, st')"
    by fastforce
  have ens: "ensure_registry sample_io sample_codec ''/d'' sample_store = (Inr (), sample_store)"
    by (simp add: ensure_registry_def sample_io_def sample_store_def sample_path)
  have enc: "cd_encode sample_codec (next_generation registry_default) \<noteq> None"
    "reg_version (next_generation registry_default) = REGISTRY_VERSION"
    by (simp_all add: sample_codec_def next_generation_def registry_default_def)
  have "is_ok res"
    using run sample_load enc unfolding with_registry_mut_def ens
    by (auto simp: sample_io_def free_lock_runs commit_registry_def next_generation_def [symmetric]
        save_registry_unlocked_def write_file_atomic_def write_file_atomic_with_def all_ok_def Let_def
        with_context_def split: sum.splits prod.splits)
  moreover have "rg_files sample_store (registry_path ''/d'') \<noteq> None"
    "io_temp sample_io \<noteq> registry_path ''/d''"
    by (simp_all add: sample_store_def sample_path sample_io_def)
  ultimately show ?thesis
    using registry_update_transaction [OF sample_codec_faithful _ _ run] run by auto
qed

end
