(* ===== verification/Policy_Store.thy ===== *)
theory Policy_Store
  imports Policy File_Cache
begin

text \<open>
  Persistence of the policy (\<open>src/policy/engine/store.rs\<close>, \<open>cache.rs\<close>): the file is created on first
  use, kept at mode 0600, read through a fingerprint cache, and changed by a locked
  read-modify-write. Shows that a committed edit is what every later load returns, and that a
  committed edit leaves the file private.
\<close>

section \<open>State\<close>

record policy_cache_entry =
  pc_path :: string
  pc_fingerprint :: file_fingerprint
  pc_policy :: policy

record policy_store =
  po_files :: file_table
  po_modes :: "string \<Rightarrow> u32"
  po_cache :: "policy_cache_entry option"

record policy_io = store_io +
  pio_mode_stat_ok :: bool
  pio_chmod_ok :: bool

definition policy_path :: "string \<Rightarrow> string" where
  "policy_path state_dir = join_path state_dir ''policy.json''"

definition policy_hit :: "string \<Rightarrow> file_fingerprint \<Rightarrow> policy_cache_entry option \<Rightarrow> policy option" where
  "policy_hit path fp cache =
     (case cache of
        None \<Rightarrow> None
      | Some e \<Rightarrow> if pc_path e = path \<and> pc_fingerprint e = fp then Some (pc_policy e) else None)"

definition policy_put :: "string \<Rightarrow> file_fingerprint \<Rightarrow> policy \<Rightarrow> policy_cache_entry option \<Rightarrow>
    policy_cache_entry option" where
  "policy_put path fp p cache =
     Some \<lparr> pc_path = path, pc_fingerprint = fp, pc_policy = p \<rparr>"

interpretation pcache: fingerprint_cache policy_hit policy_put
  by unfold_locales (auto simp: policy_hit_def policy_put_def)

definition policy_fingerprint :: "policy_io \<Rightarrow> string \<Rightarrow> file_table \<Rightarrow> file_fingerprint result" where
  "policy_fingerprint io path fs =
     (case fs path of
        None \<Rightarrow> bail ''failed to stat policy''
      | Some (raw, fp) \<Rightarrow> if io_stat_ok io then Inr fp else bail ''failed to stat policy'')"

definition cached_policy :: "policy_io \<Rightarrow> string \<Rightarrow> policy_store \<Rightarrow> policy option result" where
  "cached_policy io path st =
     and_then (policy_fingerprint io path (po_files st)) (\<lambda>fp.
       Inr (policy_hit path fp (po_cache st)))"

definition update_policy_cache :: "policy_io \<Rightarrow> string \<Rightarrow> policy \<Rightarrow> policy_store \<Rightarrow>
    unit result \<times> policy_store" where
  "update_policy_cache io path p st =
     (case policy_fingerprint io path (po_files st) of
        Inl err \<Rightarrow> (Inl err, st)
      | Inr fp \<Rightarrow> (Inr (), st \<lparr> po_cache := policy_put path fp p (po_cache st) \<rparr>))"

section \<open>The file\<close>

definition ensure_policy_permissions :: "policy_io \<Rightarrow> string \<Rightarrow> policy_store \<Rightarrow>
    unit result \<times> policy_store" where
  "ensure_policy_permissions io path st =
     (if \<not> pio_mode_stat_ok io then (bail ''failed to stat'', st)
      else if po_modes st path AND 0x1FF \<noteq> 0x180
      then (if pio_chmod_ok io then (Inr (), st \<lparr> po_modes := (po_modes st)(path := 0x180) \<rparr>)
            else (bail ''failed to set mode'', st))
      else (Inr (), st))"

definition save_policy_unlocked :: "policy_io \<Rightarrow> write_io \<Rightarrow> string \<Rightarrow> policy codec \<Rightarrow> string \<Rightarrow>
    policy \<Rightarrow> policy_store \<Rightarrow> unit result \<times> policy_store" where
  "save_policy_unlocked io wio temp cd state_dir p st =
     (if \<not> io_dir_ok io then (bail ''failed to create state dir'', st)
      else (case cd_encode cd p of
              None \<Rightarrow> (bail ''failed to serialize policy'', st)
            | Some raw \<Rightarrow>
                let path = policy_path state_dir;
                    (w, fs) = write_file_atomic wio path temp raw (po_files st);
                    st' = st \<lparr> po_files := fs,
                      po_modes := (if fs path = Some (raw, wi_fp wio)
                                   then (po_modes st)(path := 0x180) else po_modes st) \<rparr>
                in (case w of
                      Inl err \<Rightarrow> (Inl (Context ''failed to write policy'' err), st')
                    | Inr _ \<Rightarrow> ensure_policy_permissions io path st')))"

definition load_policy_unlocked :: "policy_io \<Rightarrow> policy codec \<Rightarrow> string \<Rightarrow> policy_store \<Rightarrow> policy result" where
  "load_policy_unlocked io cd state_dir st =
     (case po_files st (policy_path state_dir) of
        None \<Rightarrow> bail ''failed to read policy''
      | Some (raw, fp) \<Rightarrow>
          if io_read_ok io then ok_or (Message ''invalid policy'') (cd_decode cd raw)
          else bail ''failed to read policy'')"

definition init_policy :: "policy_io \<Rightarrow> policy codec \<Rightarrow> string \<Rightarrow> policy_store \<Rightarrow>
    unit result \<times> policy_store" where
  "init_policy io cd state_dir st =
     (let path = policy_path state_dir in
      if po_files st path \<noteq> None then ensure_policy_permissions io path st
      else (case save_policy_unlocked io (io_init_write io) (io_init_temp io) cd state_dir
                   policy_default st of
              (Inl err, st') \<Rightarrow> (Inl err, st')
            | (Inr _, st') \<Rightarrow> ensure_policy_permissions io path st'))"

definition ensure_policy :: "policy_io \<Rightarrow> policy codec \<Rightarrow> string \<Rightarrow> policy_store \<Rightarrow>
    unit result \<times> policy_store" where
  "ensure_policy io cd state_dir st =
     (let path = policy_path state_dir in
      if \<not> io_dir_ok io then (bail ''failed to create state dir'', st)
      else if po_files st path \<noteq> None then ensure_policy_permissions io path st
      else with_file_lock (io_init_lock io) (init_policy io cd state_dir) st)"

definition read_policy_locked :: "policy_io \<Rightarrow> policy codec \<Rightarrow> string \<Rightarrow> (policy \<Rightarrow> 'a result) \<Rightarrow>
    policy_store \<Rightarrow> 'a result \<times> policy_store" where
  "read_policy_locked io cd state_dir operation st =
     (case load_policy_unlocked io cd state_dir st of
        Inl err \<Rightarrow> (Inl err, st)
      | Inr p \<Rightarrow>
          (case update_policy_cache io (policy_path state_dir) p st of
             (Inl err, st') \<Rightarrow> (Inl err, st')
           | (Inr _, st') \<Rightarrow> (operation p, st')))"

definition with_policy :: "policy_io \<Rightarrow> policy codec \<Rightarrow> string \<Rightarrow> (policy \<Rightarrow> 'a result) \<Rightarrow>
    policy_store \<Rightarrow> 'a result \<times> policy_store" where
  "with_policy io cd state_dir operation st0 =
     (case ensure_policy io cd state_dir st0 of
        (Inl err, st) \<Rightarrow> (Inl err, st)
      | (Inr _, st) \<Rightarrow>
          (case cached_policy io (policy_path state_dir) st of
             Inl err \<Rightarrow> (Inl err, st)
           | Inr (Some p) \<Rightarrow> (operation p, st)
           | Inr None \<Rightarrow> with_file_lock (io_lock io) (read_policy_locked io cd state_dir operation) st))"

definition load_policy :: "policy_io \<Rightarrow> policy codec \<Rightarrow> string \<Rightarrow> policy_store \<Rightarrow>
    policy result \<times> policy_store" where
  "load_policy io cd state_dir st = with_policy io cd state_dir Inr st"

definition commit_policy :: "policy_io \<Rightarrow> policy codec \<Rightarrow> string \<Rightarrow> (policy \<Rightarrow> policy result) \<Rightarrow>
    policy_store \<Rightarrow> policy result \<times> policy_store" where
  "commit_policy io cd state_dir edit st =
     (case load_policy_unlocked io cd state_dir st of
        Inl err \<Rightarrow> (Inl err, st)
      | Inr p \<Rightarrow>
          (case edit p of
             Inl err \<Rightarrow> (Inl err, st)
           | Inr p' \<Rightarrow>
               (case save_policy_unlocked io (io_write io) (io_temp io) cd state_dir p' st of
                  (Inl err, st') \<Rightarrow> (Inl err, st')
                | (Inr _, st') \<Rightarrow>
                    (case update_policy_cache io (policy_path state_dir) p' st' of
                       (Inl err, st'') \<Rightarrow> (Inl err, st'')
                     | (Inr _, st'') \<Rightarrow> (Inr p', st'')))))"

text \<open>Every edit returns a clone of the policy it stored, so one result serves as both.\<close>

definition with_policy_mut :: "policy_io \<Rightarrow> policy codec \<Rightarrow> string \<Rightarrow> (policy \<Rightarrow> policy result) \<Rightarrow>
    policy_store \<Rightarrow> policy result \<times> policy_store" where
  "with_policy_mut io cd state_dir edit st0 =
     (case ensure_policy io cd state_dir st0 of
        (Inl err, st) \<Rightarrow> (Inl err, st)
      | (Inr _, st) \<Rightarrow> with_file_lock (io_lock io) (commit_policy io cd state_dir edit) st)"

section \<open>A committed edit is what later loads return\<close>

definition decode_policy :: "policy codec \<Rightarrow> string \<Rightarrow> policy result" where
  "decode_policy cd raw = ok_or (Message ''invalid policy'') (cd_decode cd raw)"

definition policy_coherent :: "policy codec \<Rightarrow> policy_store \<Rightarrow> bool" where
  "policy_coherent cd st = coherent policy_hit (decode_policy cd) (po_files st) (po_cache st)"

definition stored_policy :: "policy codec \<Rightarrow> string \<Rightarrow> policy_store \<Rightarrow> policy \<Rightarrow> bool" where
  "stored_policy cd path st p \<longleftrightarrow> (\<exists>raw fp. po_files st path = Some (raw, fp) \<and> decode_policy cd raw = Inr p)"

lemma permissions_frame:
  assumes "ensure_policy_permissions io path st = (r, st')"
  shows "po_files st' = po_files st \<and> po_cache st' = po_cache st \<and>
     (is_ok r \<longrightarrow> po_modes st' path AND 0x1FF = 0x180)"
  using assms by (auto simp: ensure_policy_permissions_def bail_def split: if_splits)

lemma load_policy_unlocked_iff:
  "load_policy_unlocked io cd dir st = Inr p \<longleftrightarrow> io_read_ok io \<and> stored_policy cd (policy_path dir) st p"
  by (auto simp: load_policy_unlocked_def stored_policy_def decode_policy_def bail_def
      split: option.splits)

lemma update_policy_cache_coherent:
  assumes "stored_policy cd path st p" "update_policy_cache io path p st = (r, st')"
    and "policy_coherent cd st"
  shows "policy_coherent cd st' \<and> po_files st' = po_files st"
  using assms pcache.coherent_put [of "po_files st" path _ _ "decode_policy cd" p]
  by (auto simp: update_policy_cache_def policy_coherent_def stored_policy_def policy_fingerprint_def
      bail_def split: option.splits if_splits sum.splits)

lemma save_policy_spec:
  assumes cd: "codec_faithful cd"
    and save: "save_policy_unlocked io wio temp cd dir p st = (Inr u, st')"
  shows "stored_policy cd (policy_path dir) st' p \<and> po_cache st' = po_cache st \<and>
     po_modes st' (policy_path dir) AND 0x1FF = 0x180"
proof -
  let ?path = "policy_path dir"
  obtain raw where raw: "cd_encode cd p = Some raw"
    using save by (auto simp: save_policy_unlocked_def bail_def split: if_splits option.splits)
  obtain w fs where w: "write_file_atomic wio ?path temp raw (po_files st) = (w, fs)" by fastforce
  define st1 where "st1 = st \<lparr> po_files := fs,
      po_modes := (if fs ?path = Some (raw, wi_fp wio) then (po_modes st)(?path := 0x180) else po_modes st) \<rparr>"
  have perms: "ensure_policy_permissions io ?path st1 = (Inr u, st')" and ok: "w = Inr ()"
    using save raw w by (auto simp: save_policy_unlocked_def bail_def st1_def Let_def
        split: if_splits sum.splits)
  have "fs ?path = Some (raw, wi_fp wio)" using write_file_atomic_ok w ok by blast
  moreover have "cd_decode cd raw = Some p" using cd raw by (simp add: codec_faithful_def)
  ultimately show ?thesis
    using permissions_frame [OF perms] by (simp add: st1_def stored_policy_def decode_policy_def)
qed

lemma commit_policy_spec:
  assumes cd: "codec_faithful cd" and run: "commit_policy io cd dir edit st = (Inr p', st')"
  shows "(\<exists>p. stored_policy cd (policy_path dir) st p \<and> edit p = Inr p') \<and>
     stored_policy cd (policy_path dir) st' p' \<and> policy_coherent cd st' \<and>
     po_modes st' (policy_path dir) AND 0x1FF = 0x180"
proof -
  let ?path = "policy_path dir"
  obtain p st1 u where l: "load_policy_unlocked io cd dir st = Inr p" "edit p = Inr p'"
    "save_policy_unlocked io (io_write io) (io_temp io) cd dir p' st = (u, st1)" "is_ok u"
    "update_policy_cache io ?path p' st1 = (Inr (), st')"
    using run by (auto simp: commit_policy_def split: sum.splits prod.splits)
  from l(3,4) have s: "stored_policy cd ?path st1 p'" "po_modes st1 ?path AND 0x1FF = 0x180"
    using save_policy_spec [OF cd] by (auto simp: is_ok_iff)
  obtain fp where fp: "st' = st1 \<lparr> po_cache := policy_put ?path fp p' (po_cache st1) \<rparr>"
      "policy_fingerprint io ?path (po_files st1) = Inr fp"
    using l(5) by (auto simp: update_policy_cache_def split: sum.splits)
  have "policy_coherent cd st'"
    using s(1) fp pcache.coherent_put [of "po_files st1" ?path _ fp "decode_policy cd" p']
    by (auto simp: policy_coherent_def stored_policy_def policy_fingerprint_def bail_def
        split: if_splits)
  with s l(1,2) fp(1) show ?thesis
    by (auto simp: load_policy_unlocked_iff stored_policy_def)
qed

lemma ensure_policy_existing:
  assumes "stored_policy cd (policy_path dir) st p" "ensure_policy io cd dir st = (r, st')"
  shows "po_files st' = po_files st \<and> po_cache st' = po_cache st"
  using assms permissions_frame
  by (auto simp: ensure_policy_def Let_def stored_policy_def split: if_splits)

lemma stored_policy_unique: "stored_policy cd path st p \<Longrightarrow> stored_policy cd path st q \<Longrightarrow> p = q"
  by (auto simp: stored_policy_def)

lemma load_policy_stored:
  assumes stored: "stored_policy cd (policy_path dir) st p" and coh: "policy_coherent cd st"
    and run: "load_policy io cd dir st = (Inr q, st')"
  shows "q = p"
proof -
  let ?path = "policy_path dir"
  obtain e st1 where ens: "ensure_policy io cd dir st = (e, st1)" by fastforce
  have f: "po_files st1 = po_files st" "po_cache st1 = po_cache st"
    using ensure_policy_existing [OF stored ens] by simp_all
  have st1: "stored_policy cd ?path st1 p" "policy_coherent cd st1"
    using stored coh f by (simp_all add: stored_policy_def policy_coherent_def)
  obtain c where c: "cached_policy io ?path st1 = Inr c"
    using run ens by (auto simp: load_policy_def with_policy_def split: sum.splits)
  show ?thesis
  proof (cases c)
    case (Some p1)
    then have "q = p1" using run ens c by (auto simp: load_policy_def with_policy_def split: sum.splits)
    moreover obtain raw fp where "po_files st1 ?path = Some (raw, fp)" "decode_policy cd raw = Inr p"
      using st1(1) by (auto simp: stored_policy_def)
    moreover have "policy_hit ?path fp (po_cache st1) = Some p1"
      using c Some calculation(2)
      by (auto simp: cached_policy_def policy_fingerprint_def result_simps split: if_splits)
    ultimately show ?thesis
      using pcache.coherent_hit [of "decode_policy cd" "po_files st1" "po_cache st1" ?path raw fp p1] st1(2)
      by (simp add: policy_coherent_def)
  next
    case None
    then have "with_file_lock (io_lock io) (read_policy_locked io cd dir Inr) st1 = (Inr q, st')"
      using run ens c by (auto simp: load_policy_def with_policy_def split: sum.splits)
    then have "read_policy_locked io cd dir Inr st1 = (Inr q, st')"
      using with_file_lock_ok [of "io_lock io" "read_policy_locked io cd dir Inr" st1 q st'] by simp
    then have "load_policy_unlocked io cd dir st1 = Inr q"
      by (auto simp: read_policy_locked_def split: sum.splits prod.splits)
    then show ?thesis using st1(1) stored_policy_unique by (auto simp: load_policy_unlocked_iff)
  qed
qed

lemma with_policy_mut_spec:
  assumes cd: "codec_faithful cd" and run: "with_policy_mut io cd dir edit st = (Inr p', st')"
  shows "(\<exists>p. edit p = Inr p') \<and> stored_policy cd (policy_path dir) st' p' \<and> policy_coherent cd st' \<and>
     po_modes st' (policy_path dir) AND 0x1FF = 0x180"
proof -
  obtain st1 where "with_file_lock (io_lock io) (commit_policy io cd dir edit) st1 = (Inr p', st')"
    using run by (auto simp: with_policy_mut_def split: sum.splits prod.splits)
  then have "commit_policy io cd dir edit st1 = (Inr p', st')"
    using with_file_lock_ok [of "io_lock io" "commit_policy io cd dir edit" st1 p' st'] by simp
  then show ?thesis using commit_policy_spec [OF cd] by blast
qed

text \<open>A committed policy edit is durable and private. Every later load, cached or not, returns the
  policy the edit produced, and the policy file is left readable and writable by its owner only.\<close>

lemma committed_policy_edit:
  assumes "codec_faithful cd" "with_policy_mut io cd dir edit st = (Inr p', st')"
    and "load_policy io' cd dir st' = (Inr q, st'')"
  shows "q = p' \<and> po_modes st' (policy_path dir) AND 0x1FF = 0x180"
  using with_policy_mut_spec [OF assms(1,2)] load_policy_stored [OF _ _ assms(3)] by blast

text \<open>C10: a deny rule is enforced end to end. Once adding it has succeeded, the next authorization of a
  matching action for that uid fails, whatever the cache held before and whatever fails while the
  policy is loaded; only root and the listed exempt actions are outside the policy.\<close>

theorem deny_rule_enforced:
  assumes cd: "codec_faithful cd"
    and run: "with_policy_mut io cd dir (add_deny_rule (Some uid) pattern) st = (Inr p', st')"
    and "matches_pattern pattern action" "uid \<noteq> 0" "\<not> is_policy_exempt action"
  shows "\<not> is_ok (authorize (fst (load_policy io' cd dir st')) uid action)"
proof (cases "fst (load_policy io' cd dir st')")
  case (Inl e)
  then show ?thesis using assms by (auto simp: authorize_def bail_def)
next
  case (Inr q)
  then obtain st'' where "load_policy io' cd dir st' = (Inr q, st'')" by (metis prod.collapse)
  then have "q = p'" using with_policy_mut_spec [OF cd run] load_policy_stored by blast
  moreover obtain p where "add_deny_rule (Some uid) pattern p = Inr p'"
    using with_policy_mut_spec [OF cd run] by blast
  then have "denied_by p' (Some uid) action"
    using deny_in_upsert [of "Some uid" pattern "pol_rules p"] assms(3)
    by (auto simp: edit_defs result_simps denied_by_def)
  ultimately show ?thesis
    using Inr assms(4,5) by (simp add: authorize_def decision_spec bail_def)
qed

definition denied7 :: policy where
  "denied7 = policy_default \<lparr> pol_rules := [new_rule (Some 7) ''workspace.*'' False] \<rparr>"

definition sample_policy_codec :: "policy codec" where
  "sample_policy_codec =
     \<lparr> cd_decode = (\<lambda>raw. if raw = ''p0'' then Some policy_default
         else if raw = ''p1'' then Some denied7 else None),
       cd_encode = (\<lambda>p. if p = policy_default then Some ''p0''
         else if p = denied7 then Some ''p1'' else None) \<rparr>"

definition sample_policy_io :: policy_io where
  "sample_policy_io = store_io.extend sample_io \<lparr> pio_mode_stat_ok = True, pio_chmod_ok = True \<rparr>"

definition sample_policy_store :: policy_store where
  "sample_policy_store =
     \<lparr> po_files = [''/d/policy.json'' \<mapsto> (''p0'', sample_fp)], po_modes = (\<lambda>_. 0x1A4),
       po_cache = None \<rparr>"

lemma sample_policy_codec_faithful: "codec_faithful sample_policy_codec"
  by (simp add: codec_faithful_def sample_policy_codec_def denied7_def)

lemma sample_policy_edit:
  "\<exists>st'. with_policy_mut sample_policy_io sample_policy_codec ''/d''
     (add_deny_rule (Some 7) ''workspace.*'') sample_policy_store = (Inr denied7, st')"
proof -
  have edit: "add_deny_rule (Some 7) ''workspace.*'' policy_default = Inr denied7"
    unfolding denied7_def by code_simp
  have "denied7 \<noteq> policy_default" by (simp add: denied7_def policy_default_def)
  then show ?thesis
    by (simp add: with_policy_mut_def ensure_policy_def policy_path_def join_path_def
        sample_policy_io_def sample_io_def store_io.defs sample_policy_store_def
        ensure_policy_permissions_def free_lock_runs commit_policy_def load_policy_unlocked_def
        sample_policy_codec_def edit save_policy_unlocked_def write_file_atomic_def
        write_file_atomic_with_def all_ok_def update_policy_cache_def policy_fingerprint_def Let_def)
qed

theorem deny_rule_enforced_witness:
  "\<exists>st'. \<not> is_ok (authorize (fst (load_policy sample_policy_io sample_policy_codec ''/d'' st'))
     7 ''workspace.stop'')"
proof -
  obtain st' where run: "with_policy_mut sample_policy_io sample_policy_codec ''/d''
      (add_deny_rule (Some 7) ''workspace.*'') sample_policy_store = (Inr denied7, st')"
    using sample_policy_edit by blast
  have "matches_pattern ''workspace.*'' ''workspace.stop''" by code_simp
  moreover have "\<not> is_policy_exempt ''workspace.stop''"
    by (simp add: is_policy_exempt_def POLICY_EXEMPT_ACTIONS_def)
  ultimately show ?thesis
    using deny_rule_enforced [OF sample_policy_codec_faithful run, of "''workspace.stop''"] by auto
qed

end
