(* ===== verification/Rate_Limiter.thy ===== *)
theory Rate_Limiter
  imports Enclave_Prelude
begin

text \<open>
  The request rate limiter of \<open>daemon/rate_limiter.rs\<close>: a fixed window per uid and one for all uids
  together. An \<open>Instant\<close> is a \<^typ>\<open>nat\<close> and \<open>duration_since\<close> is truncated subtraction, which is what
  the standard library gives for an earlier instant. The locale \<open>window_counter\<close> is the contract of
  one fixed window; it is interpreted on the global window and on the window of a uid, and its
  lemmas bound how many requests any interval of the window's length can admit.
\<close>

section \<open>The limiter\<close>

record rate_limit_state =
  rl_window_started :: nat
  rl_count :: nat

record rate_limiter =
  rt_window :: nat
  rt_max_requests :: nat
  rt_per_uid :: "u32 \<rightharpoonup> rate_limit_state"
  rt_global :: rate_limit_state
  rt_global_max_requests :: nat

definition with_global_limit :: "nat \<Rightarrow> nat \<Rightarrow> nat \<Rightarrow> nat \<Rightarrow> rate_limiter" where
  "with_global_limit window max_requests global_max_requests now =
     \<lparr> rt_window = window, rt_max_requests = max_requests, rt_per_uid = Map.empty,
       rt_global = \<lparr> rl_window_started = now, rl_count = 0 \<rparr>,
       rt_global_max_requests = global_max_requests \<rparr>"

text \<open>The window test, the count test and the increment, which both methods repeat.\<close>

definition window_admit :: "nat \<Rightarrow> nat \<Rightarrow> nat \<Rightarrow> rate_limit_state \<Rightarrow> bool \<times> rate_limit_state" where
  "window_admit window most now s =
     (let s = (if now - rl_window_started s \<ge> window
               then \<lparr> rl_window_started = now, rl_count = 0 \<rparr> else s) in
      if rl_count s \<ge> most then (False, s) else (True, s\<lparr> rl_count := rl_count s + 1 \<rparr>))"

definition allow_global :: "nat \<Rightarrow> rate_limiter \<Rightarrow> bool \<times> rate_limiter" where
  "allow_global now l =
     (let (ok, s) = window_admit (rt_window l) (rt_global_max_requests l) now (rt_global l) in
      (ok, l\<lparr> rt_global := s \<rparr>))"

definition uid_entry :: "nat \<Rightarrow> u32 \<Rightarrow> rate_limiter \<Rightarrow> rate_limit_state" where
  "uid_entry now uid l =
     (case rt_per_uid l uid of
        None \<Rightarrow> \<lparr> rl_window_started = now, rl_count = 0 \<rparr>
      | Some s \<Rightarrow> s)"

definition allow_per_uid :: "nat \<Rightarrow> u32 \<Rightarrow> rate_limiter \<Rightarrow> bool \<times> rate_limiter" where
  "allow_per_uid now uid l =
     (let (ok, s) = window_admit (rt_window l) (rt_max_requests l) now (uid_entry now uid l) in
      (ok, l\<lparr> rt_per_uid := (rt_per_uid l)(uid \<mapsto> s) \<rparr>))"

text \<open>\<open>allow\<close> reads the clock once for each window.\<close>

definition allow :: "nat \<Rightarrow> nat \<Rightarrow> u32 \<Rightarrow> rate_limiter \<Rightarrow> bool \<times> rate_limiter" where
  "allow now now' uid l =
     (let (ok, l) = allow_global now l in
      if \<not> ok then (False, l) else allow_per_uid now' uid l)"

section \<open>One fixed window\<close>

text \<open>
  \<open>admits\<close> lists the admitted calls of a sequence of calls, each with the start of the window that
  admitted it. The laws are those of a fixed window: an admission counts inside the current window,
  or a new window starts at least one length after the current one.
\<close>

locale window_counter =
  fixes step :: "nat \<Rightarrow> 's \<Rightarrow> bool \<times> 's"
    and start :: "'s \<Rightarrow> nat"
    and used :: "'s \<Rightarrow> nat"
    and len :: nat
    and most :: nat
  assumes keep: "now - start s < len \<Longrightarrow> start (snd (step now s)) = start s"
    and renew: "len \<le> now - start s \<Longrightarrow> start (snd (step now s)) = now"
    and count_keep: "now - start s < len \<Longrightarrow>
      used (snd (step now s)) = used s + (if fst (step now s) then 1 else 0)"
    and count_renew: "len \<le> now - start s \<Longrightarrow>
      used (snd (step now s)) = (if fst (step now s) then 1 else 0)"
    and capped: "fst (step now s) \<Longrightarrow> used (snd (step now s)) \<le> most"
begin

fun admits :: "'s \<Rightarrow> nat list \<Rightarrow> (nat \<times> nat) list" where
  "admits s [] = []"
| "admits s (t # ts) =
     (let r = step t s in (if fst r then [(start (snd r), t)] else []) @ admits (snd r) ts)"

lemma start_cases: "start (snd (step t s)) = start s \<or>
    (len \<le> t - start s \<and> start (snd (step t s)) = t)"
  using keep renew by (cases "t - start s < len") auto

lemma starts_later:
  "(w, t) \<in> set (admits s ts) \<Longrightarrow> w = start s \<or> start s + len \<le> w \<or> len = 0"
proof (induction ts arbitrary: s)
  case (Cons a ts)
  then show ?case
    using start_cases [of a s] by (auto simp: Let_def split: if_splits) fastforce+
qed simp

lemma starts_apart:
  "(w, t) \<in> set (admits s ts) \<Longrightarrow> (v, u) \<in> set (admits s ts) \<Longrightarrow> w < v \<Longrightarrow> w + len \<le> v \<or> len = 0"
proof (induction ts arbitrary: s)
  case (Cons a ts)
  let ?s = "snd (step a s)"
  consider "(w, t) \<in> set (admits ?s ts)" "(v, u) \<in> set (admits ?s ts)"
    | "w = start ?s" "(v, u) \<in> set (admits ?s ts)"
    | "(w, t) \<in> set (admits ?s ts)" "v = start ?s"
    | "w = start ?s" "v = start ?s"
    using Cons.prems by (auto simp: Let_def split: if_splits)
  then show ?case
    using Cons.IH [of ?s] Cons.prems(3) starts_later [of v u ?s ts] starts_later [of w t ?s ts]
    by cases auto
qed simp

lemma within_window:
  assumes "start s \<le> hd (ts @ [start s])" "sorted ts" "0 < len"
  shows "(w, t) \<in> set (admits s ts) \<Longrightarrow> w \<le> t \<and> t < w + len"
  using assms
proof (induction ts arbitrary: s)
  case (Cons a ts)
  have le: "start (snd (step a s)) \<le> a" "a - start (snd (step a s)) < len"
    using Cons.prems(2,4) keep [of a s] renew [of a s] by (cases "a - start s < len"; simp)+
  have "start (snd (step a s)) \<le> hd (ts @ [start (snd (step a s))])"
    using le Cons.prems(3) by (cases ts) auto
  then show ?case
    using Cons.IH [of "snd (step a s)"] Cons.prems le by (auto simp: Let_def split: if_splits)
qed simp

definition in_window :: "nat \<Rightarrow> (nat \<times> nat) list \<Rightarrow> nat" where
  "in_window w xs = length (filter (\<lambda>(v, t). v = w) xs)"

lemma in_window_Nil [simp]: "in_window w [] = 0"
  by (simp add: in_window_def)

lemma in_window_Cons [simp]:
  "in_window w ((v, t) # xs) = (if v = w then 1 else 0) + in_window w xs"
  by (simp add: in_window_def)

lemma in_window_none: "(\<And>v t. (v, t) \<in> set xs \<Longrightarrow> v \<noteq> w) \<Longrightarrow> in_window w xs = 0"
  by (auto simp: in_window_def filter_empty_conv)

lemma count_current:
  "0 < len \<Longrightarrow> used s \<le> most \<Longrightarrow> used s + in_window (start s) (admits s ts) \<le> most"
proof (induction ts arbitrary: s)
  case (Cons a ts)
  let ?s = "snd (step a s)"
  show ?case
  proof (cases "a - start s < len")
    case True
    then show ?thesis
      using Cons.IH [of ?s] Cons.prems keep [OF True] count_keep [OF True] capped [of a s]
      by (auto simp: Let_def)
  next
    case False
    have "start s < start ?s" using False Cons.prems(1) renew [of a s] by simp
    then have "in_window (start s) (admits ?s ts) = 0"
      using starts_later [of _ _ ?s ts] Cons.prems(1) by (intro in_window_none) fastforce
    then show ?thesis using \<open>start s < start ?s\<close> Cons.prems by (auto simp: Let_def)
  qed
qed simp

lemma count_any:
  "0 < len \<Longrightarrow> used s \<le> most \<Longrightarrow> in_window w (admits s ts) \<le> most"
proof (induction ts arbitrary: s)
  case (Cons a ts)
  let ?s = "snd (step a s)"
  have used: "used ?s \<le> most"
  proof (cases "fst (step a s)")
    case False
    then show ?thesis
      using Cons.prems(2) count_keep [of a s] count_renew [of a s]
      by (cases "a - start s < len") auto
  qed (rule capped)
  show ?case
  proof (cases "fst (step a s) \<and> w = start ?s")
    case True
    have "1 \<le> used ?s"
      using True count_keep [of a s] count_renew [of a s] by (cases "a - start s < len") auto
    then show ?thesis
      using True count_current [OF Cons.prems(1) used, of ts] by (simp add: Let_def)
  next
    case False
    then show ?thesis using Cons.IH [OF Cons.prems(1) used] by (auto simp: Let_def)
  qed
qed simp

lemma card_separated:
  assumes fin: "finite X" and apart: "\<And>a b. a \<in> X \<Longrightarrow> b \<in> X \<Longrightarrow> a < b \<Longrightarrow> a + len \<le> b"
    and range: "\<And>a. a \<in> X \<Longrightarrow> t < a + len \<and> a < t + len"
  shows "card X \<le> 2"
proof (rule ccontr)
  assume "\<not> card X \<le> 2"
  then obtain Y where "Y \<subseteq> X" "card Y = 3"
    by (metis Suc_leI not_le numeral_2_eq_2 numeral_3_eq_3 obtain_subset_with_card_n)
  then obtain a b c where "a \<in> X" "b \<in> X" "c \<in> X" "a \<noteq> b" "b \<noteq> c" "a \<noteq> c"
    by (auto simp: card_3_iff)
  moreover have "\<not> (x < y \<and> y < z)" if "x \<in> X" "y \<in> X" "z \<in> X" for x y z
    using apart [OF that(1,2)] apart [OF that(2,3)] range [OF that(1)] range [OF that(3)] by linarith
  ultimately show False by (metis linorder_neqE_nat)
qed

lemma length_filter_mono:
  "(\<And>x. x \<in> set xs \<Longrightarrow> P x \<Longrightarrow> Q x) \<Longrightarrow> length (filter P xs) \<le> length (filter Q xs)"
  by (induction xs) (simp_all add: le_SucI)

lemma count_by_starts:
  assumes "finite X" "\<And>w. in_window w xs \<le> most" "\<And>v t. (v, t) \<in> set xs \<Longrightarrow> P t \<Longrightarrow> v \<in> X"
  shows "length (filter (\<lambda>(v, t). P t) xs) \<le> card X * most"
proof -
  have "length (filter (\<lambda>(v, t). P t) xs) \<le> length (filter (\<lambda>(v, t). v \<in> X) xs)"
    using assms(3) by (intro length_filter_mono) auto
  also have "\<dots> = (\<Sum>w\<in>X. in_window w xs)"
    using assms(1)
    by (induction xs) (auto simp: sum.distrib)
  also have "\<dots> \<le> (\<Sum>w\<in>X. most)" by (rule sum_mono) (rule assms(2))
  also have "\<dots> = card X * most" by simp
  finally show ?thesis .
qed

lemma sliding_bound:
  assumes "sorted ts" "start s \<le> hd (ts @ [start s])" "used s \<le> most"
  shows "length (filter (\<lambda>(w, t). lo \<le> t \<and> t < lo + len) (admits s ts)) \<le> 2 * most"
proof (cases "len = 0")
  case False
  then have pos: "0 < len" by simp
  let ?xs = "admits s ts"
  let ?X = "{w. \<exists>t. (w, t) \<in> set ?xs \<and> lo \<le> t \<and> t < lo + len}"
  have fin: "finite ?X"
    by (rule finite_subset [of _ "fst ` set ?xs"]) force+
  have "length (filter (\<lambda>(w, t). lo \<le> t \<and> t < lo + len) ?xs) \<le> card ?X * most"
    by (rule count_by_starts [OF fin count_any [OF pos assms(3)]]) auto
  moreover have "card ?X \<le> 2"
  proof (rule card_separated [OF fin])
    show "a + len \<le> b" if "a \<in> ?X" "b \<in> ?X" "a < b" for a b
      using that starts_apart [of a _ s ts b] pos by blast
    show "lo < a + len \<and> a < lo + len" if "a \<in> ?X" for a
      using that within_window [OF assms(2,1) pos, of a] by fastforce
  qed
  ultimately show ?thesis by (meson le_trans mult_le_mono1)
next
  case True
  then have "filter (\<lambda>(w, t). lo \<le> t \<and> t < lo + len) (admits s ts) = []"
    by (auto simp: filter_empty_conv)
  then show ?thesis by simp
qed

end

interpretation fixed: window_counter "window_admit len most" rl_window_started rl_count len most
  for len most
  by unfold_locales (auto simp: window_admit_def Let_def)

section \<open>Sequences of requests\<close>

text \<open>
  A call carries the two clock readings of \<open>allow\<close> and the uid; \<open>served\<close> lists the calls a limiter
  lets through.
\<close>

type_synonym call = "nat \<times> nat \<times> u32"

fun served :: "rate_limiter \<Rightarrow> call list \<Rightarrow> call list" where
  "served l [] = []"
| "served l ((now, now', uid) # cs) =
     (let (ok, l') = allow now now' uid l in (if ok then [(now, now', uid)] else []) @ served l' cs)"

fun limiter_after :: "rate_limiter \<Rightarrow> call list \<Rightarrow> rate_limiter" where
  "limiter_after l [] = l"
| "limiter_after l ((now, now', uid) # cs) = limiter_after (snd (allow now now' uid l)) cs"

text \<open>The readings at which a uid's window is consulted: its calls that pass the global window.\<close>

fun uid_attempts :: "u32 \<Rightarrow> rate_limiter \<Rightarrow> call list \<Rightarrow> nat list" where
  "uid_attempts u l [] = []"
| "uid_attempts u l ((now, now', uid) # cs) =
     (if uid = u \<and> fst (allow_global now l) then [now'] else []) @
     uid_attempts u (snd (allow now now' uid l)) cs"

lemma allow_parameters [simp]:
  "rt_window (snd (allow now now' uid l)) = rt_window l"
  "rt_max_requests (snd (allow now now' uid l)) = rt_max_requests l"
  "rt_global_max_requests (snd (allow now now' uid l)) = rt_global_max_requests l"
  by (simp_all add: allow_def allow_global_def allow_per_uid_def Let_def case_prod_unfold)

lemma limiter_after_parameters [simp]:
  "rt_window (limiter_after l cs) = rt_window l"
  "rt_global_max_requests (limiter_after l cs) = rt_global_max_requests l"
  by (induction l cs rule: limiter_after.induct) auto

lemma allow_global_state:
  "rt_global (snd (allow now now' uid l)) =
     snd (window_admit (rt_window l) (rt_global_max_requests l) now (rt_global l))"
  by (simp add: allow_def allow_global_def allow_per_uid_def Let_def case_prod_unfold)

lemma allow_uid_state:
  "rt_per_uid (snd (allow now now' uid l)) u =
     (if u = uid \<and> fst (allow_global now l)
      then Some (snd (window_admit (rt_window l) (rt_max_requests l) now' (uid_entry now' uid l)))
      else rt_per_uid l u)"
  by (simp add: allow_def allow_global_def allow_per_uid_def uid_entry_def Let_def
      split: prod.split)

lemma allow_result:
  "fst (allow now now' uid l) \<longleftrightarrow>
     fst (window_admit (rt_window l) (rt_global_max_requests l) now (rt_global l)) \<and>
     fst (window_admit (rt_window l) (rt_max_requests l) now' (uid_entry now' uid l))"
  by (auto simp: allow_def allow_global_def allow_per_uid_def uid_entry_def Let_def
      split: prod.split)

lemma allow_global_result:
  "fst (allow_global now l) =
     fst (window_admit (rt_window l) (rt_global_max_requests l) now (rt_global l))"
  by (simp add: allow_global_def Let_def split: prod.split)

lemma served_Cons:
  "served l ((now, now', uid) # cs) =
     (if fst (allow now now' uid l) then [(now, now', uid)] else []) @
     served (snd (allow now now' uid l)) cs"
  by (simp add: Let_def split: prod.split)

declare served.simps(2) [simp del]

lemma served_uid:
  "map (\<lambda>(now, now', uid). now') (filter (\<lambda>(now, now', uid). uid = u) (served l cs)) =
     map snd (fixed.admits (rt_window l) (rt_max_requests l)
       (uid_entry (hd (uid_attempts u l cs)) u l) (uid_attempts u l cs))"
proof (induction cs arbitrary: l)
  case (Cons c cs)
  obtain now now' uid where c: "c = (now, now', uid)" by (cases c) auto
  let ?l = "snd (allow now now' uid l)"
  show ?case
  proof (cases "uid = u \<and> fst (allow_global now l)")
    case True
    then have "uid_entry t u ?l =
        snd (window_admit (rt_window l) (rt_max_requests l) now' (uid_entry now' u l))" for t
      by (simp add: uid_entry_def allow_uid_state)
    then show ?thesis
      using True Cons.IH [of ?l] c by (auto simp: served_Cons allow_result allow_global_result Let_def)
  next
    case False
    then have "uid_entry t u ?l = uid_entry t u l" for t
      by (auto simp: uid_entry_def allow_uid_state)
    then show ?thesis
      using False Cons.IH [of ?l] c by (auto simp: served_Cons allow_result allow_global_result)
  qed
qed simp

lemma served_global:
  "length (filter (\<lambda>(now, now', uid). P now) (served l cs)) \<le>
     length (filter (\<lambda>(w, t). P t)
       (fixed.admits (rt_window l) (rt_global_max_requests l) (rt_global l) (map fst cs)))"
proof (induction cs arbitrary: l)
  case (Cons c cs)
  obtain now now' uid where c: "c = (now, now', uid)" by (cases c) auto
  show ?case
    using Cons.IH [of "snd (allow now now' uid l)"] c
    by (simp add: served_Cons allow_result allow_global_state Let_def)
qed simp

lemma uid_attempts_set: "set (uid_attempts u l cs) \<subseteq> set (map (\<lambda>(now, now', uid). now') cs)"
  by (induction u l cs rule: uid_attempts.induct) auto

lemma uid_attempts_sorted:
  "sorted (map (\<lambda>(now, now', uid). now') cs) \<Longrightarrow> sorted (uid_attempts u l cs)"
proof (induction u l cs rule: uid_attempts.induct)
  case (2 u l now now' uid cs)
  then show ?case using uid_attempts_set [of u "snd (allow now now' uid l)" cs]
    by (auto simp: subset_iff)
qed simp

lemma fresh_uid_bound:
  assumes "rt_per_uid l u = None" "sorted (map (\<lambda>(now, now', uid). now') cs)"
  shows "length (filter (\<lambda>(now, now', uid). uid = u \<and> lo \<le> now' \<and> now' < lo + rt_window l)
      (served l cs)) \<le> 2 * rt_max_requests l"
proof -
  let ?P = "\<lambda>t. lo \<le> t \<and> t < lo + rt_window l" and ?ts = "uid_attempts u l cs"
  have "filter (\<lambda>(now, now', uid). uid = u \<and> ?P now') (served l cs) =
      filter (\<lambda>(now, now', uid). ?P now') (filter (\<lambda>(now, now', uid). uid = u) (served l cs))"
    by (simp add: case_prod_unfold conj_commute)
  then have "length (filter (\<lambda>(now, now', uid). uid = u \<and> ?P now') (served l cs)) =
      length (filter ?P (map (\<lambda>(now, now', uid). now')
        (filter (\<lambda>(now, now', uid). uid = u) (served l cs))))"
    by (simp add: filter_map comp_def case_prod_unfold)
  also have "\<dots> = length (filter (\<lambda>(w, t). ?P t) (fixed.admits (rt_window l) (rt_max_requests l)
        \<lparr> rl_window_started = hd ?ts, rl_count = 0 \<rparr> ?ts))"
    unfolding served_uid
    using assms(1) by (simp add: filter_map comp_def case_prod_unfold uid_entry_def)
  also have "\<dots> \<le> 2 * rt_max_requests l"
    using uid_attempts_sorted [OF assms(2)] by (intro fixed.sliding_bound) (simp_all add: hd_append)
  finally show ?thesis .
qed



section \<open>Refused requests and the global window\<close>

lemma repeat_calls_global:
  assumes "now - rl_window_started (rt_global l) < rt_window l"
    and "rl_count (rt_global l) \<le> rt_global_max_requests l"
  shows "rt_global (limiter_after l (replicate n (now, now', uid))) =
    (rt_global l)\<lparr> rl_count := min (rl_count (rt_global l) + n) (rt_global_max_requests l) \<rparr>"
  using assms
proof (induction n arbitrary: l)
  case (Suc n)
  then show ?case
    by (simp add: allow_global_state window_admit_def Let_def)
qed simp

text \<open>C15: \<open>allow\<close> charges the global window before it asks the uid's own window, so requests that are
  refused for their uid still spend the budget of everyone: as many calls of one uid as the global
  limit, in one window, make the limiter refuse any other uid that has not sent a request.
\<close>

theorem one_uid_exhausts_global_window:
  assumes "began \<le> now" "now < began + window"
  shows "\<not> fst (allow now now other
    (limiter_after (with_global_limit window most global_most began)
      (replicate global_most (now, now, uid))))"
proof -
  let ?l = "with_global_limit window most global_most began"
  let ?l' = "limiter_after ?l (replicate global_most (now, now, uid))"
  have par: "rt_window ?l' = window" "rt_global_max_requests ?l' = global_most"
    unfolding limiter_after_parameters by (simp_all add: with_global_limit_def)
  have "rt_global ?l' = (rt_global ?l)\<lparr> rl_count := global_most \<rparr>"
    using assms repeat_calls_global [of now ?l global_most now uid]
    by (simp add: with_global_limit_def)
  moreover have "\<not> window \<le> now - began" using assms by simp
  ultimately have "\<not> fst (window_admit window global_most now (rt_global ?l'))"
    by (simp add: window_admit_def with_global_limit_def)
  then show ?thesis unfolding allow_result par by simp
qed

theorem one_uid_exhausts_global_window_witness:
  "\<not> fst (allow 1 1 8 (limiter_after (with_global_limit 2 1 3 0) (replicate 3 (1, 1, 7))))"
  using one_uid_exhausts_global_window [of 0 1 2 8 1 3 7] by simp

end
