(* ===== verification/Keyed_Counter.thy ===== *)
theory Keyed_Counter
  imports Enclave_Prelude
begin

text \<open>
  Counters kept in a \<open>HashMap\<close> by key, as the exec queue counts running commands per workspace and
  the activity service counts leases per workspace: an absent key counts zero, an increment inserts
  or adds one, and a decrement removes the entry that reaches zero. The locale \<open>keyed_counter\<close> is
  what their clients rely on.
\<close>

type_synonym 'k counters = "'k \<rightharpoonup> nat"

definition count_of :: "'k counters \<Rightarrow> 'k \<Rightarrow> nat" where
  "count_of m k = (case m k of None \<Rightarrow> 0 | Some n \<Rightarrow> n)"

text \<open>\<open>*m.entry(k).or_insert(0) += 1\<close>\<close>

definition count_up :: "'k \<Rightarrow> 'k counters \<Rightarrow> 'k counters" where
  "count_up k m = m(k \<mapsto> count_of m k + 1)"

text \<open>\<open>get_mut\<close>, \<open>saturating_sub(1)\<close>, and \<open>remove\<close> at zero.\<close>

definition count_down :: "'k \<Rightarrow> 'k counters \<Rightarrow> 'k counters" where
  "count_down k m =
     (case m k of
        None \<Rightarrow> m
      | Some n \<Rightarrow> if n - 1 = 0 then m(k := None) else m(k \<mapsto> n - 1))"

locale keyed_counter =
  fixes value_at :: "'m \<Rightarrow> 'k \<Rightarrow> nat"
    and up :: "'k \<Rightarrow> 'm \<Rightarrow> 'm"
    and down :: "'k \<Rightarrow> 'm \<Rightarrow> 'm"
  assumes up_at: "value_at (up k m) j = value_at m j + (if j = k then 1 else 0)"
    and down_at: "value_at (down k m) j = value_at m j - (if j = k then 1 else 0)"
begin

lemma up_down [simp]: "value_at (down k (up k m)) j = value_at m j"
  by (simp add: up_at down_at)

lemma down_up: "0 < value_at m k \<Longrightarrow> value_at (up k (down k m)) j = value_at m j"
  by (simp add: up_at down_at)

lemma other_key: "j \<noteq> k \<Longrightarrow> value_at (up k m) j = value_at m j \<and> value_at (down k m) j = value_at m j"
  by (simp add: up_at down_at)

text \<open>A key that is counted up once per holder and down once per release counts its holders.\<close>

lemma holders_up:
  "value_at m j = length (filter (\<lambda>h. h = j) hs) \<Longrightarrow>
   value_at (up k m) j = length (filter (\<lambda>h. h = j) (k # hs))"
  by (simp add: up_at)

lemma holders_down:
  "value_at m j = length (filter (\<lambda>h. h = j) hs) \<Longrightarrow> k \<in> set hs \<Longrightarrow>
   value_at (down k m) j = length (filter (\<lambda>h. h = j) (remove1 k hs))"
proof -
  assume c: "value_at m j = length (filter (\<lambda>h. h = j) hs)" and k: "k \<in> set hs"
  have "length (filter (\<lambda>h. h = j) (remove1 k hs)) =
      length (filter (\<lambda>h. h = j) hs) - (if j = k then 1 else 0)"
    using k by (induction hs) (auto simp: Suc_diff_Suc length_greater_0_conv filter_empty_conv)
  then show ?thesis using c by (simp add: down_at)
qed

end

interpretation counts: keyed_counter count_of count_up count_down
  by unfold_locales (auto simp: count_of_def count_up_def count_down_def split: option.splits)

lemma count_of_empty [simp]: "count_of Map.empty k = 0"
  by (simp add: count_of_def)

end
