(* ===== verification/Exec_Queue.thy ===== *)
theory Exec_Queue
  imports Errors Ordered_Map Keyed_Counter
begin

text \<open>
  The request worker pool of \<open>daemon/workers/mod.rs\<close> and \<open>daemon/workers/request.rs\<close>: the class of a
  request, the exec queue with its share per workspace, and the submission of a connection to its
  pool. A stream is a number; what \<open>poll\<close> and \<open>recv\<close> report of a client when the queue inspects it is
  an input of the operation. Every operation of the queue is one critical section of its mutex, so a
  run of the pool is a list of events, and the theorems quantify over all such lists.
\<close>

section \<open>Jobs and the queue state\<close>

definition exec_queue_capacity :: nat where
  "exec_queue_capacity = 512"

definition control_queue_capacity :: nat where
  "control_queue_capacity = 128"

definition transfer_queue_capacity :: nat where
  "transfer_queue_capacity = 8"

record request_job =
  rj_stream :: nat
  rj_workspace_key :: "string option"

text \<open>
  \<open>pending\<close> is a \<open>HashMap\<close>; the code never depends on its iteration order, so the ordered map serves.
\<close>

record exec_queue_state =
  eq_ready :: "request_job list"
  eq_pending :: "(string, nat list) btree"
  eq_pending_count :: nat
  eq_in_flight :: "string counters"
  eq_closed :: bool

datatype exec_enqueue_error = Full request_job | Closed

definition exec_queue_default :: exec_queue_state where
  "exec_queue_default =
     \<lparr> eq_ready = [], eq_pending = [], eq_pending_count = 0, eq_in_flight = Map.empty,
       eq_closed = False \<rparr>"

text \<open>\<open>parse_max_concurrent_commands\<close>: the configured share; zero and anything invalid mean no limit.\<close>

definition parse_max_concurrent_commands :: "string option \<Rightarrow> nat option" where
  "parse_max_concurrent_commands raw =
     (case raw of
        None \<Rightarrow> None
      | Some raw \<Rightarrow>
          let v = trim raw in
          if v = [] \<or> v = ''0'' \<or> map to_ascii_lowercase v = ''unlimited'' then None
          else (case parse_uint (2 ^ 64 - 1) v of
                  Some limit \<Rightarrow> if limit > 0 then Some limit else None
                | None \<Rightarrow> None))"

section \<open>Clients that went away\<close>

definition POLLIN :: "16 word" where "POLLIN = 0x1"
definition POLLERR :: "16 word" where "POLLERR = 0x8"
definition POLLHUP :: "16 word" where "POLLHUP = 0x10"
definition POLLNVAL :: "16 word" where "POLLNVAL = 0x20"
definition POLLRDHUP :: "16 word" where "POLLRDHUP = 0x2000"

text \<open>What \<open>poll\<close> with no timeout returns and sets, and what a peeking \<open>recv\<close> of one byte returns.\<close>

record poll_report =
  pr_ready :: int
  pr_revents :: "16 word"
  pr_read :: int

definition client_disconnected :: "poll_report \<Rightarrow> bool" where
  "client_disconnected r =
     (if pr_ready r \<le> 0 then False
      else if pr_revents r AND (POLLRDHUP OR POLLHUP OR POLLERR OR POLLNVAL) \<noteq> 0 then True
      else if pr_revents r AND POLLIN = 0 then False
      else pr_read r = 0)"

type_synonym polls = "nat \<Rightarrow> poll_report"

definition pending_total :: "(string, nat list) btree \<Rightarrow> nat" where
  "pending_total m = sum_list (map (\<lambda>(k, p). length p) m)"

definition discard_disconnected :: "polls \<Rightarrow> exec_queue_state \<Rightarrow> exec_queue_state" where
  "discard_disconnected polls st =
     (let gone = (\<lambda>s. client_disconnected (polls s));
          pending = bt_retain (\<lambda>k p. p \<noteq> [])
            (map (\<lambda>(k, p). (k, filter (\<lambda>s. \<not> gone s) p)) (eq_pending st)) in
      st\<lparr> eq_ready := filter (\<lambda>job. \<not> gone (rj_stream job)) (eq_ready st),
          eq_pending := pending,
          eq_pending_count := pending_total pending \<rparr>)"

section \<open>Operations of the queue\<close>

definition at_share :: "nat option \<Rightarrow> string \<Rightarrow> exec_queue_state \<Rightarrow> bool" where
  "at_share per_workspace key st =
     (case per_workspace of None \<Rightarrow> False | Some limit \<Rightarrow> count_of (eq_in_flight st) key \<ge> limit)"

definition pending_of :: "exec_queue_state \<Rightarrow> string \<Rightarrow> nat list" where
  "pending_of st key = (case bt_get (eq_pending st) key of None \<Rightarrow> [] | Some p \<Rightarrow> p)"

definition push_pending :: "string \<Rightarrow> nat \<Rightarrow> exec_queue_state \<Rightarrow> exec_queue_state" where
  "push_pending key stream st =
     st\<lparr> eq_pending := bt_insert key (pending_of st key @ [stream]) (eq_pending st),
         eq_pending_count := eq_pending_count st + 1 \<rparr>"

definition push_ready :: "request_job \<Rightarrow> exec_queue_state \<Rightarrow> exec_queue_state" where
  "push_ready job st =
     st\<lparr> eq_in_flight :=
           (case rj_workspace_key job of
              None \<Rightarrow> eq_in_flight st
            | Some key \<Rightarrow> count_up key (eq_in_flight st)),
         eq_ready := eq_ready st @ [job] \<rparr>"

definition enqueue :: "polls \<Rightarrow> nat option \<Rightarrow> request_job \<Rightarrow> nat \<Rightarrow> exec_queue_state \<Rightarrow>
    (exec_enqueue_error + unit) \<times> exec_queue_state" where
  "enqueue polls per_workspace job capacity st =
     (let st = discard_disconnected polls st in
      if eq_closed st then (Inl Closed, st)
      else if length (eq_ready st) + eq_pending_count st \<ge> capacity then (Inl (Full job), st)
      else
        (case rj_workspace_key job of
           Some key \<Rightarrow>
             if at_share per_workspace key st \<or> pending_of st key \<noteq> []
             then (Inr (), push_pending key (rj_stream job) st)
             else (Inr (), push_ready job st)
         | None \<Rightarrow> (Inr (), push_ready job st)))"

text \<open>One pass of the loop in \<open>next\<close>: the queue is closed, hands out a job, or the worker waits.\<close>

datatype next_job = QueueClosed | Job request_job | WaitReady

definition next_exec :: "exec_queue_state \<Rightarrow> next_job \<times> exec_queue_state" where
  "next_exec st =
     (if eq_closed st then (QueueClosed, st)
      else (case eq_ready st of
              job # ready \<Rightarrow> (Job job, st\<lparr> eq_ready := ready \<rparr>)
            | [] \<Rightarrow> (WaitReady, st)))"

definition promote :: "string \<Rightarrow> exec_queue_state \<Rightarrow> exec_queue_state" where
  "promote key st =
     (case pending_of st key of
        [] \<Rightarrow> st
      | stream # rest \<Rightarrow>
          push_ready \<lparr> rj_stream = stream, rj_workspace_key = Some key \<rparr>
            (st\<lparr> eq_pending := bt_adjust key (\<lambda>_. rest) (eq_pending st),
                 eq_pending_count := eq_pending_count st - 1 \<rparr>))"

definition finish_exec :: "polls \<Rightarrow> nat option \<Rightarrow> string option \<Rightarrow> exec_queue_state \<Rightarrow>
    exec_queue_state" where
  "finish_exec polls per_workspace workspace_key st =
     (let st = discard_disconnected polls st in
      case workspace_key of
        None \<Rightarrow> st
      | Some key \<Rightarrow>
          let st = st\<lparr> eq_in_flight := count_down key (eq_in_flight st) \<rparr> in
          if at_share per_workspace key st then st else promote key st)"

definition close_exec :: "exec_queue_state \<Rightarrow> exec_queue_state" where
  "close_exec st =
     st\<lparr> eq_closed := True, eq_ready := [], eq_pending := [], eq_pending_count := 0 \<rparr>"

section \<open>Classes of requests and the pools\<close>

datatype request_class = Control | Exec | Transfer

record peeked_request =
  pk_class :: request_class
  pk_workspace_key :: "string option"

definition peeked_default :: peeked_request where
  "peeked_default = \<lparr> pk_class = Control, pk_workspace_key = None \<rparr>"

text \<open>The parameters of a request are read through the string value of a field, if it has one.\<close>

type_synonym str_params = "string \<Rightarrow> string option"

fun find_map :: "('a \<Rightarrow> 'b option) \<Rightarrow> 'a list \<Rightarrow> 'b option" where
  "find_map f [] = None"
| "find_map f (x # xs) = (case f x of Some y \<Rightarrow> Some y | None \<Rightarrow> find_map f xs)"

definition workspace_key_from_params :: "str_params \<Rightarrow> string option" where
  "workspace_key_from_params params =
     (case find_map params [''workspace'', ''workspace_id'', ''name''] of
        Some v \<Rightarrow> if v \<noteq> [] then Some v else None
      | None \<Rightarrow> None)"

text \<open>The input is the request line when it arrived in time and parses as a request.\<close>

definition peek_request :: "(string \<times> str_params) option \<Rightarrow> peeked_request" where
  "peek_request line =
     (case line of
        None \<Rightarrow> peeked_default
      | Some (action, params) \<Rightarrow>
          let cls = (if action = ''workspace.cp'' then Transfer
                     else if action = ''workspace.exec'' \<or> action = ''sandbox.exec_setup'' then Exec
                     else Control) in
          \<lparr> pk_class = cls,
            pk_workspace_key = (if cls = Exec then workspace_key_from_params params else None) \<rparr>)"

record worker_pool =
  wp_control :: "request_job list"
  wp_transfer :: "request_job list"
  wp_exec :: exec_queue_state
  wp_receivers :: bool

text \<open>What the accept loop does with a connection: it is queued, answered busy, or the queue is gone.\<close>

datatype submission = Queued | RejectedBusy request_class nat | QueueGone request_class

definition try_send :: "nat \<Rightarrow> request_job \<Rightarrow> bool \<Rightarrow> request_job list \<Rightarrow>
    (exec_enqueue_error + unit) \<times> request_job list" where
  "try_send capacity job receivers queue =
     (if \<not> receivers then (Inl Closed, queue)
      else if length queue \<ge> capacity then (Inl (Full job), queue)
      else (Inr (), queue @ [job]))"

fun submission_of :: "request_class \<Rightarrow> nat \<Rightarrow> exec_enqueue_error + unit \<Rightarrow> submission" where
  "submission_of cls capacity (Inr _) = Queued"
| "submission_of cls capacity (Inl (Full _)) = RejectedBusy cls capacity"
| "submission_of cls capacity (Inl Closed) = QueueGone cls"

definition submit :: "polls \<Rightarrow> nat option \<Rightarrow> (string \<times> str_params) option \<Rightarrow> nat \<Rightarrow> worker_pool \<Rightarrow>
    submission \<times> worker_pool" where
  "submit polls per_workspace line stream pool =
     (let peeked = peek_request line;
          cls = pk_class peeked;
          job = \<lparr> rj_stream = stream,
                  rj_workspace_key = (if cls = Exec then pk_workspace_key peeked else None) \<rparr> in
      case cls of
        Exec \<Rightarrow>
          let (r, q) = enqueue polls per_workspace job exec_queue_capacity (wp_exec pool) in
          (submission_of Exec exec_queue_capacity r, pool\<lparr> wp_exec := q \<rparr>)
      | Transfer \<Rightarrow>
          let (r, q) = try_send transfer_queue_capacity job (wp_receivers pool) (wp_transfer pool) in
          (submission_of Transfer transfer_queue_capacity r, pool\<lparr> wp_transfer := q \<rparr>)
      | Control \<Rightarrow>
          let (r, q) = try_send control_queue_capacity job (wp_receivers pool) (wp_control pool) in
          (submission_of Control control_queue_capacity r, pool\<lparr> wp_control := q \<rparr>))"

definition reject_busy :: "string \<Rightarrow> 'v response" where
  "reject_busy operation_id =
     \<lparr> resp_ok = False, resp_result = None,
       resp_error = Some ''daemon queue is full; retry the request'',
       resp_code = Some RateLimited, resp_operation_id = operation_id \<rparr>"

text \<open>\<open>run_request\<close>: the operation returned, failed or panicked; the worker goes on in every case.\<close>

datatype request_outcome = Finished | Failed anyhow | Panicked string

fun run_request :: "string + unit result \<Rightarrow> request_outcome" where
  "run_request (Inr (Inr u)) = Finished"
| "run_request (Inr (Inl e)) = Failed e"
| "run_request (Inl message) = Panicked message"

section \<open>Runs of the exec pool\<close>

text \<open>
  \<open>xp_running\<close> holds the jobs the workers are serving. \<open>xp_accepted\<close> and \<open>xp_taken\<close> are histories:
  the accepted and the started jobs, in order.
\<close>

record exec_pool =
  xp_queue :: exec_queue_state
  xp_running :: "request_job list"
  xp_accepted :: "request_job list"
  xp_taken :: "request_job list"

definition exec_pool_new :: exec_pool where
  "exec_pool_new =
     \<lparr> xp_queue = exec_queue_default, xp_running = [], xp_accepted = [], xp_taken = [] \<rparr>"

datatype exec_event =
    Arrive polls request_job
  | Take
  | Complete polls nat
  | Shut

text \<open>A worker completes whatever its request did: \<open>finish\<close> runs after every outcome.\<close>

fun exec_apply :: "nat option \<Rightarrow> nat \<Rightarrow> exec_event \<Rightarrow> exec_pool \<Rightarrow> exec_pool" where
  "exec_apply limit capacity (Arrive polls job) p =
     (case enqueue polls limit job capacity (xp_queue p) of
        (Inr _, q) \<Rightarrow> p\<lparr> xp_queue := q, xp_accepted := xp_accepted p @ [job] \<rparr>
      | (Inl _, q) \<Rightarrow> p\<lparr> xp_queue := q \<rparr>)"
| "exec_apply limit capacity Take p =
     (case next_exec (xp_queue p) of
        (Job job, q) \<Rightarrow>
          p\<lparr> xp_queue := q, xp_running := xp_running p @ [job], xp_taken := xp_taken p @ [job] \<rparr>
      | (_, q) \<Rightarrow> p)"
| "exec_apply limit capacity (Complete polls i) p =
     (if i < length (xp_running p)
      then p\<lparr> xp_queue := finish_exec polls limit (rj_workspace_key (xp_running p ! i)) (xp_queue p),
              xp_running := take i (xp_running p) @ drop (Suc i) (xp_running p) \<rparr>
      else p)"
| "exec_apply limit capacity Shut p = p\<lparr> xp_queue := close_exec (xp_queue p) \<rparr>"

definition exec_run :: "nat option \<Rightarrow> nat \<Rightarrow> exec_event list \<Rightarrow> exec_pool" where
  "exec_run limit capacity es = fold (exec_apply limit capacity) es exec_pool_new"

definition jobs_of :: "string \<Rightarrow> request_job list \<Rightarrow> request_job list" where
  "jobs_of key jobs = filter (\<lambda>j. rj_workspace_key j = Some key) jobs"

section \<open>Helper lemmas\<close>

named_theorems queue_simps \<open>what an operation of the queue does to each field\<close>

lemma jobs_of_simps [simp]:
  "jobs_of k [] = []"
  "jobs_of k (j # js) = (if rj_workspace_key j = Some k then [j] else []) @ jobs_of k js"
  "jobs_of k (js @ js') = jobs_of k js @ jobs_of k js'"
  by (simp_all add: jobs_of_def)

lemma jobs_of_filter_le: "length (jobs_of k (filter P js)) \<le> length (jobs_of k js)"
  by (induction js) auto

lemma jobs_of_drop_nth:
  "i < length js \<Longrightarrow> length (jobs_of k js) =
     length (jobs_of k (take i js @ drop (Suc i) js)) +
     (if rj_workspace_key (js ! i) = Some k then 1 else 0)"
proof -
  assume "i < length js"
  then have "js = take i js @ js ! i # drop (Suc i) js" by (rule id_take_nth_drop)
  then have "jobs_of k js = jobs_of k (take i js @ js ! i # drop (Suc i) js)" by simp
  then show ?thesis by simp
qed

lemma pending_total_Cons [simp]: "pending_total ((k, p) # m) = length p + pending_total m"
  by (simp add: pending_total_def)

lemma pending_total_Nil [simp]: "pending_total [] = 0"
  by (simp add: pending_total_def)

lemma pending_total_insert:
  "bt_wf m \<Longrightarrow> pending_total (bt_insert k v m) + length (case bt_get m k of None \<Rightarrow> [] | Some p \<Rightarrow> p)
     = pending_total m + length v"
proof (induction m)
  case (Cons e m)
  obtain k' p where e: "e = (k', p)" by (cases e)
  have "bt_get m k = None" if "k < k'"
    using Cons.prems that by (auto simp: e bt_wf_Cons map_of_eq_None_iff)
  then show ?case using Cons by (auto simp: e bt_wf_Cons)
qed simp

lemma pending_total_adjust:
  "bt_wf m \<Longrightarrow> bt_get m k = Some p \<Longrightarrow>
   pending_total (bt_adjust k (\<lambda>_. v) m) + length p = pending_total m + length v"
proof (induction m)
  case (Cons e m)
  obtain k' p' where e: "e = (k', p')" by (cases e)
  have same: "bt_adjust k (\<lambda>_. v) m = m" if "k = k'"
    using Cons.prems(1) that
    by (auto simp: e bt_wf_Cons bt_adjust_def intro!: map_idI)
  show ?case
    using Cons same by (auto simp: e bt_wf_Cons bt_adjust_def split: if_splits)
qed simp

lemma pending_total_discard:
  "pending_total (bt_retain (\<lambda>k p. p \<noteq> []) (map (\<lambda>(k, p). (k, filter P p)) m)) \<le> pending_total m"
proof (induction m)
  case (Cons e m)
  obtain k p where e: "e = (k, p)" by (cases e)
  show ?case
    using Cons length_filter_le [of P p] by (simp add: e bt_retain_def add_mono trans_le_add2)
qed (simp add: bt_retain_def)

lemma bt_get_map_values: "bt_get (map (\<lambda>(k, p). (k, f p)) m) k = map_option f (bt_get m k)"
  by (induction m) auto

lemma bt_wf_map_values: "bt_wf m \<Longrightarrow> bt_wf (map (\<lambda>(k, p). (k, f p)) m)"
  by (simp add: bt_wf_def comp_def case_prod_unfold)

lemma discard_fields [queue_simps]:
  "eq_ready (discard_disconnected polls st) =
     filter (\<lambda>j. \<not> client_disconnected (polls (rj_stream j))) (eq_ready st)"
  "eq_in_flight (discard_disconnected polls st) = eq_in_flight st"
  "eq_closed (discard_disconnected polls st) = eq_closed st"
  "eq_pending_count (discard_disconnected polls st) =
     pending_total (eq_pending (discard_disconnected polls st))"
  by (simp_all add: discard_disconnected_def Let_def)

lemma discard_pending:
  "bt_wf (eq_pending st) \<Longrightarrow> pending_of (discard_disconnected polls st) k =
     filter (\<lambda>s. \<not> client_disconnected (polls s)) (pending_of st k)"
  by (simp add: pending_of_def discard_disconnected_def Let_def bt_get_retain bt_wf_map_values
      bt_get_map_values split: option.splits)

lemma discard_wf: "bt_wf (eq_pending st) \<Longrightarrow> bt_wf (eq_pending (discard_disconnected polls st))"
  by (simp add: discard_disconnected_def Let_def bt_wf_retain bt_wf_map_values)

lemma discard_total:
  "pending_total (eq_pending (discard_disconnected polls st)) \<le> pending_total (eq_pending st)"
  by (simp add: discard_disconnected_def Let_def pending_total_discard)

lemma push_ready_fields [queue_simps]:
  "eq_ready (push_ready job st) = eq_ready st @ [job]"
  "eq_pending (push_ready job st) = eq_pending st"
  "eq_pending_count (push_ready job st) = eq_pending_count st"
  "eq_closed (push_ready job st) = eq_closed st"
  "pending_of (push_ready job st) k = pending_of st k"
  "count_of (eq_in_flight (push_ready job st)) k =
     count_of (eq_in_flight st) k + (if rj_workspace_key job = Some k then 1 else 0)"
  by (auto simp: push_ready_def pending_of_def counts.up_at split: option.splits)

lemma push_pending_fields [queue_simps]:
  "eq_ready (push_pending key s st) = eq_ready st"
  "eq_in_flight (push_pending key s st) = eq_in_flight st"
  "eq_pending_count (push_pending key s st) = eq_pending_count st + 1"
  "eq_closed (push_pending key s st) = eq_closed st"
  "pending_of (push_pending key s st) k =
     (if k = key then pending_of st key @ [s] else pending_of st k)"
  by (simp_all add: push_pending_def pending_of_def)

lemma push_pending_total:
  assumes "bt_wf (eq_pending st)"
  shows "pending_total (eq_pending (push_pending key s st)) = pending_total (eq_pending st) + 1"
  using pending_total_insert [OF assms, of key "pending_of st key @ [s]"]
  by (simp add: push_pending_def pending_of_def)

lemma promote_pending:
  "pending_of (promote key st) k = (if k = key then tl (pending_of st key) else pending_of st k)"
  by (auto simp: promote_def queue_simps pending_of_def split: list.splits option.splits)

lemma promote_ready:
  "eq_ready (promote key st) = eq_ready st @
     (case pending_of st key of [] \<Rightarrow> []
      | s # rest \<Rightarrow> [\<lparr> rj_stream = s, rj_workspace_key = Some key \<rparr>])"
  by (simp add: promote_def queue_simps split: list.splits)

lemma promote_in_flight:
  "count_of (eq_in_flight (promote key st)) k =
     count_of (eq_in_flight st) k + (if k = key \<and> pending_of st key \<noteq> [] then 1 else 0)"
  by (auto simp: promote_def queue_simps split: list.splits)

lemma promote_count:
  "eq_pending_count (promote key st) =
     eq_pending_count st - (if pending_of st key = [] then 0 else 1)"
  by (simp add: promote_def queue_simps split: list.splits)

lemma promote_wf: "bt_wf (eq_pending st) \<Longrightarrow> bt_wf (eq_pending (promote key st))"
  by (auto simp: promote_def queue_simps intro: bt_intros split: list.splits)

lemma promote_total:
  assumes "bt_wf (eq_pending st)"
  shows "pending_total (eq_pending (promote key st)) =
    pending_total (eq_pending st) - (if pending_of st key = [] then 0 else 1)"
proof (cases "pending_of st key")
  case (Cons s rest)
  then have "bt_get (eq_pending st) key = Some (s # rest)"
    by (simp add: pending_of_def split: option.splits)
  from pending_total_adjust [OF assms this, of rest] Cons show ?thesis
    by (simp add: promote_def queue_simps)
qed (simp add: promote_def)

lemma pending_of_le_total: "length (pending_of st k) \<le> pending_total (eq_pending st)"
proof -
  have "length (case bt_get m k of None \<Rightarrow> [] | Some p \<Rightarrow> p) \<le> pending_total m" for m
    by (induction m) (auto split: option.splits)
  then show ?thesis by (simp add: pending_of_def)
qed

section \<open>The invariant of the queue\<close>

text \<open>
  \<open>held\<close> counts the running jobs of each workspace. A workspace's admitted jobs never exceed its
  count, the count never exceeds the share, and a job waits only while the share is used up.
\<close>

definition queue_ok :: "nat option \<Rightarrow> nat \<Rightarrow> (string \<Rightarrow> nat) \<Rightarrow> exec_queue_state \<Rightarrow> bool" where
  "queue_ok limit capacity held st \<longleftrightarrow>
     bt_wf (eq_pending st) \<and>
     eq_pending_count st = pending_total (eq_pending st) \<and>
     length (eq_ready st) + eq_pending_count st \<le> capacity \<and>
     (\<forall>k. length (jobs_of k (eq_ready st)) + held k \<le> count_of (eq_in_flight st) k) \<and>
     (\<forall>l k. limit = Some l \<longrightarrow> count_of (eq_in_flight st) k \<le> l) \<and>
     (\<forall>k. pending_of st k \<noteq> [] \<longrightarrow> at_share limit k st)"

lemma queue_ok_default: "queue_ok limit capacity (\<lambda>_. 0) exec_queue_default"
  by (simp add: queue_ok_def exec_queue_default_def pending_of_def)

lemma queue_okD:
  assumes "queue_ok limit capacity held st"
  shows "bt_wf (eq_pending st)"
    and "eq_pending_count st = pending_total (eq_pending st)"
    and "length (eq_ready st) + pending_total (eq_pending st) \<le> capacity"
    and "length (jobs_of k (eq_ready st)) + held k \<le> count_of (eq_in_flight st) k"
    and "limit = Some l \<Longrightarrow> count_of (eq_in_flight st) k \<le> l"
    and "pending_of st k \<noteq> [] \<Longrightarrow> at_share limit k st"
  using assms by (auto simp: queue_ok_def)

lemma at_share_cong: "eq_in_flight st = eq_in_flight st' \<Longrightarrow> at_share l k st = at_share l k st'"
  by (simp only: at_share_def)

lemma queue_ok_discard:
  assumes "queue_ok limit capacity held st"
  shows "queue_ok limit capacity held (discard_disconnected polls st)"
proof -
  let ?d = "discard_disconnected polls st"
  note ok = queue_okD [OF assms]
  have share: "at_share limit k ?d = at_share limit k st" for k
    by (rule at_share_cong) (simp add: queue_simps)
  have "length (eq_ready ?d) + pending_total (eq_pending ?d) \<le> capacity"
    using ok(3) discard_total [of polls st]
      length_filter_le [of "\<lambda>j. \<not> client_disconnected (polls (rj_stream j))" "eq_ready st"]
    unfolding queue_simps by linarith
  moreover have "length (jobs_of k (eq_ready ?d)) + held k \<le> count_of (eq_in_flight ?d) k" for k
    using ok(4) [of k]
      jobs_of_filter_le [of k "\<lambda>j. \<not> client_disconnected (polls (rj_stream j))" "eq_ready st"]
    by (simp add: queue_simps)
  moreover have "at_share limit k ?d" if "pending_of ?d k \<noteq> []" for k
  proof -
    have "pending_of st k \<noteq> []" using that ok(1) by (auto simp: discard_pending)
    then show ?thesis using ok(6) by (simp add: share)
  qed
  ultimately show ?thesis
    using ok(1,5) by (simp add: queue_ok_def queue_simps discard_wf)
qed

lemma queue_ok_push_ready:
  assumes "queue_ok limit capacity held st" "length (eq_ready st) + eq_pending_count st < capacity"
    and "\<And>k. rj_workspace_key job = Some k \<Longrightarrow> \<not> at_share limit k st"
  shows "queue_ok limit capacity held (push_ready job st)"
proof -
  note ok = queue_okD [OF assms(1)]
  have "count_of (eq_in_flight (push_ready job st)) k \<le> l" if "limit = Some l" for k l
    using ok(5) [OF that, of k] assms(3) [of k] that by (auto simp: queue_simps at_share_def)
  moreover have "at_share limit k (push_ready job st)" if "pending_of st k \<noteq> []" for k
    using ok(6) [OF that] by (auto simp: queue_simps at_share_def split: option.splits)
  ultimately show ?thesis
    using assms(2) ok(1,2,4) by (simp add: queue_ok_def queue_simps)
qed

lemma queue_ok_push_pending:
  assumes "queue_ok limit capacity held st" "length (eq_ready st) + eq_pending_count st < capacity"
    and "at_share limit key st \<or> pending_of st key \<noteq> []"
  shows "queue_ok limit capacity held (push_pending key s st)"
proof -
  note ok = queue_okD [OF assms(1)]
  have share: "at_share limit k (push_pending key s st) = at_share limit k st" for k
    by (rule at_share_cong) (simp add: queue_simps)
  have "bt_wf (eq_pending (push_pending key s st))"
    using ok(1) by (simp add: push_pending_def bt_wf_insert)
  then show ?thesis
    using assms(2,3) ok push_pending_total [OF ok(1)]
    by (auto simp: queue_ok_def queue_simps share)
qed

lemma queue_ok_enqueue:
  assumes "queue_ok limit capacity held st"
  shows "queue_ok limit capacity held (snd (enqueue polls limit job capacity st))"
  using queue_ok_discard [OF assms, of polls]
  by (auto simp: enqueue_def Let_def intro: queue_ok_push_ready queue_ok_push_pending
      split: option.splits)

lemma queue_ok_next:
  assumes "queue_ok limit capacity held st" "next_exec st = (Job job, st')"
  shows "queue_ok limit capacity
    (\<lambda>k. held k + (if rj_workspace_key job = Some k then 1 else 0)) st'"
proof -
  obtain ready where r: "eq_ready st = job # ready" "st' = st\<lparr> eq_ready := ready \<rparr>"
    using assms(2) by (auto simp: next_exec_def split: list.splits if_splits)
  note ok = queue_okD [OF assms(1)]
  have f: "eq_pending st' = eq_pending st" "eq_pending_count st' = eq_pending_count st"
    "eq_in_flight st' = eq_in_flight st" "eq_ready st' = ready"
    by (simp_all add: r)
  have a: "at_share limit k st' = at_share limit k st" for k
    by (rule at_share_cong) (rule f)
  have p: "pending_of st' k = pending_of st k" for k by (simp add: f pending_of_def)
  have "length (jobs_of k ready) + (held k + (if rj_workspace_key job = Some k then 1 else 0))
      \<le> count_of (eq_in_flight st) k" for k
    using ok(4) [of k] by (auto simp: r split: if_splits)
  then show ?thesis
    using ok(1,2,3,5,6) by (simp add: queue_ok_def f a p r(1))
qed

text \<open>Freeing a slot and promoting the first waiting job of the workspace.\<close>

lemma queue_ok_release:
  assumes "queue_ok limit capacity held st" "0 < held key"
  defines "st' \<equiv> st\<lparr> eq_in_flight := count_down key (eq_in_flight st) \<rparr>"
  shows "queue_ok limit capacity (held(key := held key - 1))
    (if at_share limit key st' then st' else promote key st')"
proof -
  note ok = queue_okD [OF assms(1)]
  have pos: "0 < count_of (eq_in_flight st) key" using ok(4) [of key] assms(2) by linarith
  have p: "pending_of st' k = pending_of st k" for k by (simp add: st'_def pending_of_def)
  have le: "limit = Some l \<Longrightarrow> count_of (eq_in_flight st) key \<le> l" for l by (rule ok(5))
  have none: "\<not> at_share limit key st'"
    using pos le by (auto simp: at_share_def st'_def counts.down_at split: option.splits)
  let ?n = "promote key st'"
  have cnt: "count_of (eq_in_flight ?n) k =
      count_of (eq_in_flight st) k - (if k = key \<and> pending_of st key = [] then 1 else 0)" for k
    using pos by (auto simp: promote_in_flight p) (simp_all add: st'_def counts.down_at)
  have wf: "bt_wf (eq_pending st')" using ok(1) by (simp add: st'_def)
  have tot: "pending_total (eq_pending ?n) =
      pending_total (eq_pending st) - (if pending_of st key = [] then 0 else 1)"
    using promote_total [OF wf, of key] by (simp add: p) (simp add: st'_def)
  have count: "eq_pending_count ?n = pending_total (eq_pending ?n)"
    unfolding tot promote_count p by (simp add: st'_def ok(2))
  have ready: "eq_ready ?n = eq_ready st @ (case pending_of st key of [] \<Rightarrow> []
      | s # rest \<Rightarrow> [\<lparr> rj_stream = s, rj_workspace_key = Some key \<rparr>])"
    by (simp add: promote_ready p) (simp add: st'_def)
  have cap: "length (eq_ready ?n) + pending_total (eq_pending ?n) \<le> capacity"
    using ok(3) tot pending_of_le_total [of st key]
    by (auto simp: ready split: list.splits)
  have adm: "length (jobs_of k (eq_ready ?n)) + (held(key := held key - 1)) k
      \<le> count_of (eq_in_flight ?n) k" for k
    using ok(4) [of k] assms(2) by (auto simp: ready cnt split: list.splits)
  have share: "at_share limit k ?n" if "pending_of ?n k \<noteq> []" for k
    using that ok(6) [of k]
    by (auto simp: promote_pending p at_share_def cnt split: option.splits if_splits)
  have "count_of (eq_in_flight ?n) k \<le> l" if "limit = Some l" for k l
    using ok(5) [OF that, of k] by (simp add: cnt)
  then show ?thesis
    using none wf count cap adm share by (auto simp: queue_ok_def promote_wf)
qed

lemma queue_ok_finish:
  assumes "queue_ok limit capacity held st" "\<And>k. key = Some k \<Longrightarrow> 0 < held k"
  shows "queue_ok limit capacity (\<lambda>k. held k - (if key = Some k then 1 else 0))
    (finish_exec polls limit key st)"
proof (cases key)
  case None
  then show ?thesis using queue_ok_discard [OF assms(1)] by (simp add: finish_exec_def)
next
  case (Some k)
  have "(\<lambda>j. held j - (if key = Some j then 1 else 0)) = held(k := held k - 1)"
    using Some by auto
  then show ?thesis
    using Some queue_ok_release [OF queue_ok_discard [OF assms(1), of polls] assms(2) [OF Some]]
    by (simp add: finish_exec_def Let_def)
qed

lemma queue_ok_close:
  "queue_ok limit capacity held st \<Longrightarrow> queue_ok limit capacity held (close_exec st)"
  by (auto simp: queue_ok_def close_exec_def pending_of_def intro: add_leD2)

section \<open>Every run keeps the invariant\<close>

definition held_in :: "exec_pool \<Rightarrow> string \<Rightarrow> nat" where
  "held_in p = (\<lambda>k. length (jobs_of k (xp_running p)))"

lemma pool_ok_step:
  assumes "queue_ok limit capacity (held_in p) (xp_queue p)"
  shows "queue_ok limit capacity (held_in (exec_apply limit capacity e p))
    (xp_queue (exec_apply limit capacity e p))"
proof (cases e)
  case (Arrive polls job)
  then show ?thesis
    using queue_ok_enqueue [OF assms, of polls job]
    by (auto simp: held_in_def split: prod.splits sum.splits)
next
  case Take
  then show ?thesis
    using assms queue_ok_next [OF assms]
    by (auto simp: held_in_def split: prod.splits next_job.splits) (simp add: if_distrib cong: if_cong)
next
  case (Complete polls i)
  show ?thesis
  proof (cases "i < length (xp_running p)")
    case True
    let ?key = "rj_workspace_key (xp_running p ! i)"
    have "held_in (exec_apply limit capacity e p) =
        (\<lambda>k. held_in p k - (if ?key = Some k then 1 else 0))"
      using True Complete jobs_of_drop_nth [OF True] by (auto simp: held_in_def fun_eq_iff)
    moreover have "0 < held_in p k" if "?key = Some k" for k
      using jobs_of_drop_nth [OF True, of k] that by (simp add: held_in_def)
    ultimately show ?thesis
      using queue_ok_finish [OF assms, of ?key polls] True Complete by simp
  qed (use assms Complete in simp)
next
  case Shut
  then show ?thesis using queue_ok_close [OF assms] by (simp add: held_in_def)
qed

lemma pool_ok_fold:
  "queue_ok limit capacity (held_in p) (xp_queue p) \<Longrightarrow>
   queue_ok limit capacity (held_in (fold (exec_apply limit capacity) es p))
     (xp_queue (fold (exec_apply limit capacity) es p))"
  by (induction es arbitrary: p) (auto simp del: exec_apply.simps intro: pool_ok_step)

lemma pool_ok_run:
  "queue_ok limit capacity (held_in (exec_run limit capacity es)) (xp_queue (exec_run limit capacity es))"
proof -
  have "held_in exec_pool_new = (\<lambda>_. 0)" by (simp add: held_in_def exec_pool_new_def fun_eq_iff)
  then show ?thesis
    unfolding exec_run_def using pool_ok_fold [of limit capacity exec_pool_new]
    by (simp add: exec_pool_new_def queue_ok_default)
qed


section \<open>Runs in which no client leaves\<close>

fun calm :: "exec_event \<Rightarrow> bool" where
  "calm (Arrive polls job) = (\<forall>s. \<not> client_disconnected (polls s))"
| "calm Take = True"
| "calm (Complete polls i) = (\<forall>s. \<not> client_disconnected (polls s))"
| "calm Shut = False"

definition waiting :: "string \<Rightarrow> exec_queue_state \<Rightarrow> request_job list" where
  "waiting k st = map (\<lambda>s. \<lparr> rj_stream = s, rj_workspace_key = Some k \<rparr>) (pending_of st k)"

text \<open>No job is lost, duplicated or overtaken, and the counts are exact.\<close>

definition calm_ok :: "exec_pool \<Rightarrow> bool" where
  "calm_ok p \<longleftrightarrow> \<not> eq_closed (xp_queue p) \<and>
     (\<forall>k. jobs_of k (xp_accepted p) =
        jobs_of k (xp_taken p) @ jobs_of k (eq_ready (xp_queue p)) @ waiting k (xp_queue p)) \<and>
     (\<forall>k. count_of (eq_in_flight (xp_queue p)) k =
        length (jobs_of k (eq_ready (xp_queue p))) + held_in p k)"

lemma calm_discard:
  assumes "\<forall>s. \<not> client_disconnected (polls s)" "bt_wf (eq_pending st)"
  shows "eq_ready (discard_disconnected polls st) = eq_ready st"
    and "waiting k (discard_disconnected polls st) = waiting k st"
    and "pending_of (discard_disconnected polls st) k = pending_of st k"
  using assms by (simp_all add: queue_simps discard_pending waiting_def)

lemma keyed_job: "rj_workspace_key job = Some k \<Longrightarrow> job = \<lparr> rj_stream = rj_stream job, rj_workspace_key = Some k \<rparr>"
  by simp

lemma calm_enqueue:
  assumes "\<forall>s. \<not> client_disconnected (polls s)" "bt_wf (eq_pending st)" "\<not> eq_closed st"
    and "enqueue polls limit job capacity st = (r, st')"
  shows "\<not> eq_closed st'"
    and "jobs_of k (eq_ready st') @ waiting k st' =
      (jobs_of k (eq_ready st) @ waiting k st) @ (if is_ok r then jobs_of k [job] else [])"
    and "count_of (eq_in_flight st') k + length (jobs_of k (eq_ready st)) =
      count_of (eq_in_flight st) k + length (jobs_of k (eq_ready st'))"
  using assms(3,4) calm_discard [OF assms(1,2)] keyed_job [of job k]
  by (auto simp: enqueue_def Let_def queue_simps waiting_def split: option.splits if_splits)

lemma promote_closed: "eq_closed (promote key st) = eq_closed st"
  by (simp add: promote_def queue_simps split: list.splits)

lemma promote_moves:
  "jobs_of k (eq_ready (promote key st)) @ waiting k (promote key st) =
   jobs_of k (eq_ready st) @ waiting k st"
  by (cases "pending_of st key") (auto simp: promote_ready promote_pending waiting_def)

lemma promote_counts:
  "count_of (eq_in_flight (promote key st)) k + length (jobs_of k (eq_ready st)) =
   count_of (eq_in_flight st) k + length (jobs_of k (eq_ready (promote key st)))"
  by (cases "pending_of st key") (auto simp: promote_ready promote_in_flight)

lemma calm_finish:
  assumes "\<forall>s. \<not> client_disconnected (polls s)" "bt_wf (eq_pending st)"
    and pos: "\<And>k. key = Some k \<Longrightarrow> 0 < count_of (eq_in_flight st) k"
  shows "eq_closed (finish_exec polls limit key st) = eq_closed st"
    and "jobs_of k (eq_ready (finish_exec polls limit key st)) @
        waiting k (finish_exec polls limit key st) = jobs_of k (eq_ready st) @ waiting k st"
    and "count_of (eq_in_flight (finish_exec polls limit key st)) k +
        length (jobs_of k (eq_ready st)) + (if key = Some k then 1 else 0) =
      count_of (eq_in_flight st) k + length (jobs_of k (eq_ready (finish_exec polls limit key st)))"
proof -
  let ?d = "discard_disconnected polls st"
  let ?e = "\<lambda>j. ?d\<lparr> eq_in_flight := count_down j (eq_in_flight ?d) \<rparr>"
  have fin: "finish_exec polls limit key st =
      (case key of None \<Rightarrow> ?d | Some j \<Rightarrow> if at_share limit j (?e j) then ?e j else promote j (?e j))"
    by (simp add: finish_exec_def Let_def split: option.splits)
  have e: "eq_ready (?e j) = eq_ready st" "waiting k (?e j) = waiting k st"
      "eq_closed (?e j) = eq_closed st" for j
    using calm_discard [OF assms(1,2)] by (simp_all add: waiting_def pending_of_def queue_simps)
  have c: "count_of (eq_in_flight (?e j)) k + (if j = k then 1 else 0) =
      count_of (eq_in_flight st) k" if "key = Some j" for j
    using pos [OF that] by (auto simp: counts.down_at queue_simps)
  show "eq_closed (finish_exec polls limit key st) = eq_closed st"
    unfolding fin by (simp add: promote_closed queue_simps split: option.split)
  show "jobs_of k (eq_ready (finish_exec polls limit key st)) @
      waiting k (finish_exec polls limit key st) = jobs_of k (eq_ready st) @ waiting k st"
    unfolding fin using e calm_discard [OF assms(1,2)] by (simp add: promote_moves split: option.split)
  show "count_of (eq_in_flight (finish_exec polls limit key st)) k +
        length (jobs_of k (eq_ready st)) + (if key = Some k then 1 else 0) =
      count_of (eq_in_flight st) k + length (jobs_of k (eq_ready (finish_exec polls limit key st)))"
  proof (cases key)
    case None
    show ?thesis using calm_discard(1) [OF assms(1,2)] None
      by (simp add: finish_exec_def discard_fields(2))
  next
    case (Some j)
    then show ?thesis
      using c [OF Some] promote_counts [of j "?e j" k] unfolding fin
      by (simp only: option.case e) (auto simp: e split: if_splits)
  qed
qed

lemma calm_ok_step:
  assumes ok: "queue_ok limit capacity (held_in p) (xp_queue p)" and "calm_ok p" "calm e"
  shows "calm_ok (exec_apply limit capacity e p)"
proof (cases e)
  case (Arrive polls job)
  obtain r q where enq: "enqueue polls limit job capacity (xp_queue p) = (r, q)"
    by (cases "enqueue polls limit job capacity (xp_queue p)")
  have "\<forall>s. \<not> client_disconnected (polls s)" using Arrive assms(3) by simp
  note step = calm_enqueue [OF this queue_okD(1) [OF ok] _ enq]
  show ?thesis
    using Arrive assms(2) enq step
    by (cases r) (auto simp: calm_ok_def held_in_def)
next
  case Take
  then show ?thesis
    using assms(2) by (auto simp: calm_ok_def held_in_def next_exec_def waiting_def pending_of_def
        split: list.splits)
next
  case (Complete polls i)
  show ?thesis
  proof (cases "i < length (xp_running p)")
    case True
    let ?key = "rj_workspace_key (xp_running p ! i)"
    have gone: "\<forall>s. \<not> client_disconnected (polls s)" using Complete assms(3) by simp
    have pos: "0 < count_of (eq_in_flight (xp_queue p)) k" if "?key = Some k" for k
      using jobs_of_drop_nth [OF True, of k] that queue_okD(4) [OF ok, of k]
      by (simp add: held_in_def)
    note step = calm_finish [OF gone queue_okD(1) [OF ok] pos, where limit = limit]
    show ?thesis
      using Complete True assms(2) step jobs_of_drop_nth [OF True]
      by (fastforce simp: calm_ok_def held_in_def)
  qed (use assms(2) Complete in simp)
qed (use assms(3) in simp)

lemma calm_ok_run: "list_all calm es \<Longrightarrow> calm_ok (exec_run limit capacity es)"
proof (induction es rule: rev_induct)
  case Nil
  show ?case
    by (simp add: exec_run_def calm_ok_def exec_pool_new_def exec_queue_default_def waiting_def
        pending_of_def held_in_def)
next
  case (snoc e es)
  then show ?case
    using calm_ok_step [OF pool_ok_run [of limit capacity es]] by (simp add: exec_run_def)
qed


lemma configured_share_positive: "parse_max_concurrent_commands raw = Some l \<Longrightarrow> 0 < l"
  by (auto simp: parse_max_concurrent_commands_def Let_def split: option.splits if_splits)

text \<open>A command waits only for its own workspace: while no client leaves, a workspace with a waiting
  command has exactly its configured share of commands ready or running, so at least one, and the
  completion that frees a slot admits the command.
\<close>

theorem waiting_command_has_full_share:
  assumes "parse_max_concurrent_commands raw = Some l" "list_all calm es"
    and "pending_of (xp_queue (exec_run (Some l) capacity es)) k \<noteq> []"
  shows "0 < l \<and> length (jobs_of k (eq_ready (xp_queue (exec_run (Some l) capacity es)))) +
    length (jobs_of k (xp_running (exec_run (Some l) capacity es))) = l"
proof -
  let ?p = "exec_run (Some l) capacity es"
  note ok = queue_okD [OF pool_ok_run [of "Some l" capacity es]]
  have "count_of (eq_in_flight (xp_queue ?p)) k = l"
    using ok(5) [of l k] ok(6) [OF assms(3)] by (simp add: at_share_def)
  then show ?thesis
    using configured_share_positive [OF assms(1)] calm_ok_run [OF assms(2), of "Some l" capacity]
    by (simp add: calm_ok_def held_in_def)
qed

section \<open>A client that leaves while its job is ready\<close>

definition starved :: "string \<Rightarrow> nat \<Rightarrow> exec_pool \<Rightarrow> bool" where
  "starved k l p \<longleftrightarrow> jobs_of k (eq_ready (xp_queue p)) = [] \<and> jobs_of k (xp_running p) = [] \<and>
     l \<le> count_of (eq_in_flight (xp_queue p)) k \<and> jobs_of k (xp_taken p) = []"

lemma starved_discard:
  "jobs_of k (eq_ready st) = [] \<Longrightarrow> jobs_of k (eq_ready (discard_disconnected polls st)) = []"
  by (simp add: queue_simps jobs_of_def filter_empty_conv)

lemma starved_arrive:
  assumes "jobs_of k (eq_ready st) = []" "l \<le> count_of (eq_in_flight st) k"
    and "enqueue polls (Some l) job capacity st = (r, st')"
  shows "jobs_of k (eq_ready st') = [] \<and> l \<le> count_of (eq_in_flight st') k"
  using assms(2,3) starved_discard [OF assms(1), of polls]
  by (auto simp: enqueue_def Let_def queue_simps at_share_def split: option.splits if_splits)

lemma starved_finish:
  assumes "jobs_of k (eq_ready st) = []" "l \<le> count_of (eq_in_flight st) k" "key \<noteq> Some k"
  shows "jobs_of k (eq_ready (finish_exec polls (Some l) key st)) = [] \<and>
    l \<le> count_of (eq_in_flight (finish_exec polls (Some l) key st)) k"
  using assms(2,3) starved_discard [OF assms(1), of polls]
  by (auto simp: finish_exec_def Let_def queue_simps promote_ready promote_in_flight counts.down_at
      split: option.splits list.splits)

lemma starved_step: "starved k l p \<Longrightarrow> starved k l (exec_apply (Some l) capacity e p)"
proof (cases e)
  case (Arrive polls job)
  obtain r q where "enqueue polls (Some l) job capacity (xp_queue p) = (r, q)"
    by (cases "enqueue polls (Some l) job capacity (xp_queue p)")
  moreover assume "starved k l p"
  ultimately show ?thesis
    using Arrive starved_arrive [of k "xp_queue p" l polls job capacity r q]
    by (cases r) (auto simp: starved_def)
next
  case Take
  moreover assume "starved k l p"
  ultimately show ?thesis
    by (auto simp: starved_def next_exec_def split: list.splits if_splits)
next
  case (Complete polls i)
  assume st: "starved k l p"
  have "rj_workspace_key (xp_running p ! i) \<noteq> Some k" if "i < length (xp_running p)"
    using st that by (auto simp: starved_def jobs_of_def filter_empty_conv)
  then show ?thesis
    using st Complete starved_finish [of k "xp_queue p" l "rj_workspace_key (xp_running p ! i)" polls]
      jobs_of_drop_nth [of i "xp_running p" k]
    by (auto simp: starved_def)
next
  case Shut
  moreover assume "starved k l p"
  ultimately show ?thesis by (simp add: starved_def close_exec_def)
qed

lemma starved_forever: "starved k l p \<Longrightarrow> starved k l (fold (exec_apply (Some l) capacity) es p)"
  by (induction es arbitrary: p) (auto simp del: exec_apply.simps intro: starved_step)

definition connected :: poll_report where
  "connected = \<lparr> pr_ready = 0, pr_revents = 0, pr_read = 0 \<rparr>"

definition hung_up :: poll_report where
  "hung_up = \<lparr> pr_ready = 1, pr_revents = POLLHUP, pr_read = 0 \<rparr>"

definition leaving_client :: "string \<Rightarrow> exec_event list" where
  "leaving_client k =
     [Arrive (\<lambda>_. connected) \<lparr> rj_stream = 1, rj_workspace_key = Some k \<rparr>,
      Arrive (\<lambda>s. if s = 1 then hung_up else connected)
        \<lparr> rj_stream = 2, rj_workspace_key = Some k \<rparr>]"

lemma connected_simps [simp]: "\<not> client_disconnected connected" "client_disconnected hung_up"
  by (simp_all add: client_disconnected_def connected_def hung_up_def POLLHUP_def POLLERR_def
      POLLNVAL_def POLLRDHUP_def)

lemma leaving_client_run:
  "starved k 1 (exec_run (Some 1) 512 (leaving_client k)) \<and>
   pending_of (xp_queue (exec_run (Some 1) 512 (leaving_client k))) k = [2]"
  by (simp add: exec_run_def leaving_client_def exec_pool_new_def exec_queue_default_def
      enqueue_def discard_disconnected_def Let_def at_share_def count_of_def count_up_def
      pending_of_def push_ready_def push_pending_def bt_retain_def starved_def)

text \<open>C13: A ready job whose client has left is dropped without returning its workspace's slot. With a
  share of one, a command that is queued behind such a job, and every later command of that
  workspace, is never handed to a worker, whatever happens next.
\<close>

theorem dropped_job_starves_workspace:
  "pending_of (xp_queue (exec_run (Some 1) 512 (leaving_client k))) k \<noteq> [] \<and>
   jobs_of k (xp_taken (exec_run (Some 1) 512 (leaving_client k @ es))) = []"
proof -
  have "starved k 1 (exec_run (Some 1) 512 (leaving_client k @ es))"
    using starved_forever [of k 1 _ 512 es] leaving_client_run [of k] by (simp add: exec_run_def)
  then show ?thesis using leaving_client_run [of k] by (simp add: starved_def)
qed


lemma sample_waiting:
  "pending_of (xp_queue (exec_run (Some 1) 4
     [Arrive (\<lambda>_. connected) \<lparr> rj_stream = 1, rj_workspace_key = Some ''a'' \<rparr>,
      Arrive (\<lambda>_. connected) \<lparr> rj_stream = 2, rj_workspace_key = Some ''a'' \<rparr>])) ''a'' = [2]"
  by (simp add: exec_run_def exec_pool_new_def exec_queue_default_def enqueue_def
      discard_disconnected_def Let_def at_share_def count_of_def count_up_def
      pending_of_def push_ready_def push_pending_def bt_retain_def)

lemma sample_share: "parse_max_concurrent_commands (Some ''1'') = Some 1"
  by (simp add: parse_max_concurrent_commands_def Let_def trim_graphic graphic_def byte_def
      parse_uint_def dec_value_def digit_val_def ascii_defs)

theorem waiting_command_has_full_share_witness:
  "0 < (1 :: nat) \<and> length (jobs_of ''a'' (eq_ready (xp_queue (exec_run (Some 1) 4
     [Arrive (\<lambda>_. connected) \<lparr> rj_stream = 1, rj_workspace_key = Some ''a'' \<rparr>,
      Arrive (\<lambda>_. connected) \<lparr> rj_stream = 2, rj_workspace_key = Some ''a'' \<rparr>])))) +
   length (jobs_of ''a'' (xp_running (exec_run (Some 1) 4
     [Arrive (\<lambda>_. connected) \<lparr> rj_stream = 1, rj_workspace_key = Some ''a'' \<rparr>,
      Arrive (\<lambda>_. connected) \<lparr> rj_stream = 2, rj_workspace_key = Some ''a'' \<rparr>]))) = 1"
  by (rule waiting_command_has_full_share [OF sample_share]) (use sample_waiting in simp_all)

end
