(* ===== verification/Deadlines.thy ===== *)
theory Deadlines
  imports Enclave_Prelude
begin

text \<open>
  The bounded waits of \<open>deadlines.rs\<close>: defaults, operator overrides from the environment, and the
  ceilings. A \<open>Duration\<close> is a number of milliseconds. The environment is an input, and the set of
  variables that were already warned about is the state.
\<close>

section \<open>Resolution\<close>

datatype time_unit = Milliseconds | Seconds

record deadline =
  dl_name :: string
  dl_variable :: string
  dl_value :: nat
  dl_default :: nat
  dl_max :: nat
  dl_overridden :: bool

definition from_secs :: "nat \<Rightarrow> nat" where
  "from_secs s = s * 1000"

definition parse_amount :: "string \<Rightarrow> time_unit \<Rightarrow> nat option" where
  "parse_amount raw unit =
     (let trimmed = trim raw in
      if trimmed = [] \<or> \<not> list_all is_ascii_digit trimmed then None
      else map_option (\<lambda>amount. case unit of Milliseconds \<Rightarrow> amount | Seconds \<Rightarrow> from_secs amount)
             (parse_uint (2 ^ 64 - 1) trimmed))"

text \<open>The second component is whether this call writes the warning.\<close>

definition warn_once :: "string \<Rightarrow> string list \<Rightarrow> string list \<times> bool" where
  "warn_once variable warned =
     (if variable \<in> set warned then (warned, False) else (warned @ [variable], True))"

definition resolve_from :: "string \<Rightarrow> string \<Rightarrow> time_unit \<Rightarrow> nat \<Rightarrow> nat \<Rightarrow> string option \<Rightarrow>
    string list \<Rightarrow> deadline \<times> string list" where
  "resolve_from name variable unit dflt most configured warned =
     (let d = \<lparr> dl_name = name, dl_variable = variable, dl_value = dflt, dl_default = dflt,
                dl_max = most, dl_overridden = False \<rparr> in
      case configured of
        None \<Rightarrow> (d, warned)
      | Some raw \<Rightarrow>
          (case parse_amount raw unit of
             Some amount \<Rightarrow>
               if amount \<noteq> 0
               then (d\<lparr> dl_value := min amount most, dl_overridden := True \<rparr>, warned)
               else (d, fst (warn_once variable warned))
           | None \<Rightarrow> (d, fst (warn_once variable warned))))"

type_synonym environment = "string \<Rightarrow> string option"

definition resolve :: "string \<Rightarrow> string \<Rightarrow> time_unit \<Rightarrow> nat \<Rightarrow> nat \<Rightarrow> environment \<Rightarrow>
    string list \<Rightarrow> deadline \<times> string list" where
  "resolve name variable unit dflt most env warned =
     resolve_from name variable unit dflt most (env variable) warned"

section \<open>The table\<close>

definition session_ready :: "environment \<Rightarrow> string list \<Rightarrow> deadline \<times> string list" where
  "session_ready =
     resolve ''session_ready'' ''ENCLAVE_SESSION_READY_MS'' Milliseconds
       (from_secs 5) (from_secs 120)"

definition runtime_exec_settle :: "environment \<Rightarrow> string list \<Rightarrow> deadline \<times> string list" where
  "runtime_exec_settle =
     resolve ''runtime_exec_settle'' ''ENCLAVE_RUNTIME_EXEC_SETTLE_MS'' Milliseconds
       500 (from_secs 30)"

definition runtime_term_grace :: "environment \<Rightarrow> string list \<Rightarrow> deadline \<times> string list" where
  "runtime_term_grace =
     resolve ''runtime_term_grace'' ''ENCLAVE_RUNTIME_TERM_GRACE_MS'' Milliseconds
       500 (from_secs 30)"

definition runtime_kill_grace :: "environment \<Rightarrow> string list \<Rightarrow> deadline \<times> string list" where
  "runtime_kill_grace =
     resolve ''runtime_kill_grace'' ''ENCLAVE_RUNTIME_KILL_GRACE_MS'' Milliseconds
       500 (from_secs 30)"

definition loop_detach :: "environment \<Rightarrow> string list \<Rightarrow> deadline \<times> string list" where
  "loop_detach =
     resolve ''loop_detach'' ''ENCLAVE_LOOP_DETACH_MS'' Milliseconds (from_secs 2) (from_secs 60)"

definition helper_start :: "environment \<Rightarrow> string list \<Rightarrow> deadline \<times> string list" where
  "helper_start =
     resolve ''helper_start'' ''ENCLAVE_HELPER_START_MS'' Milliseconds (from_secs 5) (from_secs 60)"

definition helper_response :: "environment \<Rightarrow> string list \<Rightarrow> deadline \<times> string list" where
  "helper_response =
     resolve ''helper_response'' ''ENCLAVE_HELPER_RESPONSE_TIMEOUT_SECS'' Seconds
       (from_secs (60 * 60)) (from_secs (24 * 60 * 60))"

text \<open>\<open>hostcmd::DEFAULT_TIMEOUT\<close> and \<open>hostcmd::MAX_TIMEOUT\<close>.\<close>

definition HOST_COMMAND_DEFAULT :: nat where
  "HOST_COMMAND_DEFAULT = from_secs 30"

definition HOST_COMMAND_MAX :: nat where
  "HOST_COMMAND_MAX = from_secs 3600"

definition host_command :: "environment \<Rightarrow> string list \<Rightarrow> deadline \<times> string list" where
  "host_command =
     resolve ''host_command'' ''ENCLAVE_HOST_COMMAND_TIMEOUT_SECS'' Seconds
       HOST_COMMAND_DEFAULT HOST_COMMAND_MAX"

definition daemon_shutdown_grace :: "environment \<Rightarrow> string list \<Rightarrow> deadline \<times> string list" where
  "daemon_shutdown_grace =
     resolve ''daemon_shutdown_grace'' ''ENCLAVE_SHUTDOWN_GRACE_SECS'' Seconds
       (from_secs 30) (from_secs 600)"

text \<open>\<open>describe_all\<close> resolves its table in order, so warnings accumulate from one entry to the next.\<close>

definition describe_all_table :: "(environment \<Rightarrow> string list \<Rightarrow> deadline \<times> string list) list" where
  "describe_all_table =
     [session_ready, runtime_exec_settle, runtime_term_grace, runtime_kill_grace, loop_detach,
      helper_start, host_command, daemon_shutdown_grace]"

fun resolve_table :: "(environment \<Rightarrow> string list \<Rightarrow> deadline \<times> string list) list \<Rightarrow>
    environment \<Rightarrow> string list \<Rightarrow> deadline list \<times> string list" where
  "resolve_table [] env warned = ([], warned)"
| "resolve_table (f # fs) env warned =
     (let (d, warned) = f env warned; (ds, warned) = resolve_table fs env warned in
      (d # ds, warned))"

definition describe_all :: "environment \<Rightarrow> string list \<Rightarrow> deadline list \<times> string list" where
  "describe_all = resolve_table describe_all_table"

section \<open>Bounds\<close>

definition deadline_ok :: "deadline \<Rightarrow> bool" where
  "deadline_ok d \<longleftrightarrow> 0 < dl_value d \<and> dl_value d \<le> dl_max d \<and>
     (\<not> dl_overridden d \<longrightarrow> dl_value d = dl_default d)"

lemma resolve_ok:
  "0 < dflt \<Longrightarrow> dflt \<le> most \<Longrightarrow> deadline_ok (fst (resolve name var unit dflt most env warned))"
  by (auto simp: resolve_def resolve_from_def deadline_ok_def Let_def split: option.splits)

lemma resolve_warned:
  "distinct warned \<Longrightarrow> distinct (snd (resolve name var unit dflt most env warned))"
  by (auto simp: resolve_def resolve_from_def warn_once_def Let_def split: option.splits)

lemmas deadline_table =
  session_ready_def runtime_exec_settle_def runtime_term_grace_def runtime_kill_grace_def
  loop_detach_def helper_start_def helper_response_def host_command_def daemon_shutdown_grace_def
  HOST_COMMAND_DEFAULT_def HOST_COMMAND_MAX_def

text \<open>Whatever the environment holds, each of the nine waits is positive and at most its ceiling, it
  is the dflt unless an operator overrode it, and no variable is warned about twice.
\<close>

theorem deadlines_bounded:
  "\<forall>f\<in>set (helper_response # describe_all_table).
     deadline_ok (fst (f env warned)) \<and> (distinct warned \<longrightarrow> distinct (snd (f env warned)))"
  by (simp add: describe_all_table_def deadline_table resolve_ok resolve_warned from_secs_def)

theorem deadlines_bounded_witness:
  "deadline_ok (fst (session_ready (\<lambda>_. Some ''0'') [])) \<and>
   distinct (snd (session_ready (\<lambda>_. Some ''0'') []))"
  using deadlines_bounded [of "\<lambda>_. Some ''0''" "[]"] by (simp add: describe_all_table_def)

lemma dec_string_trim: "trim (dec_string n) = dec_string n"
proof (rule trim_graphic)
  have "graphic c" if "c \<in> set (dec_string n)" for c
    using dec_string_digits [of n] that
    by (auto simp: list_all_iff is_ascii_digit_iff graphic_def)
  then show "graphic (hd (dec_string n))" "graphic (last (dec_string n))" by simp_all
qed simp

text \<open>A configured amount is honoured up to the ceiling: setting a wait's variable to the decimal
  text of a positive 64-bit amount gives exactly that many units, capped at the maximum, and the
  report says the value was overridden.
\<close>

theorem configured_deadline_honoured:
  assumes "0 < n" "n < 2 ^ 64" "env var = Some (dec_string n)"
  shows "fst (resolve name var unit dflt most env warned) =
    \<lparr> dl_name = name, dl_variable = var,
      dl_value = min (case unit of Milliseconds \<Rightarrow> n | Seconds \<Rightarrow> n * 1000) most,
      dl_default = dflt, dl_max = most, dl_overridden = True \<rparr>"
proof -
  have "parse_amount (dec_string n) unit =
      Some (case unit of Milliseconds \<Rightarrow> n | Seconds \<Rightarrow> n * 1000)"
    using assms(2) dec_string_digits [of n]
    by (simp add: parse_amount_def dec_string_trim from_secs_def split: time_unit.split)
  then show ?thesis
    using assms(1,3) by (simp add: resolve_def resolve_from_def Let_def split: time_unit.split)
qed

theorem configured_deadline_honoured_witness:
  "fst (session_ready (\<lambda>_. Some (dec_string 7)) []) =
    \<lparr> dl_name = ''session_ready'', dl_variable = ''ENCLAVE_SESSION_READY_MS'', dl_value = min 7 120000,
      dl_default = 5000, dl_max = 120000, dl_overridden = True \<rparr>"
  unfolding session_ready_def
  using configured_deadline_honoured [of 7 "\<lambda>_. Some (dec_string 7)" "''ENCLAVE_SESSION_READY_MS''"
      "''session_ready''" Milliseconds "from_secs 5" "from_secs 120" "[]"]
  by (simp add: from_secs_def)

lemma resolve_name: "dl_name (fst (resolve name var unit dflt most env warned)) = name"
  by (auto simp: resolve_def resolve_from_def Let_def split: option.splits)

lemma resolve_table_names:
  "(\<And>f w. f \<in> set fs \<Longrightarrow> dl_name (fst (f env w)) \<noteq> x) \<Longrightarrow>
   x \<notin> dl_name ` set (fst (resolve_table fs env warned))"
  by (induction fs arbitrary: warned) (auto simp: case_prod_unfold Let_def)

lemma describe_all_omits_helper_response:
  "''helper_response'' \<notin> dl_name ` set (fst (describe_all env warned))"
  unfolding describe_all_def
  by (rule resolve_table_names) (auto simp: describe_all_table_def deadline_table resolve_name)

end
