(* ===== verification/Jobs.thy ===== *)
theory Jobs
  imports Errors Ordered_Map
begin

text \<open>
  Durable job records (\<open>workspace/jobs.rs\<close>) and the checks of their process identity
  (\<open>job_alive\<close>, \<open>terminate_job\<close> in \<open>workspace/activity_service.rs\<close>). The jobs directory is the list
  of its \<open>.json\<close> files in directory order, each with the record it decodes to, if any. The clock, the
  process table and the outcome of each read and write are inputs. Timestamps are abstract: a
  \<open>clock\<close> gives the instant a text denotes and the whole seconds between two instants.
\<close>

section \<open>Records\<close>

datatype job_mode = Foreground | Background

fun job_mode_as_str :: "job_mode \<Rightarrow> string" where
  "job_mode_as_str Foreground = ''foreground''"
| "job_mode_as_str Background = ''background''"

datatype job_status = JsRunning | JsExited | JsFailed | JsCancelled

fun job_is_terminal :: "job_status \<Rightarrow> bool" where
  "job_is_terminal JsRunning = False"
| "job_is_terminal _ = True"

fun job_status_as_str :: "job_status \<Rightarrow> string" where
  "job_status_as_str JsRunning = ''running''"
| "job_status_as_str JsExited = ''exited''"
| "job_status_as_str JsFailed = ''failed''"
| "job_status_as_str JsCancelled = ''cancelled''"

record job_record =
  jb_id :: string
  jb_sandbox_id :: string
  jb_workspace_id :: string
  jb_mode :: job_mode
  jb_command :: "string list"
  jb_started_at :: string
  jb_finished_at :: "string option"
  jb_pid :: "u32 option"
  jb_starttime_ticks :: "u64 option"
  jb_process_group :: "int option"
  jb_status :: job_status
  jb_exit_code :: "int option"
  jb_ttl_secs :: "u64 option"
  jb_keep_running :: bool
  jb_error :: "string option"

definition job_new :: "string \<Rightarrow> string \<Rightarrow> string \<Rightarrow> string \<Rightarrow> job_mode \<Rightarrow> string list \<Rightarrow> job_record" where
  "job_new uuid now sandbox_id workspace_id mode command =
     \<lparr> jb_id = uuid, jb_sandbox_id = sandbox_id, jb_workspace_id = workspace_id, jb_mode = mode,
       jb_command = command, jb_started_at = now, jb_finished_at = None, jb_pid = None,
       jb_starttime_ticks = None, jb_process_group = None, jb_status = JsRunning,
       jb_exit_code = None, jb_ttl_secs = None, jb_keep_running = False, jb_error = None \<rparr>"

definition command_line :: "job_record \<Rightarrow> string" where
  "command_line job = join_with '' '' (jb_command job)"

text \<open>
  \<open>ck_parse\<close> reads a timestamp, \<open>ck_secs a b\<close> is \<open>(a - b).num_seconds()\<close>.
\<close>

record 't clock =
  ck_parse :: "string \<Rightarrow> 't option"
  ck_secs :: "'t \<Rightarrow> 't \<Rightarrow> int"

definition job_expired :: "'t clock \<Rightarrow> job_record \<Rightarrow> 't \<Rightarrow> bool" where
  "job_expired ck job at =
     (case jb_ttl_secs job of
        None \<Rightarrow> False
      | Some ttl \<Rightarrow>
          if ttl = 0 then False
          else (case ck_parse ck (jb_started_at job) of
                  None \<Rightarrow> False
                | Some started \<Rightarrow> ck_secs ck at started \<ge> as_i64 ttl))"

section \<open>The jobs directory\<close>

type_synonym job_store = "(string \<times> job_record option) list"

datatype dir_outcome = DirOk | DirMissing | DirFailed

record job_io =
  ji_create_dir :: bool
  ji_read_dir :: dir_outcome
  ji_read :: "string \<Rightarrow> bool"
  ji_write :: "string \<Rightarrow> bool"

definition job_id_char :: "char \<Rightarrow> bool" where
  "job_id_char c = (is_ascii_alphanumeric c \<or> c = CHR ''-'' \<or> c = CHR ''_'')"

text \<open>The file stem of a job's record.\<close>

definition job_path :: "string \<Rightarrow> string result" where
  "job_path job_id =
     (if job_id = [] \<or> \<not> list_all job_id_char job_id then bail ''invalid job id''
      else Inr job_id)"

fun put_file :: "string \<Rightarrow> 'a \<Rightarrow> (string \<times> 'a) list \<Rightarrow> (string \<times> 'a) list" where
  "put_file k v [] = [(k, v)]"
| "put_file k v ((k', v') # m) = (if k' = k then (k, v) # m else (k', v') # put_file k v m)"

definition persist :: "job_io \<Rightarrow> job_record \<Rightarrow> job_store \<Rightarrow> unit result \<times> job_store" where
  "persist io job st =
     (if \<not> ji_create_dir io then (bail ''failed to create the jobs directory'', st)
      else
        (case job_path (jb_id job) of
           Inl e \<Rightarrow> (Inl e, st)
         | Inr path \<Rightarrow>
             if ji_write io path then (Inr (), put_file path (Some job) st)
             else (bail ''failed to persist job'', st)))"

definition load :: "job_io \<Rightarrow> string \<Rightarrow> job_store \<Rightarrow> job_record result" where
  "load io job_id st =
     and_then (job_path job_id) (\<lambda>path.
       if \<not> ji_read io path then bail ''failed to read job''
       else (case map_of st path of
               None \<Rightarrow> bail ''failed to read job''
             | Some None \<Rightarrow> bail ''invalid job record''
             | Some (Some job) \<Rightarrow> Inr job))"

text \<open>A file that does not decode is skipped; a file that cannot be read fails the listing.\<close>

fun read_jobs :: "job_io \<Rightarrow> job_store \<Rightarrow> job_record list result" where
  "read_jobs io [] = Inr []"
| "read_jobs io ((stem, file) # rest) =
     (if \<not> ji_read io stem then bail ''failed to read job''
      else and_then (read_jobs io rest) (\<lambda>jobs.
        Inr (case file of Some job \<Rightarrow> job # jobs | None \<Rightarrow> jobs)))"

definition list_jobs :: "job_io \<Rightarrow> job_store \<Rightarrow> job_record list result" where
  "list_jobs io st =
     (case ji_read_dir io of
        DirMissing \<Rightarrow> Inr []
      | DirFailed \<Rightarrow> bail ''failed to read the jobs directory''
      | DirOk \<Rightarrow> and_then (read_jobs io st) (\<lambda>jobs. Inr (sort_key jb_started_at jobs)))"

definition of_workspace :: "string \<Rightarrow> string \<Rightarrow> job_record \<Rightarrow> bool" where
  "of_workspace sandbox_id workspace_id job =
     (jb_sandbox_id job = sandbox_id \<and> jb_workspace_id job = workspace_id)"

definition list_for_workspace :: "job_io \<Rightarrow> string \<Rightarrow> string \<Rightarrow> job_store \<Rightarrow>
    job_record list result" where
  "list_for_workspace io sandbox_id workspace_id st =
     and_then (list_jobs io st) (\<lambda>jobs. Inr (filter (of_workspace sandbox_id workspace_id) jobs))"

section \<open>Outcomes\<close>

definition finished :: "string \<Rightarrow> job_status \<Rightarrow> int option \<Rightarrow> string option \<Rightarrow> job_record \<Rightarrow>
    job_record" where
  "finished now status exit_code error job =
     job\<lparr> jb_status := status, jb_exit_code := exit_code, jb_error := error,
          jb_finished_at := Some now \<rparr>"

definition finish_job_record :: "job_io \<Rightarrow> string \<Rightarrow> string \<Rightarrow> job_status \<Rightarrow> int option \<Rightarrow>
    string option \<Rightarrow> job_store \<Rightarrow> unit result \<times> job_store" where
  "finish_job_record io now job_id status exit_code error st =
     (case load io job_id st of
        Inl e \<Rightarrow> (Inl e, st)
      | Inr job \<Rightarrow> persist io (finished now status exit_code error job) st)"

text \<open>
  \<open>finish_if_running\<close> reads the record and later writes it, with no lock in between: the two halves
  are separate steps, and the whole call is one after the other.
\<close>

definition finish_check :: "job_io \<Rightarrow> string \<Rightarrow> job_store \<Rightarrow> job_record option result" where
  "finish_check io job_id st =
     and_then (load io job_id st) (\<lambda>job. Inr (if jb_status job \<noteq> JsRunning then None else Some job))"

definition finish_store :: "job_io \<Rightarrow> string \<Rightarrow> job_status \<Rightarrow> int option \<Rightarrow> string option \<Rightarrow>
    job_record option \<Rightarrow> job_store \<Rightarrow> bool result \<times> job_store" where
  "finish_store io now status exit_code error checked st =
     (case checked of
        None \<Rightarrow> (Inr False, st)
      | Some job \<Rightarrow>
          (case persist io (finished now status exit_code error job) st of
             (Inl e, st) \<Rightarrow> (Inl e, st)
           | (Inr _, st) \<Rightarrow> (Inr True, st)))"

definition finish_if_running :: "job_io \<Rightarrow> string \<Rightarrow> string \<Rightarrow> job_status \<Rightarrow> int option \<Rightarrow>
    string option \<Rightarrow> job_store \<Rightarrow> bool result \<times> job_store" where
  "finish_if_running io now job_id status exit_code error st =
     (case finish_check io job_id st of
        Inl e \<Rightarrow> (Inl e, st)
      | Inr checked \<Rightarrow> finish_store io now status exit_code error checked st)"

fun cancel_jobs :: "job_io \<Rightarrow> string \<Rightarrow> string \<Rightarrow> job_record list \<Rightarrow> nat \<Rightarrow> job_store \<Rightarrow>
    nat result \<times> job_store" where
  "cancel_jobs io now reason [] changed st = (Inr changed, st)"
| "cancel_jobs io now reason (job # jobs) changed st =
     (if jb_status job \<noteq> JsRunning then cancel_jobs io now reason jobs changed st
      else
        (case persist io (job\<lparr> jb_status := JsCancelled, jb_finished_at := Some now,
                               jb_error := Some reason \<rparr>) st of
           (Inl e, st) \<Rightarrow> (Inl e, st)
         | (Inr _, st) \<Rightarrow> cancel_jobs io now reason jobs (changed + 1) st))"

definition cancel_running_for_workspace :: "job_io \<Rightarrow> string \<Rightarrow> string \<Rightarrow> string \<Rightarrow> string \<Rightarrow>
    job_store \<Rightarrow> nat result \<times> job_store" where
  "cancel_running_for_workspace io now sandbox_id workspace_id reason st =
     (case list_for_workspace io sandbox_id workspace_id st of
        Inl e \<Rightarrow> (Inl e, st)
      | Inr jobs \<Rightarrow> cancel_jobs io now reason jobs 0 st)"

section \<open>Process identity\<close>

record proc_view =
  pv_matches :: "u32 \<Rightarrow> u64 option \<Rightarrow> bool"
  pv_group_alive :: "int \<Rightarrow> u64 option \<Rightarrow> bool"
  pv_group_members :: "int \<Rightarrow> u64 option \<Rightarrow> bool"

definition job_alive :: "proc_view \<Rightarrow> job_record \<Rightarrow> bool" where
  "job_alive pv job =
     (case jb_pid job of
        None \<Rightarrow> False
      | Some pid \<Rightarrow>
          (case jb_starttime_ticks job of
             None \<Rightarrow> False
           | Some ticks \<Rightarrow>
               if pv_matches pv pid (Some ticks) then True
               else (case jb_process_group job of
                       None \<Rightarrow> False
                     | Some pgid \<Rightarrow>
                         pv_group_alive pv pgid (Some ticks) \<or>
                         pv_group_members pv pgid (Some ticks))))"

datatype signal_target = NoTarget | GroupTarget int | PidTarget u32

text \<open>Which process a signal reaches, given whether signalling the group succeeds.\<close>

definition signal_job :: "proc_view \<Rightarrow> bool \<Rightarrow> job_record \<Rightarrow> signal_target" where
  "signal_job pv group_ok job =
     (case jb_pid job of
        None \<Rightarrow> NoTarget
      | Some pid \<Rightarrow>
          let direct = (if (case jb_starttime_ticks job of None \<Rightarrow> False
                            | Some t \<Rightarrow> pv_matches pv pid (Some t))
                        then PidTarget pid else NoTarget) in
          (case jb_process_group job of
             Some pgid \<Rightarrow> if group_ok then GroupTarget pgid else direct
           | None \<Rightarrow> direct))"

text \<open>The views are what each poll before the deadline sees, and the last look after it.\<close>

fun wait_for_job_exit :: "job_record \<Rightarrow> proc_view list \<Rightarrow> proc_view \<Rightarrow> bool" where
  "wait_for_job_exit job [] last_view = (\<not> job_alive last_view job)"
| "wait_for_job_exit job (v # vs) last_view =
     (if \<not> job_alive v job then True else wait_for_job_exit job vs last_view)"

record exit_views =
  tm_before :: proc_view
  tm_term_polls :: "proc_view list"
  tm_term_last :: proc_view
  tm_kill_polls :: "proc_view list"
  tm_kill_last :: proc_view

definition terminate_job :: "exit_views \<Rightarrow> job_record \<Rightarrow> bool" where
  "terminate_job tm job =
     (if \<not> job_alive (tm_before tm) job then True
      else if wait_for_job_exit job (tm_term_polls tm) (tm_term_last tm) then True
      else wait_for_job_exit job (tm_kill_polls tm) (tm_kill_last tm))"

section \<open>Lemmas on the directory\<close>

lemma map_of_put_file [simp]: "map_of (put_file k v m) = (map_of m)(k \<mapsto> v)"
  by (induction m) (auto simp: fun_eq_iff)

lemma put_file_keys: "fst ` set (put_file k v m) = insert k (fst ` set m)"
  by (simp flip: dom_map_of_conv_image_fst)

lemma put_file_distinct: "distinct (map fst m) \<Longrightarrow> distinct (map fst (put_file k v m))"
proof (induction m)
  case (Cons e m)
  obtain k' v' where e: "e = (k', v')" by (cases e)
  show ?case using Cons put_file_keys [of k v m] by (auto simp: e)
qed simp

text \<open>Every file sits under the id of the record it holds, as \<open>persist\<close> writes it.\<close>

definition store_ok :: "job_store \<Rightarrow> bool" where
  "store_ok st \<longleftrightarrow> distinct (map fst st) \<and> (\<forall>k job. map_of st k = Some (Some job) \<longrightarrow> jb_id job = k)"

lemma persist_result:
  "persist io job st = (r, st') \<Longrightarrow>
     (r = Inr () \<and> st' = put_file (jb_id job) (Some job) st) \<or> (\<exists>e. r = Inl e \<and> st' = st)"
  by (auto simp: persist_def job_path_def bail_def split: if_splits sum.splits)

lemma store_ok_put: "store_ok st \<Longrightarrow> store_ok (put_file (jb_id job) (Some job) st)"
  by (simp add: store_ok_def put_file_distinct del: map_of_eq_Some_iff)

lemma store_ok_persist: "store_ok st \<Longrightarrow> store_ok (snd (persist io job st))"
  using persist_result [of io job st] store_ok_put by (cases "persist io job st") fastforce

lemma load_lookup: "load io job_id st = Inr job \<Longrightarrow> map_of st job_id = Some (Some job)"
  by (auto simp: load_def job_path_def result_simps split: if_splits option.splits)

lemma read_jobs_set:
  "read_jobs io st = Inr jobs \<Longrightarrow> set jobs = {job. \<exists>k. (k, Some job) \<in> set st}"
  by (induction io st arbitrary: jobs rule: read_jobs.induct)
    (auto simp: result_simps split: if_splits option.splits)

lemma list_jobs_set:
  assumes "list_jobs io st = Inr jobs" "store_ok st" "job \<in> set jobs"
  shows "map_of st (jb_id job) = Some (Some job)"
proof -
  obtain k where "(k, Some job) \<in> set st"
    using assms(1,3) read_jobs_set [of io st]
    by (fastforce simp: list_jobs_def result_simps split: dir_outcome.splits)
  then have "map_of st k = Some (Some job)" using assms(2) by (simp add: store_ok_def)
  then show ?thesis using assms(2) by (auto simp: store_ok_def)
qed

lemma list_jobs_sorted: "list_jobs io st = Inr jobs \<Longrightarrow> sorted (map jb_started_at jobs)"
  by (auto simp: list_jobs_def result_simps split: dir_outcome.splits)

lemma list_for_workspace_set:
  assumes "list_for_workspace io sid wid st = Inr jobs" "store_ok st" "job \<in> set jobs"
  shows "map_of st (jb_id job) = Some (Some job)"
proof -
  obtain all where "list_jobs io st = Inr all" "job \<in> set all"
    using assms(1,3) by (auto simp: list_for_workspace_def result_simps)
  then show ?thesis using list_jobs_set assms(2) by blast
qed

lemma read_jobs_ids:
  "read_jobs io st = Inr jobs \<Longrightarrow> \<forall>k job. (k, Some job) \<in> set st \<longrightarrow> jb_id job = k \<Longrightarrow>
   map jb_id jobs = map fst (filter (\<lambda>(k, f). f \<noteq> None) st)"
proof (induction st arbitrary: jobs)
  case (Cons e st)
  obtain k f where e: "e = (k, f)" by (cases e)
  obtain rest where "read_jobs io st = Inr rest"
      "jobs = (case f of Some job \<Rightarrow> job # rest | None \<Rightarrow> rest)"
    using Cons.prems(1) by (auto simp: e result_simps split: if_splits)
  moreover have "map jb_id rest = map fst (filter (\<lambda>(k, f). f \<noteq> None) st)"
    by (rule Cons.IH) (use Cons.prems(2) calculation(1) in \<open>auto simp only: list.set insert_iff\<close>)
  moreover have "jb_id job = k" if "f = Some job" for job
    using Cons.prems(2) that e by (auto simp only: list.set insert_iff)
  ultimately show ?case by (cases f) (simp_all add: e)
qed simp

lemma distinct_map_filter_fst: "distinct (map fst st) \<Longrightarrow> distinct (map fst (filter P st))"
  by (induction st) auto

lemma distinct_sort_key_map: "distinct (map f xs) \<Longrightarrow> distinct (map f (sort_key g xs))"
  by (simp add: distinct_map)

lemma list_jobs_distinct:
  assumes "list_jobs io st = Inr jobs" "store_ok st"
  shows "distinct (map jb_id jobs)"
proof -
  have ids: "\<forall>k job. (k, Some job) \<in> set st \<longrightarrow> jb_id job = k"
    using assms(2) by (simp add: store_ok_def)
  show ?thesis
    using assms(1)
  proof (cases "ji_read_dir io")
    case DirOk
    then obtain raw where raw: "read_jobs io st = Inr raw" "jobs = sort_key jb_started_at raw"
      using assms(1) by (auto simp: list_jobs_def result_simps)
    have "distinct (map jb_id raw)"
      using assms(2) read_jobs_ids [OF raw(1) ids]
      by (simp add: store_ok_def distinct_map_filter_fst del: map_of_eq_Some_iff)
    then show ?thesis unfolding raw(2) by (rule distinct_sort_key_map)
  qed (auto simp: list_jobs_def)
qed

section \<open>Terminal records are final\<close>

text \<open>
  \<open>kept st st'\<close>: the directory stays well formed, no record disappears, and a record that had
  reached a terminal status is unchanged.
\<close>

definition kept :: "job_store \<Rightarrow> job_store \<Rightarrow> bool" where
  "kept st st' \<longleftrightarrow> store_ok st' \<and>
     (\<forall>k job. map_of st k = Some (Some job) \<longrightarrow>
        (\<exists>job'. map_of st' k = Some (Some job') \<and>
          (job_is_terminal (jb_status job) \<longrightarrow> job' = job)))"

lemma kept_refl: "store_ok st \<Longrightarrow> kept st st"
  by (auto simp: kept_def)

lemma kept_trans: "kept a b \<Longrightarrow> kept b c \<Longrightarrow> kept a c"
  unfolding kept_def by metis

lemma terminal_iff: "job_is_terminal s \<longleftrightarrow> s \<noteq> JsRunning"
  by (cases s) simp_all

lemma kept_persist:
  assumes "store_ok st" "map_of st (jb_id job) = Some (Some job)" "jb_status job = JsRunning"
    and "jb_id job' = jb_id job"
  shows "kept st (snd (persist io job' st))"
proof -
  obtain r st' where p: "persist io job' st = (r, st')" by (cases "persist io job' st")
  from persist_result [OF p] show ?thesis
  proof
    assume "r = Inr () \<and> st' = put_file (jb_id job') (Some job') st"
    then show ?thesis
      using assms store_ok_persist [OF assms(1), of io job'] p
      by (auto simp: kept_def)
  qed (use assms(1) p kept_refl in auto)
qed

text \<open>
  The loops of this module and of the activity service walk a listing and write back a record for
  each running job of it. \<open>current st jobs\<close> says the rest of a listing still reflects the directory.
\<close>

definition current :: "job_store \<Rightarrow> job_record list \<Rightarrow> bool" where
  "current st jobs \<longleftrightarrow> store_ok st \<and> distinct (map jb_id jobs) \<and>
     (\<forall>job\<in>set jobs. map_of st (jb_id job) = Some (Some job))"

lemma current_list: "list_jobs io st = Inr jobs \<Longrightarrow> store_ok st \<Longrightarrow> current st jobs"
  by (simp add: current_def list_jobs_distinct list_jobs_set)

lemma distinct_map_filter_id: "distinct (map f xs) \<Longrightarrow> distinct (map f (filter P xs))"
  by (induction xs) auto

lemma current_filter: "current st jobs \<Longrightarrow> current st (filter P jobs)"
  by (simp add: current_def distinct_map_filter_id)

lemma current_list_for_workspace:
  "list_for_workspace io sid wid st = Inr jobs \<Longrightarrow> store_ok st \<Longrightarrow> current st jobs"
  by (auto simp: list_for_workspace_def result_simps intro: current_filter current_list)

lemma current_step:
  assumes "current st (job # jobs)" "jb_id job' = jb_id job"
  shows "current (snd (persist io job' st)) jobs"
proof -
  obtain r st' where p: "persist io job' st = (r, st')" by (cases "persist io job' st")
  have "store_ok st'" using assms(1) store_ok_persist [of st io job'] p by (simp add: current_def)
  then show ?thesis
    using persist_result [OF p] assms p by (force simp: current_def)
qed

lemma kept_step:
  assumes "current st (job # jobs)" "jb_status job = JsRunning" "jb_id job' = jb_id job"
  shows "kept st (snd (persist io job' st))"
  using assms by (intro kept_persist [of st job]) (simp_all add: current_def)

lemma cancel_jobs_kept: "current st jobs \<Longrightarrow> kept st (snd (cancel_jobs io now reason jobs n st))"
proof (induction io now reason jobs n st rule: cancel_jobs.induct)
  case (1 io now reason changed st)
  then show ?case by (simp add: current_def kept_refl)
next
  case (2 io now reason job jobs changed st)
  have rest: "current st jobs" using 2(3) by (simp add: current_def)
  show ?case
  proof (cases "jb_status job = JsRunning")
    case True
    let ?job = "job\<lparr> jb_status := JsCancelled, jb_finished_at := Some now, jb_error := Some reason \<rparr>"
    obtain r st' where p: "persist io ?job st = (r, st')" by (cases "persist io ?job st")
    have k: "kept st st'" using kept_step [OF 2(3) True, of ?job io] p by simp
    have "current st' jobs" using current_step [OF 2(3), of ?job io] p by simp
    then show ?thesis
      using True p k 2(2) [of r st'] by (cases r) (auto intro: kept_trans)
  next
    case False
    then show ?thesis using 2(1) rest by simp
  qed
qed

lemma cancel_running_kept:
  "store_ok st \<Longrightarrow> kept st (snd (cancel_running_for_workspace io now sid wid reason st))"
  by (auto simp: cancel_running_for_workspace_def kept_refl cancel_jobs_kept
      current_list_for_workspace split: sum.splits)

lemma finish_if_running_kept:
  assumes "store_ok st"
  shows "kept st (snd (finish_if_running io now job_id status code err st))"
proof (cases "finish_check io job_id st")
  case (Inr checked)
  show ?thesis
  proof (cases checked)
    case (Some job)
    then have job: "load io job_id st = Inr job" "jb_status job = JsRunning"
      using Inr by (auto simp: finish_check_def result_simps split: if_splits)
    then have "map_of st (jb_id job) = Some (Some job)"
      using load_lookup [OF job(1)] assms by (auto simp: store_ok_def)
    from kept_persist [OF assms this job(2), of "finished now status code err job" io] show ?thesis
      using Inr Some by (auto simp: finish_if_running_def finish_store_def finished_def
          split: prod.splits sum.splits)
  qed (use Inr assms in \<open>simp add: finish_if_running_def finish_store_def kept_refl\<close>)
qed (simp add: finish_if_running_def kept_refl assms)

end
