(* ===== verification/Activity.thy ===== *)
theory Activity
  imports Metadata Jobs Keyed_Counter
begin

text \<open>
  Workspace activity (\<open>workspace/activity.rs\<close>, \<open>workspace/activity_service.rs\<close>): the timestamps that
  decide whether a workspace is idle, the command leases and external leases that keep it alive, the
  live map of jobs, and the loops that reconcile and expire durable jobs. The activity service is
  explicit state; the registry the queries read is an argument, and the process table and the
  outcome of each read and write of a job file are inputs.
\<close>

section \<open>Timestamps\<close>

datatype activity_kind = RequestActivity | ProcessActivity

text \<open>\<open>Iterator::max\<close> over the timestamps that parse.\<close>

definition last_activity :: "'t::linorder clock \<Rightarrow> workspace_metadata \<Rightarrow> 't option" where
  "last_activity ck w =
     (case (Option.bind (wm_last_request_at w) (ck_parse ck),
            Option.bind (wm_last_process_activity_at w) (ck_parse ck)) of
        (None, None) \<Rightarrow> None
      | (Some a, None) \<Rightarrow> Some a
      | (None, Some b) \<Rightarrow> Some b
      | (Some a, Some b) \<Rightarrow> Some (max a b))"

definition idle_for_secs :: "'t::linorder clock \<Rightarrow> workspace_metadata \<Rightarrow> 't \<Rightarrow> int option" where
  "idle_for_secs ck w now = map_option (\<lambda>l. max (ck_secs ck now l) 0) (last_activity ck w)"

definition touch_workspace :: "activity_kind \<Rightarrow> string \<Rightarrow> workspace_metadata \<Rightarrow>
    workspace_metadata" where
  "touch_workspace kind stamp w =
     (case kind of
        RequestActivity \<Rightarrow> w\<lparr> wm_last_request_at := Some stamp \<rparr>
      | ProcessActivity \<Rightarrow>
          w\<lparr> wm_last_request_at := Some stamp, wm_last_process_activity_at := Some stamp \<rparr>)"

text \<open>The registry edit of \<open>touch_registry_only\<close>; a missing workspace is not an error.\<close>

definition touch_registry_only :: "string \<Rightarrow> string \<Rightarrow> string \<Rightarrow> activity_kind \<Rightarrow> registry \<Rightarrow>
    (unit \<times> registry) result" where
  "touch_registry_only stamp sandbox_id workspace_id kind r =
     (case get_workspace r sandbox_id workspace_id of
        None \<Rightarrow> Inr ((), r)
      | Some w \<Rightarrow> Inr ((), update_workspace sandbox_id workspace_id (touch_workspace kind stamp) r))"

definition touch :: "bool \<Rightarrow> string \<Rightarrow> string \<Rightarrow> string \<Rightarrow> activity_kind \<Rightarrow> registry \<Rightarrow>
    (bool \<times> registry) result" where
  "touch metadata_ok stamp sandbox_id workspace_id kind r =
     (case get_workspace r sandbox_id workspace_id of
        None \<Rightarrow> Inr (False, r)
      | Some w \<Rightarrow>
          if metadata_ok
          then Inr (True, update_workspace sandbox_id workspace_id (touch_workspace kind stamp) r)
          else bail ''failed to write workspace metadata'')"

definition is_idle :: "'t::linorder clock \<Rightarrow> workspace_metadata \<Rightarrow> u64 \<Rightarrow> 't \<Rightarrow> nat \<Rightarrow> bool" where
  "is_idle ck w idle_after_secs now active_commands =
     (if wm_status w \<noteq> WsRunning \<or> wm_keep_running w \<or> idle_after_secs = 0 \<or> active_commands > 0
      then False
      else (case idle_for_secs ck w now of
              None \<Rightarrow> False
            | Some idle \<Rightarrow> idle \<ge> as_i64 idle_after_secs))"

definition mark_stopped :: "string \<Rightarrow> workspace_metadata \<Rightarrow> workspace_metadata" where
  "mark_stopped now w = w\<lparr> wm_last_stopped_at := Some now \<rparr>"

definition option_or :: "'a option \<Rightarrow> 'a option \<Rightarrow> 'a option" where
  "option_or a b = (case a of Some x \<Rightarrow> Some x | None \<Rightarrow> b)"

definition idle_threshold :: "workspace_metadata \<Rightarrow> u64 option \<Rightarrow> u64 option" where
  "idle_threshold w daemon_default = option_or (wm_idle_stop_after_secs w) daemon_default"

definition destroy_threshold :: "workspace_metadata \<Rightarrow> u64 option \<Rightarrow> u64 option" where
  "destroy_threshold w daemon_default = option_or (wm_destroy_after_secs w) daemon_default"

section \<open>The activity service\<close>

record external_lease =
  xl_sandbox_id :: string
  xl_workspace_id :: string
  xl_owner_pid :: u32
  xl_owner_starttime_ticks :: u64

record activity_service =
  as_leases :: "string counters"
  as_external :: "(string, external_lease) btree"
  as_jobs :: "(string, job_record) btree"

definition activity_service_new :: activity_service where
  "activity_service_new = \<lparr> as_leases = Map.empty, as_external = [], as_jobs = [] \<rparr>"

definition workspace_key :: "string \<Rightarrow> string \<Rightarrow> string" where
  "workspace_key sandbox_id workspace_id = sandbox_id @ ''/'' @ workspace_id"

definition acquire_lease :: "string \<Rightarrow> string \<Rightarrow> activity_service \<Rightarrow> string \<times> activity_service" where
  "acquire_lease sandbox_id workspace_id s =
     (let key = workspace_key sandbox_id workspace_id in
      (key, s\<lparr> as_leases := count_up key (as_leases s) \<rparr>))"

text \<open>\<open>release\<close>, run when the \<open>CommandLease\<close> is dropped.\<close>

definition release_lease :: "string \<Rightarrow> activity_service \<Rightarrow> activity_service" where
  "release_lease key s = s\<lparr> as_leases := count_down key (as_leases s) \<rparr>"

text \<open>The lease is dropped again when the timestamp cannot be written.\<close>

definition begin_request :: "unit result \<Rightarrow> string \<Rightarrow> string \<Rightarrow> activity_service \<Rightarrow>
    string result \<times> activity_service" where
  "begin_request touched sandbox_id workspace_id s =
     (let (key, s) = acquire_lease sandbox_id workspace_id s in
      case touched of
        Inl e \<Rightarrow> (Inl e, release_lease key s)
      | Inr _ \<Rightarrow> (Inr key, s))"

definition begin_external :: "string \<Rightarrow> string \<Rightarrow> string \<Rightarrow> u32 \<Rightarrow> u64 \<Rightarrow> activity_service \<Rightarrow>
    activity_service" where
  "begin_external token sandbox_id workspace_id owner_pid owner_starttime_ticks s =
     s\<lparr> as_external := bt_insert token
          \<lparr> xl_sandbox_id = sandbox_id, xl_workspace_id = workspace_id, xl_owner_pid = owner_pid,
            xl_owner_starttime_ticks = owner_starttime_ticks \<rparr> (as_external s) \<rparr>"

definition end_external :: "string \<Rightarrow> activity_service \<Rightarrow> bool \<times> activity_service" where
  "end_external token s =
     (bt_get (as_external s) token \<noteq> None, s\<lparr> as_external := bt_remove token (as_external s) \<rparr>)"

text \<open>External leases whose owner is gone are dropped before they are counted.\<close>

definition live_external :: "proc_view \<Rightarrow> activity_service \<Rightarrow> (string, external_lease) btree" where
  "live_external pv s =
     bt_retain (\<lambda>token l. pv_matches pv (xl_owner_pid l) (Some (xl_owner_starttime_ticks l)))
       (as_external s)"

definition active_commands :: "proc_view \<Rightarrow> string \<Rightarrow> string \<Rightarrow> activity_service \<Rightarrow>
    nat \<times> activity_service" where
  "active_commands pv sandbox_id workspace_id s =
     (let live = count_of (as_leases s) (workspace_key sandbox_id workspace_id);
          external = live_external pv s in
      (live + length (filter (\<lambda>(token, l). xl_sandbox_id l = sandbox_id \<and>
                                           xl_workspace_id l = workspace_id) external),
       s\<lparr> as_external := external \<rparr>))"

definition jobs_for_workspace :: "string \<Rightarrow> string \<Rightarrow> activity_service \<Rightarrow> job_record list" where
  "jobs_for_workspace sandbox_id workspace_id s =
     filter (of_workspace sandbox_id workspace_id) (map snd (as_jobs s))"

definition has_active_foreground_job :: "proc_view \<Rightarrow> string \<Rightarrow> string \<Rightarrow> activity_service \<Rightarrow> bool" where
  "has_active_foreground_job pv sandbox_id workspace_id s =
     list_ex (\<lambda>job. jb_mode job = Foreground \<and> jb_status job = JsRunning \<and> job_alive pv job)
       (jobs_for_workspace sandbox_id workspace_id s)"

definition prune_terminal_jobs :: "string \<Rightarrow> string \<Rightarrow> activity_service \<Rightarrow> activity_service" where
  "prune_terminal_jobs sandbox_id workspace_id s =
     s\<lparr> as_jobs := bt_retain (\<lambda>id job. jb_sandbox_id job \<noteq> sandbox_id \<or>
          jb_workspace_id job \<noteq> workspace_id \<or> jb_status job = JsRunning) (as_jobs s) \<rparr>"

definition update_job :: "job_record \<Rightarrow> activity_service \<Rightarrow> activity_service" where
  "update_job job s = s\<lparr> as_jobs := bt_insert (jb_id job) job (as_jobs s) \<rparr>"

definition register_job :: "job_record \<Rightarrow> activity_service \<Rightarrow> activity_service" where
  "register_job job s = s\<lparr> as_jobs := bt_insert (jb_id job) job (as_jobs s) \<rparr>"

definition refresh_jobs_for_workspace :: "job_io \<Rightarrow> proc_view \<Rightarrow> string \<Rightarrow> string \<Rightarrow> job_store \<Rightarrow>
    activity_service \<Rightarrow> unit result \<times> activity_service" where
  "refresh_jobs_for_workspace io pv sandbox_id workspace_id st s =
     (case list_for_workspace io sandbox_id workspace_id st of
        Inl e \<Rightarrow> (Inl e, s)
      | Inr jobs \<Rightarrow>
          (Inr (), fold update_job
             (filter (\<lambda>job. jb_status job = JsRunning \<and> job_alive pv job) jobs) s))"

definition load_live_jobs :: "job_io \<Rightarrow> proc_view \<Rightarrow> job_store \<Rightarrow> activity_service \<Rightarrow>
    unit result \<times> activity_service" where
  "load_live_jobs io pv st s =
     (case list_jobs io st of
        Inl e \<Rightarrow> (Inl e, s)
      | Inr jobs \<Rightarrow>
          (Inr (), s\<lparr> as_jobs := fold (\<lambda>job. bt_insert (jb_id job) job)
             (filter (\<lambda>job. jb_status job = JsRunning \<and> job_alive pv job) jobs) [] \<rparr>))"

text \<open>The clock is read once for the file and once for the live copy.\<close>

definition finish_job :: "job_io \<Rightarrow> string \<Rightarrow> string \<Rightarrow> string \<Rightarrow> job_status \<Rightarrow> int option \<Rightarrow> string option \<Rightarrow>
    job_store \<Rightarrow> activity_service \<Rightarrow> bool result \<times> job_store \<times> activity_service" where
  "finish_job io now now' job_id status exit_code error st s =
     (case finish_if_running io now job_id status exit_code error st of
        (Inl e, st) \<Rightarrow> (Inl e, st, s)
      | (Inr changed, st) \<Rightarrow>
          if \<not> changed then (Inr False, st, s)
          else (Inr True, st, s\<lparr> as_jobs :=
                  bt_adjust job_id (finished now' status exit_code error) (as_jobs s) \<rparr>))"

definition keeps_workspace_running :: "string \<Rightarrow> string \<Rightarrow> activity_service \<Rightarrow> bool" where
  "keeps_workspace_running sandbox_id workspace_id s =
     list_ex (\<lambda>job. jb_mode job = Background \<and> jb_keep_running job \<and> jb_status job = JsRunning)
       (jobs_for_workspace sandbox_id workspace_id s)"

text \<open>Collected into a \<open>BTreeMap\<close>: the last job of a group wins.\<close>

definition group_entries :: "job_record list \<Rightarrow> (u32 \<times> string) list" where
  "group_entries jobs =
     concat (map (\<lambda>job. case jb_process_group job of
         None \<Rightarrow> []
       | Some pgid \<Rightarrow> if 0 \<le> pgid then [(word_of_int pgid, jb_id job)] else [])
       (filter (\<lambda>job. jb_mode job = Background \<and> jb_status job = JsRunning) jobs))"

definition job_processes :: "string \<Rightarrow> string \<Rightarrow> activity_service \<Rightarrow> (u32, string) btree" where
  "job_processes sandbox_id workspace_id s =
     fold (\<lambda>(pgid, id). bt_insert pgid id)
       (group_entries (jobs_for_workspace sandbox_id workspace_id s)) []"

definition job_processes_from_disk :: "job_io \<Rightarrow> string \<Rightarrow> string \<Rightarrow> job_store \<Rightarrow>
    (u32, string) btree result" where
  "job_processes_from_disk io sandbox_id workspace_id st =
     and_then (list_for_workspace io sandbox_id workspace_id st) (\<lambda>jobs.
       Inr (fold (\<lambda>(pgid, id). bt_insert pgid id) (group_entries jobs) []))"

section \<open>Expiry and reconciliation of jobs\<close>

text \<open>How one expired job ends: it was already gone, or it is signalled and does or does not exit.\<close>

definition expired_outcome :: "string \<Rightarrow> proc_view \<Rightarrow> exit_views \<Rightarrow> job_record \<Rightarrow> job_record \<times> bool" where
  "expired_outcome now pv tm job =
     (if \<not> job_alive pv job
      then (job\<lparr> jb_status := JsFailed, jb_finished_at := Some now,
                 jb_error := Some ''background job exited before its TTL expired'' \<rparr>, False)
      else if terminate_job tm job
      then (job\<lparr> jb_status := JsCancelled, jb_finished_at := Some now,
                 jb_error := Some ''background job TTL expired'' \<rparr>, True)
      else (job\<lparr> jb_status := JsFailed, jb_finished_at := Some now,
                 jb_error := Some
                   ''background job TTL expired but its process group survived SIGKILL'' \<rparr>, False))"

fun reap_jobs :: "job_io \<Rightarrow> string \<Rightarrow> proc_view \<Rightarrow> (string \<Rightarrow> exit_views) \<Rightarrow> job_record list \<Rightarrow>
    (string \<times> string) list \<Rightarrow> job_store \<Rightarrow> activity_service \<Rightarrow>
    (string \<times> string) list result \<times> job_store \<times> activity_service" where
  "reap_jobs io now pv tm [] cancelled st s = (Inr cancelled, st, s)"
| "reap_jobs io now pv tm (job # jobs) cancelled st s =
     (let (job', exited) = expired_outcome now pv (tm (jb_id job)) job in
      case persist io job' st of
        (Inl e, st) \<Rightarrow> (Inl e, st, s)
      | (Inr _, st) \<Rightarrow>
          reap_jobs io now pv tm jobs
            (if exited then cancelled @ [(jb_workspace_id job, jb_id job)] else cancelled)
            st (update_job job' s))"

definition reap_expired_jobs :: "'t clock \<Rightarrow> job_io \<Rightarrow> string \<Rightarrow> proc_view \<Rightarrow>
    (string \<Rightarrow> exit_views) \<Rightarrow> 't \<Rightarrow> job_store \<Rightarrow> activity_service \<Rightarrow>
    (string \<times> string) list result \<times> job_store \<times> activity_service" where
  "reap_expired_jobs ck io stamp pv tm now st s =
     (case list_jobs io st of
        Inl e \<Rightarrow> (Inl e, st, s)
      | Inr jobs \<Rightarrow>
          reap_jobs io stamp pv tm
            (filter (\<lambda>job. jb_status job = JsRunning \<and> jb_mode job = Background \<and>
                           job_expired ck job now) jobs) [] st s)"

fun reconcile_loop :: "job_io \<Rightarrow> string \<Rightarrow> proc_view \<Rightarrow> job_record list \<Rightarrow> nat \<Rightarrow> job_store \<Rightarrow>
    nat result \<times> job_store" where
  "reconcile_loop io now pv [] changed st = (Inr changed, st)"
| "reconcile_loop io now pv (job # jobs) changed st =
     (if jb_status job \<noteq> JsRunning \<or> job_alive pv job
      then reconcile_loop io now pv jobs changed st
      else
        (case persist io (job\<lparr> jb_status := JsFailed, jb_finished_at := Some now,
               jb_error := Some ''the daemon restarted while this job was running'' \<rparr>) st of
           (Inl e, st) \<Rightarrow> (Inl e, st)
         | (Inr _, st) \<Rightarrow> reconcile_loop io now pv jobs (changed + 1) st))"

definition reconcile_jobs :: "job_io \<Rightarrow> string \<Rightarrow> proc_view \<Rightarrow> job_store \<Rightarrow>
    nat result \<times> job_store" where
  "reconcile_jobs io now pv st =
     (case list_jobs io st of
        Inl e \<Rightarrow> (Inl e, st)
      | Inr jobs \<Rightarrow> reconcile_loop io now pv jobs 0 st)"

fun reconcile_workspace_loop :: "job_io \<Rightarrow> string \<Rightarrow> proc_view \<Rightarrow> job_record list \<Rightarrow> nat \<Rightarrow>
    job_store \<Rightarrow> activity_service \<Rightarrow> nat result \<times> job_store \<times> activity_service" where
  "reconcile_workspace_loop io now pv [] changed st s = (Inr changed, st, s)"
| "reconcile_workspace_loop io now pv (job # jobs) changed st s =
     (if jb_status job \<noteq> JsRunning then reconcile_workspace_loop io now pv jobs changed st s
      else if job_alive pv job
      then reconcile_workspace_loop io now pv jobs changed st (update_job job s)
      else
        let job' = job\<lparr> jb_status := JsFailed, jb_finished_at := Some now,
               jb_error := Some ''job process exited before its supervisor observed it'' \<rparr> in
        (case persist io job' st of
           (Inl e, st) \<Rightarrow> (Inl e, st, s)
         | (Inr _, st) \<Rightarrow>
             reconcile_workspace_loop io now pv jobs (changed + 1) st (update_job job' s)))"

definition reconcile_workspace_jobs :: "job_io \<Rightarrow> string \<Rightarrow> proc_view \<Rightarrow> string \<Rightarrow> string \<Rightarrow>
    job_store \<Rightarrow> activity_service \<Rightarrow> nat result \<times> job_store \<times> activity_service" where
  "reconcile_workspace_jobs io now pv sandbox_id workspace_id st s =
     (case list_for_workspace io sandbox_id workspace_id st of
        Inl e \<Rightarrow> (Inl e, st, s)
      | Inr jobs \<Rightarrow> reconcile_workspace_loop io now pv jobs 0 st s)"

section \<open>Queries over the registry\<close>

definition all_workspaces :: "registry \<Rightarrow> workspace_metadata list" where
  "all_workspaces r = concat (map (\<lambda>(sid, sb). map snd (rs_workspaces sb)) (reg_sandboxes r))"

definition idle_candidate :: "'t::linorder clock \<Rightarrow> proc_view \<Rightarrow> u64 option \<Rightarrow> 't \<Rightarrow>
    activity_service \<Rightarrow> workspace_metadata \<Rightarrow> bool" where
  "idle_candidate ck pv default_idle_secs now s w =
     (case idle_threshold w default_idle_secs of
        None \<Rightarrow> False
      | Some idle_after \<Rightarrow>
          if keeps_workspace_running (wm_sandbox_id w) (wm_id w) s \<or>
             has_active_foreground_job pv (wm_sandbox_id w) (wm_id w) s
          then False
          else is_idle ck w idle_after now
                 (fst (active_commands pv (wm_sandbox_id w) (wm_id w) s)))"

definition idle_candidates :: "'t::linorder clock \<Rightarrow> proc_view \<Rightarrow> u64 option \<Rightarrow> 't \<Rightarrow>
    activity_service \<Rightarrow> registry \<Rightarrow> workspace_metadata list" where
  "idle_candidates ck pv default_idle_secs now s r =
     sort_key (\<lambda>w. (case last_activity ck w of None \<Rightarrow> [] | Some t \<Rightarrow> [t], wm_id w))
       (filter (idle_candidate ck pv default_idle_secs now s) (all_workspaces r))"

definition running_workspaces :: "string option \<Rightarrow> registry \<Rightarrow> workspace_metadata list" where
  "running_workspaces sandbox_id r =
     filter (\<lambda>w. wm_status w = WsRunning)
       (concat (map (\<lambda>(sid, sb). map snd (rs_workspaces sb))
         (filter (\<lambda>(sid, sb). case sandbox_id of None \<Rightarrow> True
                              | Some i \<Rightarrow> sm_id (rs_metadata sb) = i) (reg_sandboxes r))))"

definition retention_expired :: "'t clock \<Rightarrow> u64 \<Rightarrow> 't \<Rightarrow> workspace_metadata \<Rightarrow> bool" where
  "retention_expired ck threshold now w =
     (case Option.bind (wm_last_stopped_at w) (ck_parse ck) of
        None \<Rightarrow> False
      | Some stopped \<Rightarrow> ck_secs ck now stopped \<ge> as_i64 threshold)"

definition destroy_candidate :: "'t clock \<Rightarrow> u64 option \<Rightarrow> 't \<Rightarrow> workspace_metadata \<Rightarrow> bool" where
  "destroy_candidate ck default_destroy_secs now w =
     (wm_status w = WsStopped \<and> \<not> wm_keep_running w \<and>
      (case destroy_threshold w default_destroy_secs of
         None \<Rightarrow> False
       | Some threshold \<Rightarrow> threshold \<noteq> 0 \<and> retention_expired ck threshold now w))"

definition destroy_candidates :: "'t clock \<Rightarrow> u64 option \<Rightarrow> 't \<Rightarrow> registry \<Rightarrow>
    workspace_metadata list" where
  "destroy_candidates ck default_destroy_secs now r =
     filter (destroy_candidate ck default_destroy_secs now) (all_workspaces r)"

section \<open>Job files: terminal records are final\<close>

lemma expired_outcome_id: "jb_id (fst (expired_outcome now pv tm job)) = jb_id job"
  by (simp add: expired_outcome_def)

lemma reap_jobs_kept:
  "current st jobs \<Longrightarrow> \<forall>job\<in>set jobs. jb_status job = JsRunning \<Longrightarrow>
   kept st (fst (snd (reap_jobs io now pv tm jobs cancelled st s)))"
proof (induction jobs arbitrary: cancelled st s)
  case Nil
  then show ?case by (simp add: current_def kept_refl)
next
  case (Cons job jobs)
  obtain job' exited where out: "expired_outcome now pv (tm (jb_id job)) job = (job', exited)"
    by (cases "expired_outcome now pv (tm (jb_id job)) job")
  have id: "jb_id job' = jb_id job" using expired_outcome_id [of now pv "tm (jb_id job)" job] out by simp
  obtain r st' where p: "persist io job' st = (r, st')" by (cases "persist io job' st")
  have k: "kept st st'" using kept_step [OF Cons.prems(1) _ id, of io] Cons.prems(2) p by simp
  have "current st' jobs" using current_step [OF Cons.prems(1) id, of io] p by simp
  then have "kept st' (fst (snd (reap_jobs io now pv tm jobs c st' (update_job job' s))))" for c
    using Cons.IH Cons.prems(2) by simp
  then show ?case using out p k by (cases r) (auto intro: kept_trans)
qed

lemma reap_expired_kept: "store_ok st \<Longrightarrow> kept st (fst (snd (reap_expired_jobs ck io stamp pv tm now st s)))"
  by (auto simp: reap_expired_jobs_def kept_refl intro!: reap_jobs_kept current_filter current_list
      split: sum.splits)

lemma reconcile_loop_kept: "current st jobs \<Longrightarrow> kept st (snd (reconcile_loop io now pv jobs n st))"
proof (induction jobs arbitrary: n st)
  case Nil
  then show ?case by (simp add: current_def kept_refl)
next
  case (Cons job jobs)
  let ?job = "job\<lparr> jb_status := JsFailed, jb_finished_at := Some now,
      jb_error := Some ''the daemon restarted while this job was running'' \<rparr>"
  obtain r st' where p: "persist io ?job st = (r, st')" by (cases "persist io ?job st")
  have rest: "current st jobs" using Cons.prems by (simp add: current_def)
  show ?case
  proof (cases "jb_status job \<noteq> JsRunning \<or> job_alive pv job")
    case False
    then have k: "kept st st'" using kept_step [OF Cons.prems, of ?job io] p by simp
    have "current st' jobs" using current_step [OF Cons.prems, of ?job io] p by simp
    then show ?thesis
      using False p k Cons.IH by (cases r) (auto intro: kept_trans)
  next
    case True
    then show ?thesis using rest Cons.IH by simp
  qed
qed

lemma reconcile_jobs_kept: "store_ok st \<Longrightarrow> kept st (snd (reconcile_jobs io now pv st))"
  by (auto simp: reconcile_jobs_def kept_refl reconcile_loop_kept current_list split: sum.splits)

lemma reconcile_workspace_loop_kept:
  "current st jobs \<Longrightarrow> kept st (fst (snd (reconcile_workspace_loop io now pv jobs n st s)))"
proof (induction jobs arbitrary: n st s)
  case Nil
  then show ?case by (simp add: current_def kept_refl)
next
  case (Cons job jobs)
  let ?job = "job\<lparr> jb_status := JsFailed, jb_finished_at := Some now,
      jb_error := Some ''job process exited before its supervisor observed it'' \<rparr>"
  obtain r st' where p: "persist io ?job st = (r, st')" by (cases "persist io ?job st")
  have rest: "current st jobs" using Cons.prems by (simp add: current_def)
  show ?case
  proof (cases "jb_status job \<noteq> JsRunning \<or> job_alive pv job")
    case False
    then have k: "kept st st'" using kept_step [OF Cons.prems, of ?job io] p by simp
    have "current st' jobs" using current_step [OF Cons.prems, of ?job io] p by simp
    then show ?thesis
      using False p k Cons.IH by (cases r) (auto intro: kept_trans)
  next
    case True
    then show ?thesis using rest Cons.IH by auto
  qed
qed

lemma reconcile_workspace_kept:
  "store_ok st \<Longrightarrow> kept st (fst (snd (reconcile_workspace_jobs io now pv sid wid st s)))"
  by (auto simp: reconcile_workspace_jobs_def kept_refl reconcile_workspace_loop_kept
      current_list_for_workspace split: sum.splits)

text \<open>The operations that change job files, each run to completion.\<close>

datatype job_event =
    FinishIfRunning job_io string string job_status "int option" "string option"
  | CancelWorkspace job_io string string string string
  | ReconcileAll job_io string proc_view
  | ReconcileWorkspace job_io string proc_view string string
  | ReapExpired "int clock" job_io string proc_view "string \<Rightarrow> exit_views" int

fun job_apply :: "job_event \<Rightarrow> job_store \<times> activity_service \<Rightarrow> job_store \<times> activity_service" where
  "job_apply (FinishIfRunning io now jid status code err) (st, s) =
     snd (finish_job io now now jid status code err st s)"
| "job_apply (CancelWorkspace io now sid wid reason) (st, s) =
     (snd (cancel_running_for_workspace io now sid wid reason st), s)"
| "job_apply (ReconcileAll io now pv) (st, s) = (snd (reconcile_jobs io now pv st), s)"
| "job_apply (ReconcileWorkspace io now pv sid wid) (st, s) =
     snd (reconcile_workspace_jobs io now pv sid wid st s)"
| "job_apply (ReapExpired ck io stamp pv tm now) (st, s) =
     snd (reap_expired_jobs ck io stamp pv tm now st s)"

lemma finish_job_kept:
  "store_ok st \<Longrightarrow> kept st (fst (snd (finish_job io now now' jid status code err st s)))"
  using finish_if_running_kept [of st io now jid status code err]
  by (auto simp: finish_job_def split: prod.splits sum.splits)

lemma job_apply_kept: "store_ok st \<Longrightarrow> kept st (fst (job_apply e (st, s)))"
  by (cases e) (simp_all add: finish_job_kept cancel_running_kept reconcile_jobs_kept
      reconcile_workspace_kept reap_expired_kept)

text \<open>C17: The durable outcome of a job is final: over any sequence of completed finishes, workspace
  cancellations, reconciliations and TTL sweeps, with any read and write failures, no job record is
  lost and a record that has exited, failed or been cancelled never changes again.
\<close>

theorem terminal_jobs_are_final:
  assumes "store_ok st" "map_of st k = Some (Some job)"
  shows "\<exists>job'. map_of (fst (fold job_apply es (st, s))) k = Some (Some job') \<and>
    (jb_status job \<noteq> JsRunning \<longrightarrow> job' = job)"
proof -
  have "kept st (fst (fold job_apply es (st, s)))" using assms(1)
  proof (induction es arbitrary: st s)
    case (Cons e es)
    obtain st' s' where e: "job_apply e (st, s) = (st', s')" by (cases "job_apply e (st, s)")
    have k: "kept st st'" using job_apply_kept [OF Cons.prems, of e s] e by simp
    then have "kept st' (fst (fold job_apply es (st', s')))"
      using Cons.IH by (simp add: kept_def)
    then show ?case using k e by (auto intro: kept_trans)
  qed (simp add: kept_refl)
  then show ?thesis using assms(2) by (auto simp: kept_def terminal_iff simp del: map_of_eq_Some_iff)
qed

definition sample_job :: job_record where
  "sample_job = job_new ''j'' ''t0'' ''s'' ''w'' Background [''sleep'']"

definition sample_job_io :: job_io where
  "sample_job_io = \<lparr> ji_create_dir = True, ji_read_dir = DirOk, ji_read = (\<lambda>_. True),
     ji_write = (\<lambda>_. True) \<rparr>"

definition no_procs :: proc_view where
  "no_procs = \<lparr> pv_matches = (\<lambda>_ _. False), pv_group_alive = (\<lambda>_ _. False),
     pv_group_members = (\<lambda>_ _. False) \<rparr>"

lemma sample_job_path: "job_path ''j'' = Inr ''j''"
  by (simp add: job_path_def job_id_char_def ascii_defs)

theorem terminal_jobs_are_final_witness:
  "\<exists>job'. map_of (fst (fold job_apply [ReconcileAll sample_job_io ''t1'' no_procs]
      ([(''j'', Some (sample_job\<lparr> jb_status := JsExited \<rparr>))], activity_service_new))) ''j'' =
      Some (Some job') \<and>
    (jb_status (sample_job\<lparr> jb_status := JsExited \<rparr>) \<noteq> JsRunning \<longrightarrow>
      job' = sample_job\<lparr> jb_status := JsExited \<rparr>)"
  by (rule terminal_jobs_are_final) (simp_all add: store_ok_def sample_job_def job_new_def)


section \<open>Idleness\<close>

text \<open>A workspace is idle exactly when it runs, is not pinned, has a nonzero window and no active
  command, and its latest recorded activity lies at least the window in the past, for every window
  that fits a signed 64-bit count of seconds.
\<close>

theorem idle_decision:
  assumes "uint idle_after < 2 ^ 63"
  shows "is_idle ck w idle_after now n \<longleftrightarrow>
    wm_status w = WsRunning \<and> \<not> wm_keep_running w \<and> idle_after \<noteq> 0 \<and> n = 0 \<and>
    (\<exists>t. last_activity ck w = Some t \<and> uint idle_after \<le> ck_secs ck now t)"
proof -
  have w: "as_i64 idle_after = uint idle_after" using assms by (simp add: as_i64_def)
  have "0 < uint idle_after" if "idle_after \<noteq> 0"
    using that by (metis uint_0_iff uint_ge_0 order_le_less)
  then show ?thesis
    by (auto simp: is_idle_def idle_for_secs_def w split: option.splits)
qed

lemma as_i64_negative: "2 ^ 63 \<le> uint w \<Longrightarrow> as_i64 w < 0"
  using as_i64_nonneg_iff [of w] by linarith

text \<open>C19: A retention window of \<open>2^63\<close> seconds or more is read as a negative number: a stopped workspace
  with such a window is a candidate for destruction as soon as it has a stop time, however recent.
\<close>

theorem huge_retention_destroys_at_once:
  assumes "2 ^ 63 \<le> uint threshold" "wm_destroy_after_secs w = Some threshold"
    and "wm_status w = WsStopped" "\<not> wm_keep_running w"
    and "wm_last_stopped_at w = Some raw" "ck_parse ck raw = Some stopped" "0 \<le> ck_secs ck now stopped"
  shows "destroy_candidate ck default_secs now w"
proof -
  have "threshold \<noteq> 0" using assms(1) by auto
  then show ?thesis
    using assms as_i64_negative [OF assms(1)]
    by (simp add: destroy_candidate_def destroy_threshold_def option_or_def retention_expired_def)
qed

section \<open>Leases\<close>

text \<open>What happens to a service: requests come and go, external leases and jobs are recorded.\<close>

datatype lease_event =
    Begin string string
  | Drop nat
  | BeginExternal string string string u32 u64
  | EndExternal string
  | UpdateJob job_record

fun lease_apply :: "lease_event \<Rightarrow> string list \<times> activity_service \<Rightarrow>
    string list \<times> activity_service" where
  "lease_apply (Begin sid wid) (held, s) = (let (k, s') = acquire_lease sid wid s in (k # held, s'))"
| "lease_apply (Drop i) (held, s) =
     (if i < length held then (remove1 (held ! i) held, release_lease (held ! i) s) else (held, s))"
| "lease_apply (BeginExternal token sid wid pid ticks) (held, s) =
     (held, begin_external token sid wid pid ticks s)"
| "lease_apply (EndExternal token) (held, s) = (held, snd (end_external token s))"
| "lease_apply (UpdateJob job) (held, s) = (held, update_job job s)"

lemma lease_counts_step:
  assumes "\<forall>k. count_of (as_leases s) k = length (filter (\<lambda>h. h = k) held)"
  shows "\<forall>k. count_of (as_leases (snd (lease_apply e (held, s)))) k =
    length (filter (\<lambda>h. h = k) (fst (lease_apply e (held, s))))"
proof (cases e)
  case (Begin sid wid)
  have "count_of (count_up (workspace_key sid wid) (as_leases s)) k =
      length (filter (\<lambda>h. h = k) (workspace_key sid wid # held))" for k
    by (rule counts.holders_up) (simp add: assms)
  then show ?thesis using Begin by (simp add: acquire_lease_def Let_def del: filter.simps)
next
  case (Drop i)
  then show ?thesis
    using assms counts.holders_down [of "as_leases s" _ held "held ! i"]
    by (simp add: release_lease_def)
qed (use assms in \<open>simp_all add: begin_external_def end_external_def update_job_def\<close>)

lemma lease_counts:
  "count_of (as_leases (snd (fold lease_apply es ([], activity_service_new)))) k =
   length (filter (\<lambda>h. h = k) (fst (fold lease_apply es ([], activity_service_new))))"
proof -
  have "\<forall>k. count_of (as_leases s) k = length (filter (\<lambda>h. h = k) held) \<Longrightarrow>
      \<forall>k. count_of (as_leases (snd (fold lease_apply es (held, s)))) k =
        length (filter (\<lambda>h. h = k) (fst (fold lease_apply es (held, s))))" for held s
  proof (induction es arbitrary: held s)
    case (Cons e es)
    obtain held' s' where "lease_apply e (held, s) = (held', s')"
      by (cases "lease_apply e (held, s)")
    then show ?case using lease_counts_step [OF Cons.prems, of e] Cons.IH [of s' held'] by simp
  qed simp
  then show ?thesis by (simp add: activity_service_new_def)
qed

lemma is_idle_no_commands: "is_idle ck w t now n \<Longrightarrow> n = 0"
  by (simp add: is_idle_def split: if_splits)

lemma active_commands_ge: "count_of (as_leases s) (workspace_key sid wid) \<le> fst (active_commands pv sid wid s)"
  by (simp add: active_commands_def Let_def)

text \<open>While a request still holds its command lease, its workspace is never listed for an idle stop,
  whatever other requests, external leases and jobs have come and gone.
\<close>

theorem leased_workspace_not_idle:
  assumes "workspace_key (wm_sandbox_id w) (wm_id w) \<in>
    set (fst (fold lease_apply es ([], activity_service_new)))"
  shows "w \<notin> set (idle_candidates ck pv default_idle now
    (snd (fold lease_apply es ([], activity_service_new))) r)"
proof -
  let ?s = "snd (fold lease_apply es ([], activity_service_new))"
  have "0 < count_of (as_leases ?s) (workspace_key (wm_sandbox_id w) (wm_id w))"
    unfolding lease_counts using assms by (auto simp: length_greater_0_conv filter_empty_conv)
  then have "0 < fst (active_commands pv (wm_sandbox_id w) (wm_id w) ?s)"
    using active_commands_ge [of ?s "wm_sandbox_id w" "wm_id w" pv] by linarith
  then have "\<not> idle_candidate ck pv default_idle now ?s w"
    by (auto simp: idle_candidate_def dest: is_idle_no_commands split: option.splits)
  then show ?thesis by (simp add: idle_candidates_def)
qed

section \<open>Examples\<close>

text \<open>A clock whose timestamps are the two texts \<open>a\<close> (second 100) and \<open>b\<close> (second 200).\<close>

definition sample_clock :: "int clock" where
  "sample_clock =
     \<lparr> ck_parse = (\<lambda>raw. if raw = ''a'' then Some 100 else if raw = ''b'' then Some 200 else None),
       ck_secs = (-) \<rparr>"

theorem idle_decision_witness:
  "is_idle sample_clock ((blank_workspace ''s'' ''w'')\<lparr> wm_status := WsRunning,
     wm_last_request_at := Some ''a'' \<rparr>) 60 200 0 \<longleftrightarrow>
   wm_status ((blank_workspace ''s'' ''w'')\<lparr> wm_status := WsRunning,
     wm_last_request_at := Some ''a'' \<rparr>) = WsRunning \<and>
   \<not> wm_keep_running ((blank_workspace ''s'' ''w'')\<lparr> wm_status := WsRunning,
     wm_last_request_at := Some ''a'' \<rparr>) \<and> (60 :: u64) \<noteq> 0 \<and> (0 :: nat) = 0 \<and>
   (\<exists>t. last_activity sample_clock ((blank_workspace ''s'' ''w'')\<lparr> wm_status := WsRunning,
     wm_last_request_at := Some ''a'' \<rparr>) = Some t \<and> uint (60 :: u64) \<le> ck_secs sample_clock 200 t)"
  by (rule idle_decision) simp

theorem huge_retention_destroys_at_once_witness:
  "destroy_candidate sample_clock None 200
    ((blank_workspace ''s'' ''w'')\<lparr> wm_destroy_after_secs := Some (- 1),
      wm_last_stopped_at := Some ''b'' \<rparr>)"
  by (rule huge_retention_destroys_at_once [where threshold = "- 1" and raw = "''b''" and stopped = 200])
    (simp_all add: blank_workspace_def sample_clock_def unsigned_minus_1_eq_mask mask_eq_exp_minus_1)

theorem leased_workspace_not_idle_witness:
  "blank_workspace ''s'' ''w'' \<notin> set (idle_candidates sample_clock no_procs (Some 1) 200
    (snd (fold lease_apply [Begin ''s'' ''w''] ([], activity_service_new))) registry_default)"
  by (rule leased_workspace_not_idle)
    (simp add: acquire_lease_def Let_def blank_workspace_def)

end
