(* ===== verification/Sweeper.thy ===== *)
theory Sweeper
  imports Activity
begin

text \<open>
  The background idle sweep (\<open>daemon/sweeper.rs\<close>) and its policy (\<open>daemon/policy.rs\<close>). Requests run
  beside the sweep, so everything it reads is an input taken at the point where it reads it: the
  registry for each of its three listings, and, for every candidate, what it observes after it has
  tried to take the workspace's lifecycle lease. The result is the list of stops and destroys it asks
  for, together with the job files and live jobs after reconciliation.
\<close>

section \<open>The policy\<close>

record idle_policy =
  ip_idle_stop_after_secs :: "u64 option"
  ip_destroy_after_secs :: "u64 option"
  ip_default_workspace_cpu_percent :: "f64 option"
  ip_default_workspace_max_processes :: "u64 option"
  ip_task_count_threshold :: u64
  ip_detached_process_threshold :: u64
  ip_max_running_workspaces :: "nat option"
  ip_sweep_interval :: nat
  ip_sweep_enabled :: bool
  ip_evict_idle :: bool

definition validate_idle_policy :: "idle_policy \<Rightarrow> unit result" where
  "validate_idle_policy p =
     and_then (case ip_default_workspace_cpu_percent p of
                 None \<Rightarrow> Inr () | Some percent \<Rightarrow> validate_cpu_percent percent) (\<lambda>_.
     if ip_default_workspace_max_processes p = Some 0
     then bail ''default_workspace_max_processes must be greater than 0''
     else if ip_task_count_threshold p = 0
     then bail ''task_count_threshold must be greater than 0''
     else if ip_max_running_workspaces p = Some 0
     then bail ''max_running_workspaces must be greater than 0''
     else if ip_sweep_interval p = 0
     then bail ''sweep_interval must be greater than 0''
     else Inr ())"

section \<open>One candidate\<close>

text \<open>
  What the sweep sees of a candidate: whether it got the lease, the record it reads again, the
  process table, the activity service, and whether a published port has a live connection.
\<close>

record observation =
  ob_lease :: bool
  ob_current :: "workspace_metadata option"
  ob_procs :: proc_view
  ob_service :: activity_service
  ob_connections :: bool

definition commands_of :: "observation \<Rightarrow> workspace_metadata \<Rightarrow> nat" where
  "commands_of ob w = fst (active_commands (ob_procs ob) (wm_sandbox_id w) (wm_id w) (ob_service ob))"

definition busy :: "observation \<Rightarrow> workspace_metadata \<Rightarrow> bool" where
  "busy ob w =
     (wm_status w \<noteq> WsRunning \<or> commands_of ob w > 0 \<or>
      has_active_foreground_job (ob_procs ob) (wm_sandbox_id w) (wm_id w) (ob_service ob) \<or>
      ob_connections ob \<or>
      keeps_workspace_running (wm_sandbox_id w) (wm_id w) (ob_service ob))"

text \<open>The record to stop, if the sweep goes on to stop it.\<close>

definition stop_decision :: "'t::linorder clock \<Rightarrow> u64 option \<Rightarrow> 't \<Rightarrow> observation \<Rightarrow>
    workspace_metadata option" where
  "stop_decision ck default_idle now ob =
     (if \<not> ob_lease ob then None
      else
        (case ob_current ob of
           None \<Rightarrow> None
         | Some w \<Rightarrow>
             if busy ob w then None
             else
               (case idle_threshold w default_idle of
                  Some threshold \<Rightarrow>
                    if \<not> is_idle ck w threshold now (commands_of ob w) then None else Some w
                | None \<Rightarrow> Some w)))"

definition destroy_decision :: "'t clock \<Rightarrow> u64 option \<Rightarrow> 't \<Rightarrow> observation \<Rightarrow>
    workspace_metadata option" where
  "destroy_decision ck default_destroy now ob =
     (if \<not> ob_lease ob then None
      else
        (case ob_current ob of
           None \<Rightarrow> None
         | Some w \<Rightarrow>
             if wm_status w \<noteq> WsStopped \<or> wm_keep_running w \<or> commands_of ob w > 0 then None
             else
               (case destroy_threshold w default_destroy of
                  None \<Rightarrow> None
                | Some threshold \<Rightarrow>
                    if threshold = 0 \<or> \<not> retention_expired ck threshold now w then None
                    else Some w)))"

section \<open>The sweep\<close>

datatype sweep_action = StopIdle string string | DestroyExpired string string

record 't sweep_inputs =
  si_now :: 't
  si_stamp :: string
  si_job_io :: job_io
  si_procs :: proc_view
  si_exits :: "string \<Rightarrow> exit_views"
  si_running :: "registry result"
  si_idle :: "registry result"
  si_destroy :: "registry result"
  si_stop_view :: "workspace_metadata \<Rightarrow> observation"
  si_destroy_view :: "workspace_metadata \<Rightarrow> observation"

text \<open>A workspace whose jobs cannot be reconciled is only logged.\<close>

fun reconcile_each :: "job_io \<Rightarrow> string \<Rightarrow> proc_view \<Rightarrow> workspace_metadata list \<Rightarrow> job_store \<Rightarrow>
    activity_service \<Rightarrow> job_store \<times> activity_service" where
  "reconcile_each io now pv [] st s = (st, s)"
| "reconcile_each io now pv (w # ws) st s =
     (case reconcile_workspace_jobs io now pv (wm_sandbox_id w) (wm_id w) st s of
        (_, st, s) \<Rightarrow> reconcile_each io now pv ws st s)"

definition stop_actions :: "'t::linorder clock \<Rightarrow> idle_policy \<Rightarrow> 't sweep_inputs \<Rightarrow>
    workspace_metadata list \<Rightarrow> sweep_action list" where
  "stop_actions ck p i ws =
     concat (map (\<lambda>w. case stop_decision ck (ip_idle_stop_after_secs p) (si_now i) (si_stop_view i w) of
         None \<Rightarrow> []
       | Some c \<Rightarrow> [StopIdle (wm_sandbox_id c) (wm_id c)]) ws)"

definition destroy_actions :: "'t::linorder clock \<Rightarrow> idle_policy \<Rightarrow> 't sweep_inputs \<Rightarrow>
    workspace_metadata list \<Rightarrow> sweep_action list" where
  "destroy_actions ck p i ws =
     concat (map (\<lambda>w. case destroy_decision ck (ip_destroy_after_secs p) (si_now i)
                             (si_destroy_view i w) of
         None \<Rightarrow> []
       | Some c \<Rightarrow> [DestroyExpired (wm_sandbox_id c) (wm_id c)]) ws)"

definition sweep_at :: "'t::linorder clock \<Rightarrow> idle_policy \<Rightarrow> 't sweep_inputs \<Rightarrow> job_store \<Rightarrow>
    activity_service \<Rightarrow> sweep_action list \<times> unit result \<times> job_store \<times> activity_service" where
  "sweep_at ck p i st s =
     (case si_running i of
        Inl e \<Rightarrow> ([], Inl e, st, s)
      | Inr reg \<Rightarrow>
          (case reconcile_each (si_job_io i) (si_stamp i) (si_procs i) (running_workspaces None reg) st s of
             (st, s) \<Rightarrow>
               (case reap_expired_jobs ck (si_job_io i) (si_stamp i) (si_procs i) (si_exits i)
                       (si_now i) st s of
                  (Inl e, st, s) \<Rightarrow> ([], Inl e, st, s)
                | (Inr expired, st, s) \<Rightarrow>
                    (case (if ip_evict_idle p
                           then and_then (si_idle i) (\<lambda>reg. Inr (idle_candidates ck (si_procs i)
                                  (ip_idle_stop_after_secs p) (si_now i) s reg))
                           else Inr []) of
                       Inl e \<Rightarrow> ([], Inl e, st, s)
                     | Inr candidates \<Rightarrow>
                         let stops = stop_actions ck p i candidates in
                         (case si_destroy i of
                            Inl e \<Rightarrow> (stops, Inl e, st, s)
                          | Inr reg \<Rightarrow>
                              (stops @ destroy_actions ck p i
                                 (destroy_candidates ck (ip_destroy_after_secs p) (si_now i) reg),
                               Inr (), st, s))))))"

section \<open>What a sweep may do\<close>

lemma stop_actions_mem:
  "StopIdle sid wid \<in> set (stop_actions ck p i ws) \<longleftrightarrow>
   (\<exists>w\<in>set ws. \<exists>c. stop_decision ck (ip_idle_stop_after_secs p) (si_now i) (si_stop_view i w) = Some c \<and>
      sid = wm_sandbox_id c \<and> wid = wm_id c)"
  by (force simp: stop_actions_def split: option.splits)

lemma destroy_actions_mem:
  "DestroyExpired sid wid \<in> set (destroy_actions ck p i ws) \<longleftrightarrow>
   (\<exists>w\<in>set ws. \<exists>c. destroy_decision ck (ip_destroy_after_secs p) (si_now i) (si_destroy_view i w) =
      Some c \<and> sid = wm_sandbox_id c \<and> wid = wm_id c)"
  by (force simp: destroy_actions_def split: option.splits)

lemma no_cross_actions:
  "StopIdle sid wid \<notin> set (destroy_actions ck p i ws)"
  "DestroyExpired sid wid \<notin> set (stop_actions ck p i ws)"
  by (auto simp: destroy_actions_def stop_actions_def split: option.splits)

lemma sweep_actions_split:
  "\<exists>ws vs. (ip_evict_idle p \<or> ws = []) \<and>
     set (fst (sweep_at ck p i st s)) \<subseteq> set (stop_actions ck p i ws) \<union> set (destroy_actions ck p i vs)"
proof -
  obtain st1 s1 where r1: "\<And>reg. si_running i = Inr reg \<Longrightarrow>
      reconcile_each (si_job_io i) (si_stamp i) (si_procs i) (running_workspaces None reg) st s = (st1, s1)"
    by (cases "reconcile_each (si_job_io i) (si_stamp i) (si_procs i)
        (running_workspaces None (projr (si_running i))) st s") fastforce
  show ?thesis
    by (rule exI [of _ "if ip_evict_idle p then idle_candidates ck (si_procs i)
          (ip_idle_stop_after_secs p) (si_now i) (snd (snd (reap_expired_jobs ck (si_job_io i)
            (si_stamp i) (si_procs i) (si_exits i) (si_now i) st1 s1))) (projr (si_idle i)) else []"],
        rule exI [of _ "destroy_candidates ck (ip_destroy_after_secs p) (si_now i) (projr (si_destroy i))"])
      (auto simp: sweep_at_def Let_def r1 result_simps stop_actions_def
        split: sum.splits prod.splits if_splits)
qed

text \<open>C20: The sweep stops a workspace only when idle stops are enabled and, under the workspace's lease,
  the record it reads again is running with no command, no live foreground job, no live connection
  and no job that pins it, and, if an idle window applies to that record, is idle for it. It destroys
  a workspace only when, under the lease, the record is stopped, not pinned, without commands, and
  past a nonzero retention window.
\<close>

theorem sweep_acts_on_reverified_state:
  assumes "a \<in> set (fst (sweep_at ck p i st s))"
  shows "(\<exists>w c ob. ob = si_stop_view i w \<and> a = StopIdle (wm_sandbox_id c) (wm_id c) \<and>
        ip_evict_idle p \<and> ob_lease ob \<and> ob_current ob = Some c \<and> \<not> busy ob c \<and>
        (\<forall>t. idle_threshold c (ip_idle_stop_after_secs p) = Some t \<longrightarrow> is_idle ck c t (si_now i) 0)) \<or>
    (\<exists>w c ob t. ob = si_destroy_view i w \<and> a = DestroyExpired (wm_sandbox_id c) (wm_id c) \<and>
        ob_lease ob \<and> ob_current ob = Some c \<and> wm_status c = WsStopped \<and> \<not> wm_keep_running c \<and>
        commands_of ob c = 0 \<and> destroy_threshold c (ip_destroy_after_secs p) = Some t \<and> t \<noteq> 0 \<and>
        retention_expired ck t (si_now i) c)"
proof -
  obtain ws vs where evict: "ip_evict_idle p \<or> ws = []"
    and mem: "a \<in> set (stop_actions ck p i ws) \<union> set (destroy_actions ck p i vs)"
    using sweep_actions_split [of p ck i st s] assms by blast
  show ?thesis
  proof (cases a)
    case (StopIdle sid wid)
    then obtain w c where w: "w \<in> set ws"
      and d: "stop_decision ck (ip_idle_stop_after_secs p) (si_now i) (si_stop_view i w) = Some c"
        "sid = wm_sandbox_id c" "wid = wm_id c"
      using mem by (auto simp: no_cross_actions stop_actions_mem)
    from d(1) have ob: "ob_lease (si_stop_view i w)" "ob_current (si_stop_view i w) = Some c"
        "\<not> busy (si_stop_view i w) c"
      by (auto simp: stop_decision_def split: if_splits option.splits)
    have "commands_of (si_stop_view i w) c = 0" using ob(3) by (simp add: busy_def)
    then have "is_idle ck c t (si_now i) 0" if "idle_threshold c (ip_idle_stop_after_secs p) = Some t" for t
      using d(1) ob that by (simp add: stop_decision_def split: if_splits)
    then show ?thesis using evict w StopIdle d ob by (metis empty_iff empty_set)
  next
    case (DestroyExpired sid wid)
    then obtain w c where
      d: "destroy_decision ck (ip_destroy_after_secs p) (si_now i) (si_destroy_view i w) = Some c"
        "sid = wm_sandbox_id c" "wid = wm_id c"
      using mem by (auto simp: no_cross_actions destroy_actions_mem)
    then show ?thesis
      using DestroyExpired
      by (intro disjI2 exI [of _ w] exI [of _ c])
        (auto simp: destroy_decision_def split: if_splits option.splits)
  qed
qed

text \<open>C21: The second check is skipped when no idle window applies to the record that was read again: a
  running workspace that was pinned and had its window cleared between the listing and the lease is
  still stopped.
\<close>

theorem cleared_window_skips_recheck:
  assumes "ob_lease ob" "ob_current ob = Some w" "\<not> busy ob w"
    and "wm_idle_stop_after_secs w = None" "wm_keep_running w"
  shows "stop_decision ck None now ob = Some w"
  using assms by (simp add: stop_decision_def idle_threshold_def option_or_def)

section \<open>Examples\<close>

definition sample_policy :: idle_policy where
  "sample_policy = \<lparr> ip_idle_stop_after_secs = None, ip_destroy_after_secs = Some 50,
     ip_default_workspace_cpu_percent = None, ip_default_workspace_max_processes = None,
     ip_task_count_threshold = 1, ip_detached_process_threshold = 1,
     ip_max_running_workspaces = None, ip_sweep_interval = 1, ip_sweep_enabled = True,
     ip_evict_idle = False \<rparr>"

definition sample_stopped :: workspace_metadata where
  "sample_stopped = (blank_workspace ''s'' ''w'')\<lparr> wm_last_stopped_at := Some ''a'' \<rparr>"

definition sample_view :: "workspace_metadata \<Rightarrow> observation" where
  "sample_view w = \<lparr> ob_lease = True, ob_current = Some w, ob_procs = no_procs,
     ob_service = activity_service_new, ob_connections = False \<rparr>"

definition sample_exits :: exit_views where
  "sample_exits = \<lparr> tm_before = no_procs, tm_term_polls = [], tm_term_last = no_procs,
     tm_kill_polls = [], tm_kill_last = no_procs \<rparr>"

definition sample_inputs :: "int sweep_inputs" where
  "sample_inputs = \<lparr> si_now = 200, si_stamp = ''b'', si_job_io = sample_job_io, si_procs = no_procs,
     si_exits = (\<lambda>_. sample_exits), si_running = Inr registry_default, si_idle = Inr registry_default,
     si_destroy = Inr (registry_default\<lparr> reg_sandboxes :=
       [(''s'', \<lparr> rs_metadata = blank_sandbox ''s'', rs_workspaces = [(''w'', sample_stopped)] \<rparr>)] \<rparr>),
     si_stop_view = sample_view, si_destroy_view = sample_view \<rparr>"

lemma sample_sweep:
  "fst (sweep_at sample_clock sample_policy sample_inputs [] activity_service_new) =
     [DestroyExpired ''s'' ''w'']"
  by (simp add: sweep_at_def sample_inputs_def sample_policy_def running_workspaces_def
      registry_default_def reap_expired_jobs_def list_jobs_def sample_job_io_def
      destroy_candidates_def all_workspaces_def destroy_candidate_def sample_stopped_def
      blank_workspace_def destroy_threshold_def option_or_def retention_expired_def
      sample_clock_def as_i64_def stop_actions_def destroy_actions_def destroy_decision_def
      sample_view_def commands_of_def active_commands_def live_external_def bt_retain_def
      activity_service_new_def)

theorem sweep_acts_on_reverified_state_witness:
  "(\<exists>w c ob. ob = si_stop_view sample_inputs w \<and>
        DestroyExpired ''s'' ''w'' = StopIdle (wm_sandbox_id c) (wm_id c) \<and>
        ip_evict_idle sample_policy \<and> ob_lease ob \<and> ob_current ob = Some c \<and> \<not> busy ob c \<and>
        (\<forall>t. idle_threshold c (ip_idle_stop_after_secs sample_policy) = Some t \<longrightarrow>
          is_idle sample_clock c t (si_now sample_inputs) 0)) \<or>
    (\<exists>w c ob t. ob = si_destroy_view sample_inputs w \<and>
        DestroyExpired ''s'' ''w'' = DestroyExpired (wm_sandbox_id c) (wm_id c) \<and>
        ob_lease ob \<and> ob_current ob = Some c \<and> wm_status c = WsStopped \<and> \<not> wm_keep_running c \<and>
        commands_of ob c = 0 \<and>
        destroy_threshold c (ip_destroy_after_secs sample_policy) = Some t \<and> t \<noteq> 0 \<and>
        retention_expired sample_clock t (si_now sample_inputs) c)"
  by (rule sweep_acts_on_reverified_state [where st = "[]" and s = activity_service_new])
    (simp add: sample_sweep)

theorem cleared_window_skips_recheck_witness:
  "stop_decision sample_clock None 200 (sample_view ((blank_workspace ''s'' ''w'')\<lparr>
      wm_status := WsRunning, wm_keep_running := True \<rparr>)) =
    Some ((blank_workspace ''s'' ''w'')\<lparr> wm_status := WsRunning, wm_keep_running := True \<rparr>)"
  by (rule cleared_window_skips_recheck)
    (simp_all add: sample_view_def busy_def commands_of_def active_commands_def live_external_def
      bt_retain_def activity_service_new_def has_active_foreground_job_def jobs_for_workspace_def
      keeps_workspace_running_def blank_workspace_def)

end
