(* ===== verification/Operations.thy ===== *)
theory Operations
  imports Jobs
begin

text \<open>
  The operation journal (\<open>operation/record.rs\<close>, \<open>operation/journal.rs\<close>, \<open>operation/store.rs\<close>) and the
  table of operations in flight (\<open>daemon/active_operations.rs\<close>). The journal directory is the list of
  its \<open>.json\<close> files in directory order, each with the record it decodes to, if any. The clock, fresh
  ids and the outcome of each read, write and removal are inputs.
\<close>

section \<open>Records\<close>

datatype operation_status = OpPlanned | OpRunning | OpSucceeded | OpFailed

record operation_record =
  op_id :: string
  op_kind :: string
  op_target :: string
  op_status :: operation_status
  op_phase :: string
  op_started_at :: string
  op_updated_at :: string
  op_error :: "string option"

definition operation_new :: "string \<Rightarrow> string \<Rightarrow> string \<Rightarrow> string \<Rightarrow> operation_record" where
  "operation_new uuid now kind target =
     \<lparr> op_id = uuid, op_kind = kind, op_target = target, op_status = OpPlanned,
       op_phase = ''planned'', op_started_at = now, op_updated_at = now, op_error = None \<rparr>"

definition record_begin :: "string \<Rightarrow> string \<Rightarrow> operation_record \<Rightarrow> operation_record" where
  "record_begin now phase r =
     r\<lparr> op_status := OpRunning, op_phase := phase, op_updated_at := now, op_error := None \<rparr>"

definition record_phase :: "string \<Rightarrow> string \<Rightarrow> operation_record \<Rightarrow> operation_record" where
  "record_phase now phase r = r\<lparr> op_phase := phase, op_updated_at := now \<rparr>"

definition record_succeed :: "string \<Rightarrow> operation_record \<Rightarrow> operation_record" where
  "record_succeed now r =
     r\<lparr> op_status := OpSucceeded, op_phase := ''complete'', op_updated_at := now, op_error := None \<rparr>"

definition record_fail :: "string \<Rightarrow> string \<Rightarrow> operation_record \<Rightarrow> operation_record" where
  "record_fail now error r =
     r\<lparr> op_status := OpFailed, op_phase := ''failed'', op_updated_at := now,
        op_error := Some error \<rparr>"

text \<open>The request's operation id is used when the thread serves one.\<close>

definition record_for :: "string \<Rightarrow> string \<Rightarrow> string option \<Rightarrow> string \<Rightarrow> string \<Rightarrow> operation_record" where
  "record_for uuid now serving kind target =
     (let r = operation_new uuid now kind target in
      case serving of None \<Rightarrow> r | Some i \<Rightarrow> r\<lparr> op_id := i \<rparr>)"

definition op_open :: "operation_record \<Rightarrow> bool" where
  "op_open r = (op_status r = OpPlanned \<or> op_status r = OpRunning)"

section \<open>The journal directory\<close>

type_synonym journal_dir = "(string \<times> operation_record option) list"

datatype remove_outcome = Removed | AlreadyGone | RemoveFailed

record journal_io =
  jo_create_dir :: bool
  jo_read_dir :: dir_outcome
  jo_read :: "string \<Rightarrow> bool"
  jo_write :: "string \<Rightarrow> bool"
  jo_remove :: "string \<Rightarrow> remove_outcome"

definition persist_record :: "journal_io \<Rightarrow> operation_record \<Rightarrow> journal_dir \<Rightarrow>
    unit result \<times> journal_dir" where
  "persist_record io r st =
     (if jo_write io (op_id r) then (Inr (), put_file (op_id r) (Some r) st)
      else (bail ''failed to persist operation journal'', st))"

definition journal_begin :: "journal_io \<Rightarrow> string \<Rightarrow> string \<Rightarrow> string \<Rightarrow> string option \<Rightarrow> string \<Rightarrow>
    string \<Rightarrow> journal_dir \<Rightarrow> operation_record result \<times> journal_dir" where
  "journal_begin io uuid now now' serving kind target st =
     (if \<not> jo_create_dir io then (bail ''failed to create operation journal'', st)
      else
        let r = record_begin now' ''starting'' (record_for uuid now serving kind target) in
        (case persist_record io r st of
           (Inl e, st) \<Rightarrow> (Inl e, st)
         | (Inr _, st) \<Rightarrow> (Inr r, st)))"

definition journal_phase :: "journal_io \<Rightarrow> string \<Rightarrow> string \<Rightarrow> operation_record \<Rightarrow> journal_dir \<Rightarrow>
    unit result \<times> operation_record \<times> journal_dir" where
  "journal_phase io now phase r st =
     (let r = record_phase now phase r; (res, st) = persist_record io r st in (res, r, st))"

definition journal_succeed :: "journal_io \<Rightarrow> string \<Rightarrow> operation_record \<Rightarrow> journal_dir \<Rightarrow>
    operation_record result \<times> journal_dir" where
  "journal_succeed io now r st =
     (let r = record_succeed now r in
      case persist_record io r st of
        (Inl e, st) \<Rightarrow> (Inl e, st)
      | (Inr _, st) \<Rightarrow> (Inr r, st))"

definition journal_fail :: "journal_io \<Rightarrow> string \<Rightarrow> string \<Rightarrow> operation_record \<Rightarrow> journal_dir \<Rightarrow>
    operation_record result \<times> journal_dir" where
  "journal_fail io now error r st =
     (let r = record_fail now error r in
      case persist_record io r st of
        (Inl e, st) \<Rightarrow> (Inl e, st)
      | (Inr _, st) \<Rightarrow> (Inr r, st))"

text \<open>A file that cannot be read or does not decode is skipped.\<close>

definition read_record :: "journal_io \<Rightarrow> string \<Rightarrow> operation_record option \<Rightarrow> operation_record option" where
  "read_record io stem file = (if jo_read io stem then file else None)"

fun close_loop :: "journal_io \<Rightarrow> string \<Rightarrow> string \<Rightarrow> journal_dir \<Rightarrow> string list \<Rightarrow> journal_dir \<Rightarrow>
    string list result \<times> journal_dir" where
  "close_loop io now reason [] closed st = (Inr closed, st)"
| "close_loop io now reason ((stem, file) # entries) closed st =
     (case read_record io stem file of
        None \<Rightarrow> close_loop io now reason entries closed st
      | Some r \<Rightarrow>
          if \<not> op_open r then close_loop io now reason entries closed st
          else
            (case persist_record io (record_fail now reason r) st of
               (Inl e, st) \<Rightarrow> (Inl e, st)
             | (Inr _, st) \<Rightarrow> close_loop io now reason entries (closed @ [op_id r]) st))"

definition close_unfinished_records :: "journal_io \<Rightarrow> string \<Rightarrow> string \<Rightarrow> journal_dir \<Rightarrow>
    string list result \<times> journal_dir" where
  "close_unfinished_records io now reason st =
     (case jo_read_dir io of
        DirMissing \<Rightarrow> (Inr [], st)
      | DirFailed \<Rightarrow> (bail ''failed to read operation journal'', st)
      | DirOk \<Rightarrow> close_loop io now reason st [] st)"

definition JOURNAL_TERMINAL_LIMIT :: nat where
  "JOURNAL_TERMINAL_LIMIT = 1000"

definition terminal_entries :: "journal_io \<Rightarrow> journal_dir \<Rightarrow> (string \<times> string) list" where
  "terminal_entries io st =
     concat (map (\<lambda>(stem, file). case read_record io stem file of
         None \<Rightarrow> []
       | Some r \<Rightarrow> if op_open r then [] else [(op_updated_at r, stem)]) st)"

text \<open>A stable sort with the newest first: ties keep the directory order.\<close>

definition newest_first :: "(string \<times> string) list \<Rightarrow> (string \<times> string) list" where
  "newest_first xs = rev (sort_key fst (rev xs))"

fun remove_loop :: "journal_io \<Rightarrow> string list \<Rightarrow> nat \<Rightarrow> journal_dir \<Rightarrow> nat result \<times> journal_dir" where
  "remove_loop io [] removed st = (Inr removed, st)"
| "remove_loop io (stem # stems) removed st =
     (case jo_remove io stem of
        Removed \<Rightarrow> remove_loop io stems (removed + 1) (filter (\<lambda>(s, f). s \<noteq> stem) st)
      | AlreadyGone \<Rightarrow> remove_loop io stems removed (filter (\<lambda>(s, f). s \<noteq> stem) st)
      | RemoveFailed \<Rightarrow> (bail ''failed to remove journal record'', st))"

definition prune_terminal_records :: "journal_io \<Rightarrow> journal_dir \<Rightarrow> nat result \<times> journal_dir" where
  "prune_terminal_records io st =
     (case jo_read_dir io of
        DirMissing \<Rightarrow> (Inr 0, st)
      | DirFailed \<Rightarrow> (bail ''failed to read operation journal'', st)
      | DirOk \<Rightarrow>
          let terminal = terminal_entries io st in
          if length terminal \<le> JOURNAL_TERMINAL_LIMIT then (Inr 0, st)
          else remove_loop io (map snd (drop JOURNAL_TERMINAL_LIMIT (newest_first terminal))) 0 st)"

definition load_operation :: "journal_io \<Rightarrow> string \<Rightarrow> journal_dir \<Rightarrow> operation_record result" where
  "load_operation io i st =
     (if \<not> jo_read io i then bail ''failed to read operation journal''
      else (case map_of st i of
              None \<Rightarrow> bail ''failed to read operation journal''
            | Some None \<Rightarrow> bail ''failed to parse operation journal''
            | Some (Some r) \<Rightarrow> Inr r))"

fun latest_loop :: "journal_io \<Rightarrow> journal_dir \<Rightarrow> operation_record option \<Rightarrow> operation_record option" where
  "latest_loop io [] best = best"
| "latest_loop io ((stem, file) # entries) best =
     (case read_record io stem file of
        None \<Rightarrow> latest_loop io entries best
      | Some r \<Rightarrow>
          latest_loop io entries
            (case best of
               None \<Rightarrow> Some r
             | Some b \<Rightarrow> if op_updated_at r > op_updated_at b then Some r else best))"

definition latest :: "journal_io \<Rightarrow> journal_dir \<Rightarrow> operation_record option result" where
  "latest io st =
     (case jo_read_dir io of
        DirMissing \<Rightarrow> Inr None
      | DirFailed \<Rightarrow> bail ''failed to read operation journal''
      | DirOk \<Rightarrow> Inr (latest_loop io st None))"

section \<open>Operations in flight\<close>

record active_operation =
  ao_id :: string
  ao_action :: string
  ao_target :: string
  ao_started :: nat

type_synonym active_operations = "(string, active_operation) btree"

definition active_begin :: "string \<Rightarrow> string \<Rightarrow> string \<Rightarrow> nat \<Rightarrow> active_operations \<Rightarrow> active_operations" where
  "active_begin i action target now m =
     bt_insert i \<lparr> ao_id = i, ao_action = action, ao_target = target, ao_started = now \<rparr> m"

text \<open>Dropping the guard that \<open>begin\<close> returned.\<close>

definition active_end :: "string \<Rightarrow> active_operations \<Rightarrow> active_operations" where
  "active_end i m = bt_remove i m"

definition in_flight :: "active_operations \<Rightarrow> active_operation list" where
  "in_flight m = map snd m"

text \<open>
  \<open>wait_for_drain\<close>: the table at each wake-up, with whether time is left; the last table is the one
  seen when the deadline has passed.
\<close>

fun wait_for_drain :: "active_operations \<Rightarrow> (bool \<times> active_operations) list \<Rightarrow> active_operation list" where
  "wait_for_drain m [] = in_flight m"
| "wait_for_drain m ((time_left, next_m) # wakes) =
     (if m = [] then [] else if \<not> time_left then in_flight m else wait_for_drain next_m wakes)"

section \<open>Lemmas\<close>

definition journal_ok :: "journal_dir \<Rightarrow> bool" where
  "journal_ok st \<longleftrightarrow> distinct (map fst st) \<and> (\<forall>k r. map_of st k = Some (Some r) \<longrightarrow> op_id r = k)"

lemma record_fail_fields [simp]:
  "op_id (record_fail now e r) = op_id r" "\<not> op_open (record_fail now e r)"
  by (simp_all add: record_fail_def op_open_def)

lemma journal_ok_put: "journal_ok st \<Longrightarrow> op_id r = k \<Longrightarrow> journal_ok (put_file k (Some r) st)"
  by (auto simp: journal_ok_def put_file_distinct simp del: map_of_eq_Some_iff)

text \<open>What closing does to one file.\<close>

definition closed_file :: "string \<Rightarrow> string \<Rightarrow> operation_record option \<Rightarrow> operation_record option" where
  "closed_file now reason file =
     map_option (\<lambda>r. if op_open r then record_fail now reason r else r) file"

lemma closed_file_open:
  "op_open r \<Longrightarrow> closed_file now reason (Some r) = Some (record_fail now reason r)"
  by (simp add: closed_file_def)

lemma close_loop_spec:
  assumes "close_loop io now reason entries closed st = (Inr ids, st')"
    and "distinct (map fst entries)" "\<forall>(k, f)\<in>set entries. \<forall>r. f = Some r \<longrightarrow> op_id r = k"
    and "\<forall>(k, f)\<in>set entries. map_of st k = Some f" "\<forall>k\<in>fst ` set entries. jo_read io k"
  shows "map_of st' k = (if k \<in> fst ` set entries
    then map_option (closed_file now reason) (map_of st k) else map_of st k)"
  using assms
proof (induction entries arbitrary: closed st)
  case Nil
  then show ?case by simp
next
  case (Cons e entries)
  obtain stem fl where e: "e = (stem, fl)" by (cases e)
  have rd: "read_record io stem fl = fl" using Cons.prems(5) by (simp add: e read_record_def)
  have st: "map_of st stem = Some fl" using Cons.prems(4) by (simp add: e)
  have fresh: "stem \<notin> fst ` set entries" using Cons.prems(2) by (simp add: e)
  note rest = Cons.prems(2,3,5)
  show ?case
  proof (cases "\<exists>r. fl = Some r \<and> op_open r")
    case False
    then have "close_loop io now reason entries closed st = (Inr ids, st')"
      using Cons.prems(1) by (auto simp: e rd split: option.splits)
    moreover have "closed_file now reason fl = fl"
      using False by (cases fl) (auto simp: closed_file_def)
    ultimately show ?thesis
      using Cons.IH [of closed st] Cons.prems st fresh by (auto simp: e)
  next
    case True
    then obtain r where r: "fl = Some r" "op_open r" by blast
    have rd': "read_record io stem (Some r) = Some r" using rd r by simp
    have id: "op_id r = stem" using Cons.prems(3) by (simp add: e r)
    have p: "persist_record io (record_fail now reason r) st =
        (Inr (), put_file stem (Some (record_fail now reason r)) st)"
      using Cons.prems(1) by (auto simp: e rd' r id persist_record_def bail_def split: if_splits)
    let ?st = "put_file stem (Some (record_fail now reason r)) st"
    have "close_loop io now reason entries (closed @ [op_id r]) ?st = (Inr ids, st')"
      using Cons.prems(1) by (simp add: e rd' r p)
    moreover have "\<forall>(k, f)\<in>set entries. map_of ?st k = Some f"
      using Cons.prems(4) fresh by (force simp: e)
    ultimately have "map_of st' k = (if k \<in> fst ` set entries
        then map_option (closed_file now reason) (map_of ?st k) else map_of ?st k)"
      using Cons.IH [of "closed @ [op_id r]" ?st] rest by (simp add: e)
    then show ?thesis
      using fresh st r by (cases "k = stem") (simp_all add: e closed_file_open)
  qed
qed

text \<open>C22: When the startup close succeeds on a readable journal, every record that was planned or running
  is now failed with the given reason, every terminal record and every undecodable file is unchanged,
  and no open record is left.
\<close>

theorem close_unfinished_closes_all:
  assumes "journal_ok st" "\<forall>k. jo_read io k" "jo_read_dir io = DirOk"
    and "close_unfinished_records io now reason st = (Inr ids, st')"
  shows "(\<forall>k. map_of st' k = map_option (closed_file now reason) (map_of st k)) \<and>
    (\<forall>k r. map_of st' k = Some (Some r) \<longrightarrow> \<not> op_open r)"
proof -
  have entries: "\<forall>(k, f)\<in>set st. map_of st k = Some f"
    "\<forall>(k, f)\<in>set st. \<forall>r. f = Some r \<longrightarrow> op_id r = k"
    using assms(1) by (auto simp: journal_ok_def)
  have "map_of st' k = map_option (closed_file now reason) (map_of st k)" for k
  proof -
    have loop: "close_loop io now reason st [] st = (Inr ids, st')"
      using assms(3,4) by (simp add: close_unfinished_records_def)
    have "map_of st k = None" if "k \<notin> fst ` set st" using that by (simp add: map_of_eq_None_iff)
    then show ?thesis
      using close_loop_spec [OF loop _ entries(2,1), of k] assms(1,2)
      by (auto simp: journal_ok_def simp del: map_of_eq_Some_iff)
  qed
  moreover have "\<not> op_open r" if "closed_file now reason f = Some r" for f r
    using that by (cases f) (auto simp: closed_file_def split: if_splits)
  ultimately show ?thesis by auto
qed

definition sample_journal_io :: journal_io where
  "sample_journal_io = \<lparr> jo_create_dir = True, jo_read_dir = DirOk, jo_read = (\<lambda>_. True),
     jo_write = (\<lambda>_. True), jo_remove = (\<lambda>_. Removed) \<rparr>"

definition sample_op :: operation_record where
  "sample_op = operation_new ''i'' ''t0'' ''workspace.start'' ''s/w''"

theorem close_unfinished_closes_all_witness:
  "map_of (snd (close_unfinished_records sample_journal_io ''t1'' ''lost'' [(''i'', Some sample_op)])) ''i''
     = Some (closed_file ''t1'' ''lost'' (Some sample_op))"
proof -
  have "close_unfinished_records sample_journal_io ''t1'' ''lost'' [(''i'', Some sample_op)] =
      (Inr [''i''], snd (close_unfinished_records sample_journal_io ''t1'' ''lost'' [(''i'', Some sample_op)]))"
    by (simp add: sample_op_def operation_new_def sample_journal_io_def close_unfinished_records_def
        read_record_def op_open_def persist_record_def record_fail_def)
  from close_unfinished_closes_all [OF _ _ _ this] show ?thesis
    by (simp add: journal_ok_def sample_op_def operation_new_def sample_journal_io_def)
qed

section \<open>Retention\<close>

definition terminal_file :: "journal_io \<Rightarrow> string \<times> operation_record option \<Rightarrow> bool" where
  "terminal_file io e =
     (case read_record io (fst e) (snd e) of None \<Rightarrow> False | Some r \<Rightarrow> \<not> op_open r)"

lemma terminal_entries_stems:
  "map snd (terminal_entries io st) = map fst (filter (terminal_file io) st)"
  by (induction st) (auto simp: terminal_entries_def terminal_file_def split: option.splits)

lemma set_newest_first [simp]: "set (newest_first xs) = set xs"
  by (simp add: newest_first_def)

lemma length_newest_first [simp]: "length (newest_first xs) = length xs"
  by (simp add: newest_first_def)

lemma distinct_newest_first: "distinct (map snd xs) \<Longrightarrow> distinct (map snd (newest_first xs))"
  by (simp add: newest_first_def distinct_map)

lemma newest_first_sorted: "sorted_wrt (\<ge>) (map fst (newest_first xs))"
  by (simp add: newest_first_def rev_map [symmetric] sorted_wrt_rev)

lemma newest_first_split:
  assumes "a \<in> set (take n (newest_first xs))" "b \<in> set (drop n (newest_first xs))"
  shows "fst b \<le> fst a"
proof -
  have "sorted_wrt (\<ge>) (map fst (take n (newest_first xs)) @ map fst (drop n (newest_first xs)))"
    using newest_first_sorted [of xs] by (simp flip: map_append)
  then show ?thesis using assms by (auto simp: sorted_wrt_append)
qed

lemma remove_loop_all:
  "\<forall>s. jo_remove io s = Removed \<Longrightarrow>
   remove_loop io stems n st = (Inr (n + length stems), filter (\<lambda>(s, f). s \<notin> set stems) st)"
  by (induction stems arbitrary: n st) (auto simp: filter_filter intro!: filter_cong)

lemma terminal_entries_mem:
  "(u, k) \<in> set (terminal_entries io st) \<longleftrightarrow>
   (\<exists>r. (k, Some r) \<in> set st \<and> terminal_file io (k, Some r) \<and> u = op_updated_at r)"
proof -
  have one: "(u, k) \<in> set (case read_record io stem f of None \<Rightarrow> []
      | Some r \<Rightarrow> if op_open r then [] else [(op_updated_at r, stem)]) \<longleftrightarrow>
    (\<exists>r. k = stem \<and> f = Some r \<and> terminal_file io (k, Some r) \<and> u = op_updated_at r)" for stem f
    by (auto simp: terminal_file_def read_record_def split: option.splits if_splits)
  show ?thesis
  proof (induction st)
    case (Cons e st)
    obtain stem f where e: "e = (stem, f)" by (cases e)
    have "terminal_entries io (e # st) = (case read_record io stem f of None \<Rightarrow> []
        | Some r \<Rightarrow> if op_open r then [] else [(op_updated_at r, stem)]) @ terminal_entries io st"
      by (simp add: terminal_entries_def e)
    then show ?case using Cons by (simp only: set_append Un_iff one) (auto simp: e)
  qed (simp add: terminal_entries_def)
qed

lemma length_filter_notin:
  assumes "distinct S" "distinct D" "set D \<subseteq> set S"
  shows "length (filter (\<lambda>x. x \<notin> set D) S) = length S - length D"
proof -
  have "length (filter (\<lambda>x. x \<notin> set D) S) = card (set S - set D)"
    using assms(1) distinct_card [of "filter (\<lambda>x. x \<notin> set D) S"] by (simp add: set_diff_eq)
  then show ?thesis
    using assms by (simp add: card_Diff_subset distinct_card)
qed

text \<open>The stems past the limit, and the directory without them.\<close>

definition excess :: "journal_io \<Rightarrow> journal_dir \<Rightarrow> string list" where
  "excess io st = map snd (drop JOURNAL_TERMINAL_LIMIT (newest_first (terminal_entries io st)))"

lemma prune_result:
  assumes "jo_read_dir io = DirOk" "\<forall>s. jo_remove io s = Removed"
  shows "prune_terminal_records io st =
    (Inr (length (excess io st)), filter (\<lambda>(s, f). s \<notin> set (excess io st)) st)"
  using assms remove_loop_all [OF assms(2)]
  by (simp add: prune_terminal_records_def excess_def Let_def case_prod_unfold)

lemma excess_length:
  "length (excess io st) = length (filter (terminal_file io) st) - JOURNAL_TERMINAL_LIMIT"
  using arg_cong [OF terminal_entries_stems [of io st], of length] by (simp add: excess_def)

lemma excess_distinct: "journal_ok st \<Longrightarrow> distinct (excess io st)"
proof -
  assume "journal_ok st"
  then have "distinct (map snd (terminal_entries io st))"
    unfolding terminal_entries_stems by (simp add: journal_ok_def distinct_map_filter_fst)
  from distinct_newest_first [OF this] show ?thesis by (simp add: excess_def drop_map [symmetric])
qed

lemma excess_terminal:
  assumes "journal_ok st" "k \<in> set (excess io st)" "(k, f) \<in> set st"
  shows "terminal_file io (k, f)"
proof -
  obtain u where "(u, k) \<in> set (terminal_entries io st)"
    using assms(2) by (auto simp: excess_def dest: in_set_dropD)
  then obtain r where "(k, Some r) \<in> set st" "terminal_file io (k, Some r)"
    by (auto simp: terminal_entries_mem)
  then show ?thesis
    using assms(1,3) by (metis eq_key_imp_eq_value journal_ok_def)
qed

lemma pruned_terminal_count:
  assumes "journal_ok st"
  shows "length (filter (terminal_file io) (filter (\<lambda>(s, f). s \<notin> set (excess io st)) st)) =
    length (filter (terminal_file io) st) - length (excess io st)"
proof -
  let ?S = "map fst (filter (terminal_file io) st)"
  have "set (excess io st) \<subseteq> set ?S"
    unfolding terminal_entries_stems [symmetric]
    by (force simp: excess_def dest: in_set_dropD)
  moreover have "distinct ?S" using assms by (simp add: journal_ok_def distinct_map_filter_fst)
  ultimately have "length (filter (\<lambda>x. x \<notin> set (excess io st)) ?S) =
      length ?S - length (excess io st)"
    using excess_distinct [OF assms] by (intro length_filter_notin)
  then show ?thesis
    by (simp add: filter_map comp_def case_prod_unfold conj_commute)
qed

lemma pruned_not_newer:
  assumes ok: "journal_ok st" and kept: "(k, Some r) \<in> set st" "k \<notin> set (excess io st)"
    and "terminal_file io (k, Some r)"
    and gone: "(k', Some r') \<in> set st" "k' \<in> set (excess io st)"
  shows "op_updated_at r' \<le> op_updated_at r"
proof -
  let ?T = "newest_first (terminal_entries io st)" and ?n = JOURNAL_TERMINAL_LIMIT
  have "(op_updated_at r, k) \<in> set ?T" using kept assms(4) by (auto simp: terminal_entries_mem)
  then have "(op_updated_at r, k) \<in> set (take ?n ?T) \<union> set (drop ?n ?T)"
    by (metis append_take_drop_id set_append)
  then have take: "(op_updated_at r, k) \<in> set (take ?n ?T)"
    using kept(2) by (force simp: excess_def)
  obtain u where u: "(u, k') \<in> set (drop ?n ?T)" using gone(2) by (auto simp: excess_def)
  then obtain r'' where "(k', Some r'') \<in> set st" "u = op_updated_at r''"
    by (auto simp: terminal_entries_mem dest!: in_set_dropD)
  moreover have "r'' = r'"
    using ok gone(1) calculation(1) by (metis eq_key_imp_eq_value journal_ok_def option.inject)
  ultimately show ?thesis using newest_first_split [OF take u] by simp
qed

text \<open>Trimming the journal keeps the newest: with at most the limit nothing is removed, and otherwise
  exactly the excess is removed, no open or unreadable record is touched, the terminal records left
  are as many as the limit, and none of the removed records is newer than one that is left.
\<close>

theorem prune_keeps_newest:
  assumes "journal_ok st" "jo_read_dir io = DirOk" "\<forall>s. jo_remove io s = Removed"
    and "prune_terminal_records io st = (r, st')"
  shows "r = Inr (length (filter (terminal_file io) st) - JOURNAL_TERMINAL_LIMIT) \<and>
    filter (\<lambda>e. \<not> terminal_file io e) st' = filter (\<lambda>e. \<not> terminal_file io e) st \<and>
    length (filter (terminal_file io) st') =
      min JOURNAL_TERMINAL_LIMIT (length (filter (terminal_file io) st)) \<and>
    (\<forall>k r k' r'. (k, Some r) \<in> set st' \<longrightarrow> terminal_file io (k, Some r) \<longrightarrow>
      (k', Some r') \<in> set st - set st' \<longrightarrow> op_updated_at r' \<le> op_updated_at r)"
proof -
  have st': "r = Inr (length (excess io st))"
      "st' = filter (\<lambda>(s, f). s \<notin> set (excess io st)) st"
    using assms(4) unfolding prune_result [OF assms(2,3)] by simp_all
  have "filter (\<lambda>e. \<not> terminal_file io e) st' = filter (\<lambda>e. \<not> terminal_file io e) st"
    unfolding st' filter_filter
    by (rule filter_cong) (use excess_terminal [OF assms(1)] in auto)
  moreover have "length (filter (terminal_file io) st') =
      min JOURNAL_TERMINAL_LIMIT (length (filter (terminal_file io) st))"
    unfolding st' pruned_terminal_count [OF assms(1)] excess_length by simp
  moreover have "op_updated_at q' \<le> op_updated_at q"
    if "(k, Some q) \<in> set st'" "terminal_file io (k, Some q)" "(k', Some q') \<in> set st - set st'"
    for k q k' q'
    using that pruned_not_newer [OF assms(1), of k q io k' q'] by (auto simp: st'(2))
  ultimately show ?thesis using st'(1) by (auto simp: excess_length)
qed

text \<open>A journal one record over the limit.\<close>

definition full_journal :: journal_dir where
  "full_journal = map (\<lambda>n. let i = replicate n CHR ''x'' in
     (i, Some ((operation_new i ''t0'' ''workspace.start'' ''s/w'')\<lparr> op_status := OpSucceeded \<rparr>)))
     [0..<Suc JOURNAL_TERMINAL_LIMIT]"

lemma full_journal_ok: "journal_ok full_journal"
  by (auto simp: journal_ok_def full_journal_def Let_def operation_new_def comp_def distinct_map
      inj_on_def replicate_eq_replicate dest!: map_of_SomeD simp del: upt_Suc)

lemma full_journal_terminal: "filter (terminal_file sample_journal_io) full_journal = full_journal"
  by (simp add: filter_id_conv full_journal_def Let_def terminal_file_def read_record_def
      sample_journal_io_def op_open_def)

theorem prune_keeps_newest_witness:
  "fst (prune_terminal_records sample_journal_io full_journal) = Inr 1"
  using prune_keeps_newest [OF full_journal_ok, of sample_journal_io
      "fst (prune_terminal_records sample_journal_io full_journal)"
      "snd (prune_terminal_records sample_journal_io full_journal)"]
  by (simp add: full_journal_terminal) (simp add: sample_journal_io_def full_journal_def)

section \<open>Shared operation ids\<close>

text \<open>C23: The table of operations in flight is keyed by the operation id, which a retry may share with
  the attempt it repeats. When two requests run under one id, the end of the first removes the entry
  of both: a shutdown that waits then reports nothing, while the second still runs.
\<close>

theorem shared_id_hides_running_operation:
  assumes "bt_get m i = None" "bt_wf m"
  shows "wait_for_drain (active_end i (active_begin i action target now'
      (active_begin i action target now m))) wakes = wait_for_drain m wakes"
proof -
  have "active_end i (active_begin i action target now' (active_begin i action target now m)) = m"
    using assms by (simp add: active_end_def active_begin_def bt.store_store bt.erase_store)
  then show ?thesis by simp
qed

theorem shared_id_hides_running_operation_witness:
  "wait_for_drain (active_end ''i'' (active_begin ''i'' ''workspace.start'' ''s/w'' 2
      (active_begin ''i'' ''workspace.start'' ''s/w'' 1 []))) [] = wait_for_drain [] []"
  by (rule shared_id_hides_running_operation) simp_all

lemma latest_loop_spec:
  "case latest_loop io st best of
      None \<Rightarrow> best = None \<and> (\<forall>k f. (k, f) \<in> set st \<longrightarrow> read_record io k f = None)
    | Some b \<Rightarrow> (best = Some b \<or> (\<exists>k f. (k, f) \<in> set st \<and> read_record io k f = Some b)) \<and>
        (\<forall>k f r. (k, f) \<in> set st \<longrightarrow> read_record io k f = Some r \<longrightarrow> op_updated_at r \<le> op_updated_at b) \<and>
        (\<forall>c. best = Some c \<longrightarrow> op_updated_at c \<le> op_updated_at b)"
proof (induction io st best rule: latest_loop.induct)
  case (1 io best)
  then show ?case by (cases best) auto
next
  case (2 io stem fl entries best)
  show ?case
  proof (cases "read_record io stem fl")
    case None
    then show ?thesis using 2(1) by (auto split: option.splits)
  next
    case (Some r)
    then show ?thesis
      using 2(2) [OF Some] by (cases best) (fastforce split: option.splits if_splits)+
  qed
qed

text \<open>
  \<open>latest\<close> returns a record exactly when one can be read and decoded, and then one that no other
  readable record was updated after.
\<close>

theorem latest_is_newest:
  assumes "latest io st = Inr best" "jo_read_dir io = DirOk"
  shows "case best of
      None \<Rightarrow> \<forall>(k, f)\<in>set st. read_record io k f = None
    | Some b \<Rightarrow> (\<exists>k f. (k, f) \<in> set st \<and> read_record io k f = Some b) \<and>
        (\<forall>(k, f)\<in>set st. \<forall>r. read_record io k f = Some r \<longrightarrow> op_updated_at r \<le> op_updated_at b)"
  using assms latest_loop_spec [where io = io and st = st and best = None]
  by (auto simp: latest_def split: option.splits)

theorem latest_is_newest_witness:
  "case Some sample_op of
      None \<Rightarrow> \<forall>(k, f)\<in>set [(''i'', Some sample_op)]. read_record sample_journal_io k f = None
    | Some b \<Rightarrow> (\<exists>k f. (k, f) \<in> set [(''i'', Some sample_op)] \<and> read_record sample_journal_io k f = Some b) \<and>
        (\<forall>(k, f)\<in>set [(''i'', Some sample_op)]. \<forall>r. read_record sample_journal_io k f = Some r \<longrightarrow>
          op_updated_at r \<le> op_updated_at b)"
  by (rule latest_is_newest) (simp_all add: latest_def sample_journal_io_def read_record_def)

end
