(* ===== verification/Selectors.thy ===== *)
theory Selectors
  imports Metadata Fsutil
begin

text \<open>
  Names and selectors (\<open>sandbox/util/identity.rs\<close>, \<open>workspace/control/state/resolve.rs\<close>,
  \<open>workspace/control/query.rs\<close>): a request names a sandbox or a workspace by id or by name. The id
  wins, an ambiguous name is a conflict, and an unknown selector is not found. The locale
  \<open>selectable\<close> is the shared contract of the two resolvers.
\<close>

section \<open>Names\<close>

definition validate_name :: "string \<Rightarrow> unit result" where
  "validate_name name =
     (if name = [] \<or> length name > 63 then bail ''sandbox name must be 1-63 characters''
      else if \<not> is_ascii_alphanumeric (hd name)
      then bail ''sandbox name must start with an ASCII letter or digit''
      else if \<not> list_all (\<lambda>c. is_ascii_alphanumeric c \<or> c = CHR ''-'' \<or> c = CHR ''_'') (tl name)
      then bail ''sandbox name contains invalid character''
      else Inr ())"

definition generate_sandbox_id :: "string \<Rightarrow> string \<Rightarrow> string" where
  "generate_sandbox_id uuid_simple name = slugify name ''sandbox'' @ ''-'' @ take 12 uuid_simple"

definition ALLOWED_SUITES :: "string list" where
  "ALLOWED_SUITES = [''bookworm'', ''bullseye'', ''trixie'', ''sid'', ''stable'', ''testing'', ''oldstable'']"

text \<open>Whether a UTF-8 text contains a white space character, at any position.\<close>

fun contains_whitespace :: "string \<Rightarrow> bool" where
  "contains_whitespace [] = False"
| "contains_whitespace (a # s) =
     (ws1 a \<or> (case s of [] \<Rightarrow> False
        | b # t \<Rightarrow> ws2 a b \<or> (case t of [] \<Rightarrow> False | c # _ \<Rightarrow> ws3 a b c)) \<or>
      contains_whitespace s)"

definition ends_with_char :: "char \<Rightarrow> string \<Rightarrow> bool" where
  "ends_with_char c s = (s \<noteq> [] \<and> last s = c)"

definition mirror_host :: "string \<Rightarrow> string" where
  "mirror_host mirror =
     (let host_part = (case strip_prefix ''http://'' mirror of
            Some r \<Rightarrow> r
          | None \<Rightarrow> (case strip_prefix ''https://'' mirror of Some r \<Rightarrow> r | None \<Rightarrow> [])) in
      hd (split_on CHR ''/'' host_part))"

definition validate_debootstrap_inputs :: "string \<Rightarrow> string \<Rightarrow> unit result" where
  "validate_debootstrap_inputs suite mirror =
     (if suite = [] \<or> length suite > 32 then bail ''suite must be 1-32 characters''
      else if \<not> list_all (\<lambda>c. is_ascii_lowercase c \<or> is_ascii_digit c \<or> c = CHR ''-'') suite
      then bail ''suite contains invalid characters''
      else if starts_with ''-'' suite then bail ''suite must not start with -''
      else if suite \<notin> set ALLOWED_SUITES then bail ''unsupported suite''
      else if mirror = [] \<or> length mirror > 200 then bail ''mirror must be 1-200 characters''
      else if contains_whitespace mirror then bail ''mirror must not contain whitespace''
      else if \<not> (starts_with ''http://'' mirror \<or> starts_with ''https://'' mirror)
      then bail ''mirror must start with http:// or https://''
      else if starts_with ''file://'' mirror then bail ''file:// mirrors are not allowed''
      else if mirror_host mirror = [] \<or> ends_with_char CHR '':'' (mirror_host mirror)
      then bail ''mirror URL must include a host''
      else Inr ())"

section \<open>Selectors\<close>

text \<open>The choice both resolvers make over the entries of a map, given the name of an entry.\<close>

definition matches_by_name :: "('v \<Rightarrow> string) \<Rightarrow> string \<Rightarrow> (string, 'v) btree \<Rightarrow> string list" where
  "matches_by_name name_of selector m = map fst (filter (\<lambda>(k, v). name_of v = selector) m)"

definition resolve_sandbox_id :: "registry \<Rightarrow> string \<Rightarrow> string result" where
  "resolve_sandbox_id r selector =
     (if get_sandbox r selector \<noteq> None then Inr selector
      else
        (case matches_by_name (\<lambda>s. sm_name (rs_metadata s)) selector (reg_sandboxes r) of
           [] \<Rightarrow> bail_code NotFound ''sandbox not found (by id or name)''
         | [i] \<Rightarrow> Inr i
         | _ \<Rightarrow> bail_code Conflict ''sandbox name is ambiguous; use id instead''))"

definition resolve_workspace_id :: "registry_sandbox \<Rightarrow> string \<Rightarrow> string result" where
  "resolve_workspace_id s selector =
     (if bt_get (rs_workspaces s) selector \<noteq> None then Inr selector
      else
        (case matches_by_name wm_name selector (rs_workspaces s) of
           [] \<Rightarrow> bail_code NotFound ''workspace not found in sandbox''
         | [i] \<Rightarrow> Inr i
         | _ \<Rightarrow> bail_code Conflict ''workspace name is ambiguous in sandbox; use id instead''))"

definition workspace_metadata_of :: "registry \<Rightarrow> string \<Rightarrow> string \<Rightarrow> workspace_metadata result" where
  "workspace_metadata_of r sandbox_selector workspace_selector =
     and_then (resolve_sandbox_id r sandbox_selector) (\<lambda>sandbox_id.
     and_then (ok_or (Message ''sandbox not found'') (get_sandbox r sandbox_id)) (\<lambda>sandbox.
     and_then (resolve_workspace_id sandbox workspace_selector) (\<lambda>workspace_id.
       ok_or (Message ''workspace not found'') (bt_get (rs_workspaces sandbox) workspace_id))))"

definition list_workspaces :: "registry \<Rightarrow> string option \<Rightarrow> workspace_metadata list result" where
  "list_workspaces r sandbox_selector =
     and_then
       (case sandbox_selector of
          Some selector \<Rightarrow>
            and_then (resolve_sandbox_id r selector) (\<lambda>sandbox_id.
            and_then (ok_or (Message ''sandbox not found'') (get_sandbox r sandbox_id)) (\<lambda>sandbox.
              Inr (map snd (rs_workspaces sandbox))))
        | None \<Rightarrow> Inr (concat (map (\<lambda>(k, s). map snd (rs_workspaces s)) (reg_sandboxes r))))
       (\<lambda>ws. Inr (sort_key wm_created_at ws))"

record workspace_list_item =
  li_id :: string
  li_name :: string
  li_status :: workspace_status

definition list_workspace_items :: "registry \<Rightarrow> string \<Rightarrow> workspace_list_item list result" where
  "list_workspace_items r sandbox_selector =
     and_then (resolve_sandbox_id r sandbox_selector) (\<lambda>sandbox_id.
     and_then (ok_or (Message ''sandbox not found'') (get_sandbox r sandbox_id)) (\<lambda>sandbox.
       Inr (sort_key li_id (map (\<lambda>(k, w). \<lparr> li_id = wm_id w, li_name = wm_name w,
              li_status = wm_status w \<rparr>) (rs_workspaces sandbox)))))"

text \<open>
  \<open>process_matches\<close> and \<open>namespace_refs_match\<close> are what the process table says of the recorded
  runtime.
\<close>

definition workspace_runtime_is_active :: "(u32 \<Rightarrow> u64 \<Rightarrow> bool) \<Rightarrow> (u32 \<Rightarrow> bool) \<Rightarrow>
    workspace_metadata \<Rightarrow> bool" where
  "workspace_runtime_is_active process_matches namespace_refs_match w =
     (wm_status w = WsRunning \<and>
      (case (wm_runtime_pid w, wm_runtime_starttime_ticks w) of
         (Some pid, Some starttime) \<Rightarrow> process_matches pid starttime \<and> namespace_refs_match pid
       | _ \<Rightarrow> False))"

section \<open>The contract of a resolver\<close>

locale selectable =
  fixes ids :: "'m \<Rightarrow> string set"
    and name_in :: "'m \<Rightarrow> string \<Rightarrow> string"
    and resolve :: "'m \<Rightarrow> string \<Rightarrow> string result"
    and ok :: "'m \<Rightarrow> bool"
  assumes by_id: "i \<in> ids m \<Longrightarrow> resolve m i = Inr i"
    and by_name: "ok m \<Longrightarrow> s \<notin> ids m \<Longrightarrow>
      resolve m s = Inr i \<longleftrightarrow> {j \<in> ids m. name_in m j = s} = {i}"
    and failure: "resolve m s = Inl e \<Longrightarrow> code_of e = NotFound \<or> code_of e = Conflict"
begin

lemma resolved_exists: "ok m \<Longrightarrow> resolve m s = Inr i \<Longrightarrow> i \<in> ids m"
  using by_id [of s m] by_name [of m s i] by (cases "s \<in> ids m") auto

lemma idempotent: "ok m \<Longrightarrow> resolve m s = Inr i \<Longrightarrow> resolve m i = Inr i"
  by (rule by_id) (rule resolved_exists)

text \<open>The id and a name that is neither an id nor shared denote the same entry.\<close>

lemma name_and_id_agree:
  assumes "ok m" "i \<in> ids m" "name_in m i \<notin> ids m"
    and "\<And>j. j \<in> ids m \<Longrightarrow> name_in m j = name_in m i \<Longrightarrow> j = i"
  shows "resolve m (name_in m i) = resolve m i"
proof -
  have "{j \<in> ids m. name_in m j = name_in m i} = {i}" using assms(2,4) by auto
  then show ?thesis using by_name [OF assms(1,3), of i] by_id [OF assms(2)] by simp
qed

lemma never_another:
  "ok m \<Longrightarrow> resolve m s = Inr i \<Longrightarrow> i = s \<or> name_in m i = s"
  using by_id [of s m] by_name [of m s i] by (cases "s \<in> ids m") auto

end

lemma singleton_list_iff: "distinct xs \<Longrightarrow> xs = [i] \<longleftrightarrow> set xs = {i}"
proof -
  assume d: "distinct xs"
  show ?thesis
  proof
    assume "set xs = {i}"
    with d show "xs = [i]" by (cases xs; cases "tl xs") auto
  qed simp
qed

lemma single_match:
  assumes "bt_wf m"
  shows "(case matches_by_name name_of s m of [] \<Rightarrow> bail_code NotFound a | [i] \<Rightarrow> Inr i
      | _ \<Rightarrow> bail_code Conflict b) = Inr i \<longleftrightarrow>
    {j \<in> fst ` set m. name_of (the (bt_get m j)) = s} = {i}"
proof -
  have dist: "distinct (matches_by_name name_of s m)"
    using bt_wf_distinct [OF assms] unfolding matches_by_name_def
    by (induction m) auto
  have "set (matches_by_name name_of s m) = {j \<in> fst ` set m. name_of (the (bt_get m j)) = s}"
    using assms by (force simp: matches_by_name_def bt_wf_distinct)
  moreover have "matches_by_name name_of s m = [i] \<longleftrightarrow> set (matches_by_name name_of s m) = {i}"
    by (rule singleton_list_iff [OF dist])
  ultimately show ?thesis
    by (auto simp: bail_code_def split: list.splits)
qed

lemma single_match_failure:
  "(case xs of [] \<Rightarrow> bail_code NotFound a | [i] \<Rightarrow> Inr i | _ \<Rightarrow> bail_code Conflict b) = Inl e \<Longrightarrow>
   code_of e = NotFound \<or> code_of e = Conflict"
  by (auto simp: bail_code_def split: list.splits)

interpretation sandboxes: selectable
  "\<lambda>r. fst ` set (reg_sandboxes r)"
  "\<lambda>r i. sm_name (rs_metadata (the (get_sandbox r i)))"
  resolve_sandbox_id
  "\<lambda>r. bt_wf (reg_sandboxes r)"
proof
  fix r :: registry and i
  assume "i \<in> fst ` set (reg_sandboxes r)"
  then show "resolve_sandbox_id r i = Inr i"
    by (auto simp: resolve_sandbox_id_def get_sandbox_def map_of_eq_None_iff)
next
  fix r :: registry and s i
  assume "bt_wf (reg_sandboxes r)" "s \<notin> fst ` set (reg_sandboxes r)"
  then show "resolve_sandbox_id r s = Inr i \<longleftrightarrow>
      {j \<in> fst ` set (reg_sandboxes r). sm_name (rs_metadata (the (get_sandbox r j))) = s} = {i}"
    using single_match [where m = "reg_sandboxes r" and name_of = "\<lambda>s. sm_name (rs_metadata s)" and s = s]
    by (simp add: resolve_sandbox_id_def get_sandbox_def map_of_eq_None_iff)
next
  fix r :: registry and s e
  assume "resolve_sandbox_id r s = Inl e"
  then show "code_of e = NotFound \<or> code_of e = Conflict"
    by (auto simp: resolve_sandbox_id_def split: if_splits dest: single_match_failure)
qed

interpretation workspaces: selectable
  "\<lambda>s. fst ` set (rs_workspaces s)"
  "\<lambda>s i. wm_name (the (bt_get (rs_workspaces s) i))"
  resolve_workspace_id
  "\<lambda>s. bt_wf (rs_workspaces s)"
proof
  fix m :: registry_sandbox and i
  assume "i \<in> fst ` set (rs_workspaces m)"
  then show "resolve_workspace_id m i = Inr i"
    by (auto simp: resolve_workspace_id_def map_of_eq_None_iff)
next
  fix m :: registry_sandbox and s i
  assume "bt_wf (rs_workspaces m)" "s \<notin> fst ` set (rs_workspaces m)"
  then show "resolve_workspace_id m s = Inr i \<longleftrightarrow>
      {j \<in> fst ` set (rs_workspaces m). wm_name (the (bt_get (rs_workspaces m) j)) = s} = {i}"
    using single_match [where m = "rs_workspaces m" and name_of = wm_name and s = s]
    by (simp add: resolve_workspace_id_def map_of_eq_None_iff)
next
  fix m :: registry_sandbox and s e
  assume "resolve_workspace_id m s = Inl e"
  then show "code_of e = NotFound \<or> code_of e = Conflict"
    by (auto simp: resolve_workspace_id_def split: if_splits dest: single_match_failure)
qed

lemma workspace_metadata_of_found:
  assumes "registry_ok r" "workspace_metadata_of r ssel wsel = Inr w"
  shows "get_workspace r (wm_sandbox_id w) (wm_id w) = Some w \<and>
    resolve_sandbox_id r ssel = Inr (wm_sandbox_id w)"
proof -
  obtain sid s wid where s: "resolve_sandbox_id r ssel = Inr sid" "get_sandbox r sid = Some s"
      "resolve_workspace_id s wsel = Inr wid" "bt_get (rs_workspaces s) wid = Some w"
    using assms(2) by (auto simp: workspace_metadata_of_def result_simps)
  then have "get_workspace r sid wid = Some w" by (simp add: get_workspace_def)
  then show ?thesis using registry_ok_get_workspace [OF assms(1)] s(1) by auto
qed

text \<open>A selector never reaches the wrong workspace: what \<open>workspace_metadata\<close> returns is the
  registry's record of that workspace, its sandbox is the one the sandbox selector names by id or by
  name, and the workspace has the workspace selector as its id or as its name.
\<close>

theorem workspace_metadata_selects:
  assumes "registry_ok r" "workspace_metadata_of r ssel wsel = Inr w"
  shows "get_workspace r (wm_sandbox_id w) (wm_id w) = Some w \<and>
    (wm_sandbox_id w = ssel \<or> (\<exists>s. get_sandbox r (wm_sandbox_id w) = Some s \<and> sm_name (rs_metadata s) = ssel)) \<and>
    (wm_id w = wsel \<or> wm_name w = wsel)"
proof -
  obtain sid s wid where s: "resolve_sandbox_id r ssel = Inr sid" "get_sandbox r sid = Some s"
      "resolve_workspace_id s wsel = Inr wid" "bt_get (rs_workspaces s) wid = Some w"
    using assms(2) by (auto simp: workspace_metadata_of_def result_simps)
  have ok: "bt_wf (reg_sandboxes r)" "bt_wf (rs_workspaces s)"
    using assms(1) registry_ok_get [OF assms(1) s(2)] by (auto simp: registry_ok_def sandbox_ok_def)
  have ids: "wm_id w = wid" "wm_sandbox_id w = sid"
    using registry_ok_get_workspace [OF assms(1), of sid wid w] s by (simp_all add: get_workspace_def)
  show ?thesis
    using sandboxes.never_another [OF ok(1) s(1)] workspaces.never_another [OF ok(2) s(3)]
      workspace_metadata_of_found [OF assms] s ids by auto
qed

definition sample_registry :: registry where
  "sample_registry = registry_default\<lparr> reg_sandboxes :=
     [(''s-1'', \<lparr> rs_metadata = (blank_sandbox ''s-1'')\<lparr> sm_name := ''s'' \<rparr>,
        rs_workspaces = [(''w-1'', (blank_workspace ''s-1'' ''w-1'')\<lparr> wm_name := ''w'' \<rparr>)] \<rparr>)] \<rparr>"

lemma sample_registry_ok: "registry_ok sample_registry"
  by (simp add: sample_registry_def registry_ok_def sandbox_ok_def blank_sandbox_def
      blank_workspace_def bt_wf_def)

lemma sample_registry_select:
  "workspace_metadata_of sample_registry ''s'' ''w'' =
     Inr ((blank_workspace ''s-1'' ''w-1'')\<lparr> wm_name := ''w'' \<rparr>)"
  by (simp add: workspace_metadata_of_def resolve_sandbox_id_def resolve_workspace_id_def
      matches_by_name_def sample_registry_def get_sandbox_def blank_sandbox_def blank_workspace_def)

theorem workspace_metadata_selects_witness:
  "get_workspace sample_registry
      (wm_sandbox_id ((blank_workspace ''s-1'' ''w-1'')\<lparr> wm_name := ''w'' \<rparr>))
      (wm_id ((blank_workspace ''s-1'' ''w-1'')\<lparr> wm_name := ''w'' \<rparr>)) =
        Some ((blank_workspace ''s-1'' ''w-1'')\<lparr> wm_name := ''w'' \<rparr>)"
  using workspace_metadata_selects [OF sample_registry_ok sample_registry_select] by simp

end
