(* ===== verification/Requests.thy ===== *)
theory Requests
  imports Selectors Leases Exec_Queue Rate_Limiter Policy_Store Operations
begin

text \<open>
  From a connection to a response: the actions of the protocol (\<open>daemon/dispatch/action.rs\<close>), the lease a
  request needs (\<open>daemon/dispatch/lease_scope.rs\<close>), the routing (\<open>daemon/dispatch/mod.rs\<close>) and the
  handling of one client (\<open>daemon/request.rs\<close>). The handlers behind the routing table, the JSON
  decoder, fresh ids and the outcome of socket calls are inputs. The parameters of a request are read
  through the string value of a field.
\<close>

section \<open>Actions\<close>

datatype (plugins only: size) action =
    APing | ADaemonHealth | ADaemonDoctor | ADaemonDoctorRepair | AInit | ASandboxCreate |
    ASandboxUpdate | ASandboxResize | ASandboxStart | ASandboxStop | ASandboxPause |
    ASandboxResume | ASandboxStatus | ASandboxDestroy | ASandboxWipe | ASandboxList |
    ASandboxRemove | ASandboxExecSetup | AProcessList | AWorkspaceCreate | AWorkspaceStart |
    AWorkspaceStartMany | AWorkspaceStop | AWorkspaceDestroy | AWorkspaceWipe |
    AWorkspaceStatus | AWorkspaceStats | AWorkspaceStatsList | AWorkspaceList |
    AWorkspaceRemove | AWorkspaceUpdate | AWorkspaceResize | AWorkspaceExec |
    AWorkspaceExecCancel | AWorkspaceCommandBegin | AWorkspaceCommandEnd | AWorkspaceJobsList |
    AWorkspaceCp | AWorkspacePortPublish | AWorkspacePortUnpublish | AWorkspacePortList |
    AWorkspaceRuntime | AWorkspaceLogs | AWorkspaceSnapshot | AWorkspaceSnapshotList |
    AWorkspaceRestore | AWorkspaceSnapshotGc | AWorkspaceSnapshotExport |
    AWorkspaceSnapshotImport | ARegistryRepair | APolicyGet | APolicySetDefault |
    APolicyAllow | APolicyDeny | APolicyClear | AShutdown

text \<open>The names \<open>parse\<close> accepts; one action has two.\<close>

definition action_names :: "(string \<times> action) list" where
  "action_names =
     [(''ping'', APing), (''daemon.health'', ADaemonHealth),
      (''daemon.doctor'', ADaemonDoctor), (''daemon.doctor.repair'', ADaemonDoctorRepair),
      (''init'', AInit), (''sandbox.create'', ASandboxCreate),
      (''sandbox.update'', ASandboxUpdate), (''sandbox.resize'', ASandboxResize),
      (''sandbox.start'', ASandboxStart), (''sandbox.stop'', ASandboxStop),
      (''sandbox.pause'', ASandboxPause), (''sandbox.resume'', ASandboxResume),
      (''sandbox.status'', ASandboxStatus), (''sandbox.destroy'', ASandboxDestroy),
      (''sandbox.wipe'', ASandboxWipe), (''sandbox.list'', ASandboxList),
      (''sandbox.remove'', ASandboxRemove), (''sandbox.exec_setup'', ASandboxExecSetup),
      (''process.list'', AProcessList), (''workspace.create'', AWorkspaceCreate),
      (''workspace.start'', AWorkspaceStart), (''workspace.start_many'', AWorkspaceStartMany),
      (''workspace.stop'', AWorkspaceStop), (''workspace.destroy'', AWorkspaceDestroy),
      (''workspace.wipe'', AWorkspaceWipe), (''workspace.status'', AWorkspaceStatus),
      (''workspace.stats'', AWorkspaceStats), (''workspace.stats.list'', AWorkspaceStatsList),
      (''workspace.list'', AWorkspaceList), (''workspace.remove'', AWorkspaceRemove),
      (''workspace.update'', AWorkspaceUpdate), (''workspace.update_auth'', AWorkspaceUpdate),
      (''workspace.resize'', AWorkspaceResize), (''workspace.exec'', AWorkspaceExec),
      (''workspace.exec.cancel'', AWorkspaceExecCancel),
      (''workspace.command.begin'', AWorkspaceCommandBegin),
      (''workspace.command.end'', AWorkspaceCommandEnd),
      (''workspace.jobs.list'', AWorkspaceJobsList), (''workspace.cp'', AWorkspaceCp),
      (''workspace.port.publish'', AWorkspacePortPublish),
      (''workspace.port.unpublish'', AWorkspacePortUnpublish),
      (''workspace.port.list'', AWorkspacePortList),
      (''workspace.runtime'', AWorkspaceRuntime), (''workspace.logs'', AWorkspaceLogs),
      (''workspace.snapshot'', AWorkspaceSnapshot),
      (''workspace.snapshot.list'', AWorkspaceSnapshotList),
      (''workspace.restore'', AWorkspaceRestore),
      (''workspace.snapshot.gc'', AWorkspaceSnapshotGc),
      (''workspace.snapshot.export'', AWorkspaceSnapshotExport),
      (''workspace.snapshot.import'', AWorkspaceSnapshotImport),
      (''registry.repair'', ARegistryRepair), (''policy.get'', APolicyGet),
      (''policy.set_default'', APolicySetDefault), (''policy.allow'', APolicyAllow),
      (''policy.deny'', APolicyDeny), (''policy.clear'', APolicyClear),
      (''shutdown'', AShutdown)]"

definition parse_action :: "string \<Rightarrow> action result" where
  "parse_action raw =
     (case map_of action_names raw of
        Some a \<Rightarrow> Inr a
      | None \<Rightarrow> bail_code InvalidRequest ''unknown action'')"

definition is_sandbox_lifecycle :: "action \<Rightarrow> bool" where
  "is_sandbox_lifecycle a =
     (a \<in> set [ASandboxCreate, ASandboxUpdate, ASandboxResize, ASandboxStart, ASandboxStop,
       ASandboxPause, ASandboxResume, ASandboxDestroy, ASandboxRemove, ASandboxExecSetup,
       AWorkspaceStartMany])"

definition is_workspace_lifecycle :: "action \<Rightarrow> bool" where
  "is_workspace_lifecycle a =
     (a \<in> set [AWorkspaceCreate, AWorkspaceStart, AWorkspaceStop, AWorkspaceDestroy, AWorkspaceRemove,
       AWorkspaceUpdate, AWorkspaceResize, AWorkspaceRestore, AWorkspaceSnapshot,
       AWorkspaceSnapshotGc, AWorkspaceSnapshotExport, AWorkspaceSnapshotImport,
       AWorkspacePortPublish, AWorkspacePortUnpublish])"

definition is_global_lifecycle :: "action \<Rightarrow> bool" where
  "is_global_lifecycle a =
     (a \<in> set [ASandboxWipe, AWorkspaceWipe, ARegistryRepair, ADaemonDoctorRepair])"

definition is_lifecycle :: "action \<Rightarrow> bool" where
  "is_lifecycle a = (is_sandbox_lifecycle a \<or> is_workspace_lifecycle a \<or> is_global_lifecycle a)"

definition action_is_lifecycle :: "string \<Rightarrow> bool" where
  "action_is_lifecycle raw = (case parse_action raw of Inr a \<Rightarrow> is_lifecycle a | Inl _ \<Rightarrow> False)"

section \<open>The lease of a request\<close>

definition selector_param :: "str_params \<Rightarrow> string list \<Rightarrow> string option" where
  "selector_param params keys = find_map params keys"

text \<open>The registry as it is read for each resolution; a failed read falls back to the selector.\<close>

definition resolve_sandbox_key :: "registry result \<Rightarrow> string \<Rightarrow> string" where
  "resolve_sandbox_key loaded selector =
     (case loaded of
        Inl _ \<Rightarrow> selector
      | Inr r \<Rightarrow> (case resolve_sandbox_id r selector of Inl _ \<Rightarrow> selector | Inr i \<Rightarrow> i))"

definition resolve_workspace_key :: "registry result \<Rightarrow> string \<Rightarrow> string \<Rightarrow> string" where
  "resolve_workspace_key loaded sandbox selector =
     (case and_then loaded (\<lambda>r. workspace_metadata_of r sandbox selector) of
        Inl _ \<Rightarrow> selector
      | Inr w \<Rightarrow> wm_id w)"

definition scope_for :: "registry result \<Rightarrow> registry result \<Rightarrow> action \<Rightarrow> str_params \<Rightarrow>
    lease_scope option" where
  "scope_for loaded loaded' a params =
     (if is_global_lifecycle a then Some GlobalScope
      else if \<not> is_sandbox_lifecycle a \<and> \<not> is_workspace_lifecycle a then None
      else
        (case selector_param params [''sandbox'', ''sandbox_id'', ''name''] of
           None \<Rightarrow> None
         | Some selector \<Rightarrow>
             let sandbox = resolve_sandbox_key loaded selector in
             if is_sandbox_lifecycle a then Some (SandboxScope sandbox)
             else
               (case selector_param params [''workspace'', ''workspace_id'', ''name''] of
                  None \<Rightarrow> Some (SandboxScope sandbox)
                | Some workspace \<Rightarrow>
                    Some (WorkspaceScope sandbox (resolve_workspace_key loaded' sandbox workspace)))))"

text \<open>
  \<open>acquired\<close> is what acquiring the lease returns, and \<open>handler\<close> is the handler of the routing table for
  an action. The second component is whether a handler ran.
\<close>

definition dispatch :: "registry result \<Rightarrow> registry result \<Rightarrow> (lease_scope \<Rightarrow> unit result) \<Rightarrow>
    (action \<Rightarrow> str_params \<Rightarrow> 'v result) \<Rightarrow> string \<Rightarrow> str_params \<Rightarrow> 'v result \<times> action option" where
  "dispatch loaded loaded' acquired handler raw params =
     (case parse_action raw of
        Inl e \<Rightarrow> (Inl e, None)
      | Inr a \<Rightarrow>
          (case (case scope_for loaded loaded' a params of
                   None \<Rightarrow> Inr () | Some scope \<Rightarrow> acquired scope) of
             Inl e \<Rightarrow> (Inl e, None)
           | Inr _ \<Rightarrow> (handler a params, Some a)))"

section \<open>One client\<close>

definition MAX_REQUEST_BYTES :: nat where
  "MAX_REQUEST_BYTES = 64 * 1024"

text \<open>\<open>read_line\<close> on at most one byte more than the limit: up to and including the first newline.\<close>

definition first_line :: "string \<Rightarrow> string" where
  "first_line bytes =
     (case split_once (CHR 0x0A) bytes of
        Some (line, _) \<Rightarrow> line @ [CHR 0x0A]
      | None \<Rightarrow> bytes)"

definition read_request_line :: "bool \<Rightarrow> (string \<Rightarrow> bool) \<Rightarrow> string \<Rightarrow> string option result" where
  "read_request_line socket_ok utf8 bytes =
     (let raw = first_line (take (MAX_REQUEST_BYTES + 1) bytes) in
      if \<not> socket_ok \<or> \<not> utf8 raw then bail ''failed to read request line''
      else if raw = [] \<or> trim raw = [] then Inr None
      else if length raw > MAX_REQUEST_BYTES then bail ''request exceeds maximum size''
      else if last raw \<noteq> CHR 0x0A then bail ''request must be newline-terminated''
      else Inr (Some raw))"

record request =
  rq_action :: string
  rq_params :: str_params
  rq_operation_id :: "string option"

definition operation_target :: "str_params \<Rightarrow> string" where
  "operation_target params =
     (case (find_map params [''sandbox'', ''sandbox_id'', ''name''],
            find_map params [''workspace'', ''workspace_id'']) of
        (Some sandbox, Some workspace) \<Rightarrow> sandbox @ ''/'' @ workspace
      | (Some sandbox, None) \<Rightarrow> sandbox
      | (None, Some workspace) \<Rightarrow> workspace
      | (None, None) \<Rightarrow> ''-'')"

text \<open>Everything a request meets: the decoder, ids, the peer, the clock, the policy and the handlers.\<close>

record 'v client_env =
  ce_line :: "string option result"
  ce_decode :: "string \<Rightarrow> request option"
  ce_valid_id :: "string \<Rightarrow> bool"
  ce_new_id :: string
  ce_peer_uid :: "u32 result"
  ce_now :: nat
  ce_now' :: nat
  ce_policy :: "policy result"
  ce_registry :: "registry result"
  ce_registry' :: "registry result"
  ce_acquire :: "lease_scope \<Rightarrow> unit result"
  ce_handler :: "action \<Rightarrow> str_params \<Rightarrow> 'v result"
  ce_render :: "anyhow \<Rightarrow> string"

definition operation_id_of :: "'v client_env \<Rightarrow> request \<Rightarrow> string" where
  "operation_id_of env rq =
     (case rq_operation_id rq of
        Some i \<Rightarrow> if ce_valid_id env i then i else ce_new_id env
      | None \<Rightarrow> ce_new_id env)"

text \<open>
  What one connection leads to: the response written, if any, the operation registered while it ran,
  the action whose handler ran, and the rate limiter afterwards. An error means the connection is
  closed without a response.
\<close>

record 'v client_outcome =
  co_response :: "'v response option"
  co_registered :: "(string \<times> string \<times> string) option"
  co_handled :: "action option"

definition no_response :: "'v client_outcome" where
  "no_response = \<lparr> co_response = None, co_registered = None, co_handled = None \<rparr>"

definition handle_request :: "'v client_env \<Rightarrow> request \<Rightarrow> rate_limiter \<Rightarrow>
    'v client_outcome result \<times> rate_limiter" where
  "handle_request env rq limiter =
     (let i = operation_id_of env rq;
          registered = (if action_is_lifecycle (rq_action rq)
                        then Some (i, rq_action rq, operation_target (rq_params rq)) else None);
          answer = (\<lambda>response handled. Inr \<lparr> co_response = Some response,
                      co_registered = registered, co_handled = handled \<rparr>) in
      case with_context ''failed to resolve peer uid'' (ce_peer_uid env) of
        Inl e \<Rightarrow> (Inl e, limiter)
      | Inr uid \<Rightarrow>
          let (ok, limiter) = allow (ce_now env) (ce_now' env) uid limiter in
          if \<not> ok then (answer (response_err_code RateLimited ''rate limit exceeded'' i) None, limiter)
          else
            (case authorize (ce_policy env) uid (rq_action rq) of
               Inl e \<Rightarrow> (answer (response_err_code PolicyDenied (ce_render env e) i) None, limiter)
             | Inr _ \<Rightarrow>
                 let (r, handled) = dispatch (ce_registry env) (ce_registry' env) (ce_acquire env)
                       (ce_handler env) (rq_action rq) (rq_params rq) in
                 (answer (case r of
                            Inr v \<Rightarrow> response_ok v i
                          | Inl e \<Rightarrow> response_err_code (code_of e) (ce_render env e) i) handled,
                  limiter)))"

definition handle_client :: "'v client_env \<Rightarrow> rate_limiter \<Rightarrow>
    'v client_outcome result \<times> rate_limiter" where
  "handle_client env limiter =
     (case ce_line env of
        Inr None \<Rightarrow> (Inr no_response, limiter)
      | Inl e \<Rightarrow>
          (Inr (no_response\<lparr> co_response :=
             Some (response_err_code InvalidRequest (ce_render env e) (ce_new_id env)) \<rparr>), limiter)
      | Inr (Some raw) \<Rightarrow>
          (case ce_decode env raw of
             None \<Rightarrow>
               (Inr (no_response\<lparr> co_response :=
                  Some (response_err_code InvalidRequest ''invalid request payload'' (ce_new_id env)) \<rparr>),
                limiter)
           | Some rq \<Rightarrow> handle_request env rq limiter))"

section \<open>Classes of actions\<close>

lemmas lifecycle_defs = is_sandbox_lifecycle_def is_workspace_lifecycle_def is_global_lifecycle_def

lemma lifecycle_classes_disjoint:
  "\<not> (is_sandbox_lifecycle a \<and> is_workspace_lifecycle a)"
  "\<not> (is_global_lifecycle a \<and> (is_sandbox_lifecycle a \<or> is_workspace_lifecycle a))"
  by (auto simp: lifecycle_defs)

lemma parse_action_name:
  "parse_action raw = Inr a \<Longrightarrow> (raw, a) \<in> set action_names"
  by (auto simp: parse_action_def split: option.splits dest: map_of_SomeD)

lemma parse_action_exec:
  "parse_action ''workspace.exec'' = Inr AWorkspaceExec"
  "parse_action ''sandbox.exec_setup'' = Inr ASandboxExecSetup"
  "parse_action ''workspace.cp'' = Inr AWorkspaceCp"
  by (simp_all add: parse_action_def action_names_def)

text \<open>
  The accept loop and the dispatcher agree on what a request is: a request is queued for the exec
  workers exactly when the dispatcher will run a workspace command or a sandbox setup command, and
  for the transfer workers exactly when it will copy files.
\<close>

theorem pool_class_agrees_with_dispatch:
  "(pk_class (peek_request (Some (raw, params))) = Exec \<longleftrightarrow>
      parse_action raw = Inr AWorkspaceExec \<or> parse_action raw = Inr ASandboxExecSetup) \<and>
   (pk_class (peek_request (Some (raw, params))) = Transfer \<longleftrightarrow> parse_action raw = Inr AWorkspaceCp)"
proof -
  have exec: "parse_action raw = Inr AWorkspaceExec \<longleftrightarrow> raw = ''workspace.exec''"
    using parse_action_name [of raw AWorkspaceExec] parse_action_exec
    by (auto simp: action_names_def)
  have exec_setup: "parse_action raw = Inr ASandboxExecSetup \<longleftrightarrow> raw = ''sandbox.exec_setup''"
    using parse_action_name [of raw ASandboxExecSetup] parse_action_exec
    by (auto simp: action_names_def)
  have cp: "parse_action raw = Inr AWorkspaceCp \<longleftrightarrow> raw = ''workspace.cp''"
    using parse_action_name [of raw AWorkspaceCp] parse_action_exec
    by (auto simp: action_names_def)
  show ?thesis unfolding exec exec_setup cp by (simp add: peek_request_def Let_def)
qed

section \<open>Request lines\<close>

lemma first_line_prefix: "\<exists>rest. bytes = first_line bytes @ rest"
  by (auto simp: first_line_def split_once_Some_iff split: option.splits)

lemma first_line_newline:
  assumes "first_line bytes \<noteq> []" "last (first_line bytes) = CHR 0x0A"
  shows "CHR 0x0A \<notin> set (butlast (first_line bytes))"
proof (cases "split_once (CHR 0x0A) bytes")
  case None
  then show ?thesis
    using assms by (metis first_line_def last_in_set option.simps(4) split_once_None_iff)
next
  case (Some p)
  then obtain line rest where "split_once (CHR 0x0A) bytes = Some (line, rest)" by (cases p) auto
  moreover from this have "CHR 0x0A \<notin> set line" by (simp add: split_once_Some_iff)
  ultimately show ?thesis by (simp add: first_line_def)
qed

text \<open>A request line is accepted exactly when the bytes start with one line of at most 64 KiB that
  ends in a newline, is valid UTF-8 and is not blank; the accepted line is that first line, so a
  longer or unterminated request never reaches the decoder.
\<close>

theorem request_line_accepted_iff:
  "read_request_line True utf8 bytes = Inr (Some raw) \<longleftrightarrow>
     (\<exists>line rest. raw = line @ [CHR 0x0A] \<and> bytes = raw @ rest \<and> CHR 0x0A \<notin> set line \<and>
        length raw \<le> MAX_REQUEST_BYTES \<and> utf8 raw \<and> trim raw \<noteq> [])"
proof
  let ?b = "take (MAX_REQUEST_BYTES + 1) bytes"
  assume acc: "read_request_line True utf8 bytes = Inr (Some raw)"
  then have raw: "raw = first_line ?b" "raw \<noteq> []" "length raw \<le> MAX_REQUEST_BYTES"
      "last raw = CHR 0x0A" "utf8 raw" "trim raw \<noteq> []"
    by (auto simp: read_request_line_def Let_def split: if_splits)
  obtain rest where rest: "?b = raw @ rest" using first_line_prefix [of ?b] raw(1) by auto
  have "bytes = raw @ (rest @ drop (MAX_REQUEST_BYTES + 1) bytes)"
    using rest by (metis append.assoc append_take_drop_id)
  moreover have "raw = butlast raw @ [CHR 0x0A]" using raw(2,4) by (metis append_butlast_last_id)
  moreover have "CHR 0x0A \<notin> set (butlast raw)" using first_line_newline [of ?b] raw by simp
  ultimately show "\<exists>line rest. raw = line @ [CHR 0x0A] \<and> bytes = raw @ rest \<and> CHR 0x0A \<notin> set line \<and>
      length raw \<le> MAX_REQUEST_BYTES \<and> utf8 raw \<and> trim raw \<noteq> []"
    using raw by blast
next
  assume "\<exists>line rest. raw = line @ [CHR 0x0A] \<and> bytes = raw @ rest \<and> CHR 0x0A \<notin> set line \<and>
      length raw \<le> MAX_REQUEST_BYTES \<and> utf8 raw \<and> trim raw \<noteq> []"
  then obtain line rest where l: "raw = line @ [CHR 0x0A]" "bytes = raw @ rest" "CHR 0x0A \<notin> set line"
      "length raw \<le> MAX_REQUEST_BYTES" "utf8 raw" "trim raw \<noteq> []" by blast
  have "take (MAX_REQUEST_BYTES + 1) bytes =
      line @ CHR 0x0A # take (MAX_REQUEST_BYTES + 1 - length raw) rest"
    using l by (simp add: Suc_diff_le)
  then have "first_line (take (MAX_REQUEST_BYTES + 1) bytes) = raw"
    using l(1,3) by (simp add: first_line_def split_once_Some_iff
        [of _ _ line "take (MAX_REQUEST_BYTES + 1 - length raw) rest", THEN iffD2])
  then show "read_request_line True utf8 bytes = Inr (Some raw)"
    using l by (simp add: read_request_line_def Let_def)
qed

section \<open>Admission\<close>

text \<open>A start request of uid 1000 under an allow-all policy, for the witnesses.\<close>

definition sample_request :: request where
  "sample_request = \<lparr> rq_action = ''workspace.start'',
     rq_params = [''sandbox'' \<mapsto> ''s'', ''workspace'' \<mapsto> ''w''], rq_operation_id = Some ''op-1'' \<rparr>"

definition sample_env :: "nat client_env" where
  "sample_env = \<lparr> ce_line = Inr (Some ''{}''), ce_decode = (\<lambda>_. Some sample_request),
     ce_valid_id = (\<lambda>_. True), ce_new_id = ''op-2'', ce_peer_uid = Inr 1000, ce_now = 0, ce_now' = 0,
     ce_policy = Inr \<lparr> pol_version = 1, pol_default_allow = True, pol_rules = [] \<rparr>,
     ce_registry = Inr sample_registry, ce_registry' = Inr sample_registry,
     ce_acquire = (\<lambda>_. Inr ()), ce_handler = (\<lambda>_ _. Inr 7), ce_render = (\<lambda>_. ''e'') \<rparr>"

lemma sample_env_fields:
  "ce_line sample_env = Inr (Some ''{}'')" "ce_decode sample_env raw = Some sample_request"
  "ce_peer_uid sample_env = Inr 1000" "rq_action sample_request = ''workspace.start''"
  "operation_id_of sample_env sample_request = ''op-1''"
  by (simp_all add: sample_env_def sample_request_def operation_id_of_def)

lemma sample_allow:
  "fst (allow (ce_now sample_env) (ce_now' sample_env) uid (with_global_limit 10 5 20 0))"
  by (simp add: sample_env_def allow_def allow_global_def allow_per_uid_def window_admit_def
      uid_entry_def with_global_limit_def Let_def)

lemma sample_authorized: "authorize (ce_policy sample_env) 1000 ''workspace.start'' = Inr ()"
  by (simp add: sample_env_def authorize_def is_root_only_def is_policy_exempt_def
      evaluate_policy_decision_def ROOT_ONLY_ACTIONS_def POLICY_EXEMPT_ACTIONS_def
      evaluate_rule_group_def)

lemma parse_action_start: "parse_action ''workspace.start'' = Inr AWorkspaceStart"
  by (simp add: parse_action_def action_names_def)

lemma sample_dispatched:
  "dispatch (ce_registry sample_env) (ce_registry' sample_env) (ce_acquire sample_env)
     (ce_handler sample_env) ''workspace.start'' params = (Inr 7, Some AWorkspaceStart)"
  by (simp add: dispatch_def parse_action_start sample_env_def split: option.splits)

lemma sample_handled:
  "\<exists>out. fst (handle_client sample_env (with_global_limit 10 5 20 0)) = Inr out \<and>
     co_handled out = Some AWorkspaceStart"
  using sample_allow [of 1000] sample_authorized
  by (auto simp: handle_client_def handle_request_def sample_env_fields sample_dispatched
      with_context_def Let_def split: prod.splits)

lemma dispatch_handled:
  assumes "dispatch loaded loaded' acquired handler raw params = (r, Some a)"
  shows "parse_action raw = Inr a \<and> r = handler a params \<and>
    (\<forall>scope. scope_for loaded loaded' a params = Some scope \<longrightarrow> acquired scope = Inr ())"
  using assms by (auto simp: dispatch_def split: sum.splits option.splits)

text \<open>C24: A handler runs only for a request that decoded, whose peer the kernel named, that both rate
  limit windows admitted, that the policy in force authorizes for that uid and action, and that holds
  the lifecycle lease its action needs.
\<close>

theorem handler_runs_only_when_admitted:
  assumes "fst (handle_client env limiter) = Inr out" "co_handled out = Some a"
  shows "\<exists>raw rq uid. ce_line env = Inr (Some raw) \<and> ce_decode env raw = Some rq \<and>
    ce_peer_uid env = Inr uid \<and> fst (allow (ce_now env) (ce_now' env) uid limiter) \<and>
    authorize (ce_policy env) uid (rq_action rq) = Inr () \<and> parse_action (rq_action rq) = Inr a \<and>
    (\<forall>scope. scope_for (ce_registry env) (ce_registry' env) a (rq_params rq) = Some scope \<longrightarrow>
       ce_acquire env scope = Inr ())"
proof -
  obtain raw rq where rq: "ce_line env = Inr (Some raw)" "ce_decode env raw = Some rq"
      "fst (handle_request env rq limiter) = Inr out"
    using assms by (auto simp: handle_client_def no_response_def split: sum.splits option.splits)
  obtain uid where uid: "ce_peer_uid env = Inr uid"
    using rq(3) by (auto simp: handle_request_def with_context_def split: sum.splits)
  let ?d = "dispatch (ce_registry env) (ce_registry' env) (ce_acquire env) (ce_handler env)
      (rq_action rq) (rq_params rq)"
  have "fst (allow (ce_now env) (ce_now' env) uid limiter)"
      "authorize (ce_policy env) uid (rq_action rq) = Inr ()" "snd ?d = Some a"
    using rq(3) assms(2) uid
    by (auto simp: handle_request_def with_context_def Let_def split: prod.splits sum.splits if_splits)
  then show ?thesis
    using rq uid dispatch_handled [of _ _ _ _ _ _ "fst ?d" a]
    by (metis prod.collapse)
qed

theorem handler_runs_only_when_admitted_witness:
  "\<exists>raw rq uid. ce_line sample_env = Inr (Some raw) \<and> ce_decode sample_env raw = Some rq \<and>
    ce_peer_uid sample_env = Inr uid \<and>
    fst (allow (ce_now sample_env) (ce_now' sample_env) uid (with_global_limit 10 5 20 0)) \<and>
    authorize (ce_policy sample_env) uid (rq_action rq) = Inr () \<and>
    parse_action (rq_action rq) = Inr AWorkspaceStart"
proof -
  obtain out where "fst (handle_client sample_env (with_global_limit 10 5 20 0)) = Inr out"
      "co_handled out = Some AWorkspaceStart" using sample_handled by blast
  from handler_runs_only_when_admitted [OF this] show ?thesis by blast
qed

text \<open>C25: Every decoded request from a peer with a known uid is answered once, and the answer carries its
  operation id: the caller's when it is a valid id, else a fresh one. The answer is a success exactly
  when a handler ran and succeeded; otherwise it carries the code of the failure.
\<close>

theorem decoded_request_answered:
  assumes "ce_line env = Inr (Some raw)" "ce_decode env raw = Some rq" "ce_peer_uid env = Inr uid"
  shows "\<exists>out response. fst (handle_client env limiter) = Inr out \<and> co_response out = Some response \<and>
    resp_operation_id response = operation_id_of env rq \<and>
    (resp_ok response \<longleftrightarrow> (\<exists>a. co_handled out = Some a \<and> is_ok (ce_handler env a (rq_params rq)))) \<and>
    (resp_code response = None \<longleftrightarrow> resp_ok response)"
proof -
  obtain ok limiter' where al: "allow (ce_now env) (ce_now' env) uid limiter = (ok, limiter')"
    by (cases "allow (ce_now env) (ce_now' env) uid limiter")
  obtain r handled where d: "dispatch (ce_registry env) (ce_registry' env) (ce_acquire env)
      (ce_handler env) (rq_action rq) (rq_params rq) = (r, handled)"
    by (cases "dispatch (ce_registry env) (ce_registry' env) (ce_acquire env)
      (ce_handler env) (rq_action rq) (rq_params rq)")
  have h: "is_ok r \<longleftrightarrow> (\<exists>a. handled = Some a \<and> is_ok (ce_handler env a (rq_params rq)))"
    using d by (auto simp: dispatch_def split: sum.splits option.splits)
  show ?thesis
  proof (cases "ok \<and> authorize (ce_policy env) uid (rq_action rq) = Inr ()")
    case True
    then show ?thesis
      using assms al d h
      by (cases r) (auto simp: handle_client_def handle_request_def with_context_def Let_def
          response_ok_def response_err_code_def)
  next
    case False
    then show ?thesis
      using assms al
      by (cases "authorize (ce_policy env) uid (rq_action rq)")
        (auto simp: handle_client_def handle_request_def with_context_def Let_def
          response_err_code_def)
  qed
qed

theorem decoded_request_answered_witness:
  "\<exists>out response. fst (handle_client sample_env (with_global_limit 10 5 20 0)) = Inr out \<and>
    co_response out = Some response \<and> resp_operation_id response = ''op-1''"
  using decoded_request_answered [OF sample_env_fields(1) sample_env_fields(2) sample_env_fields(3),
      of "with_global_limit 10 5 20 0"]
  by (auto simp: sample_env_fields)

section \<open>Scopes of requests for one workspace\<close>

definition requests_workspace :: "registry \<Rightarrow> str_params \<Rightarrow> workspace_metadata \<Rightarrow> bool" where
  "requests_workspace r params w \<longleftrightarrow>
     (\<exists>ssel wsel. selector_param params [''sandbox'', ''sandbox_id'', ''name''] = Some ssel \<and>
        selector_param params [''workspace'', ''workspace_id'', ''name''] = Some wsel \<and>
        workspace_metadata_of r ssel wsel = Inr w)"

lemma workspace_metadata_of_id:
  assumes "registry_ok r" "workspace_metadata_of r ssel wsel = Inr w"
  shows "workspace_metadata_of r (wm_sandbox_id w) wsel = Inr w"
proof -
  have sid: "resolve_sandbox_id r ssel = Inr (wm_sandbox_id w)"
    using workspace_metadata_of_found [OF assms] by simp
  have "bt_wf (reg_sandboxes r)" using assms(1) by (simp add: registry_ok_def)
  then have "resolve_sandbox_id r (wm_sandbox_id w) = Inr (wm_sandbox_id w)"
    using sandboxes.idempotent sid by blast
  then show ?thesis using assms(2) sid by (simp add: workspace_metadata_of_def)
qed

lemma scope_for_workspace:
  assumes "registry_ok r" "is_lifecycle a" "requests_workspace r params w"
  shows "\<exists>scope. scope_for (Inr r) (Inr r) a params = Some scope \<and>
    (scope = GlobalScope \<or> scope = SandboxScope (wm_sandbox_id w) \<or>
     scope = WorkspaceScope (wm_sandbox_id w) (wm_id w))"
proof -
  obtain ssel wsel where sel: "selector_param params [''sandbox'', ''sandbox_id'', ''name''] = Some ssel"
      "selector_param params [''workspace'', ''workspace_id'', ''name''] = Some wsel"
      "workspace_metadata_of r ssel wsel = Inr w"
    using assms(3) by (auto simp: requests_workspace_def)
  have "resolve_sandbox_key (Inr r) ssel = wm_sandbox_id w"
    using workspace_metadata_of_found [OF assms(1) sel(3)] by (simp add: resolve_sandbox_key_def)
  moreover have "resolve_workspace_key (Inr r) (wm_sandbox_id w) wsel = wm_id w"
    using workspace_metadata_of_id [OF assms(1) sel(3)] by (simp add: resolve_workspace_key_def)
  ultimately show ?thesis
    using assms(2) sel by (auto simp: scope_for_def is_lifecycle_def Let_def)
qed

lemma scopes_for_one_workspace_overlap:
  assumes "registry_ok r" "is_lifecycle a" "is_lifecycle b"
    and "requests_workspace r params w" "requests_workspace r params' w"
    and "scope_for (Inr r) (Inr r) a params = Some x" "scope_for (Inr r) (Inr r) b params' = Some y"
  shows "scopes_overlap x y"
  using scope_for_workspace [OF assms(1,2,4)] scope_for_workspace [OF assms(1,3,5)] assms(6,7)
  by auto

end
