(* ===== verification/State_Lock.thy ===== *)
theory State_Lock
  imports Enclave_Prelude
begin

text \<open>
  The lock that gives one daemon its state directory (\<open>daemon/state_lock.rs\<close>). The lock is a
  \<open>flock\<close> on the inode of a file that the holder removes when it exits, so the path can name another
  file, or none, by the time a process has locked what it opened. The model has any number of
  processes, each at one system call of \<open>acquire_state_lock\<close> or of the guard's \<open>drop\<close>, the file the
  path names, and the kernel's lock table. A process may crash between any two calls.
\<close>

section \<open>Processes and the lock file\<close>

definition ACQUIRE_ATTEMPTS :: nat where
  "ACQUIRE_ATTEMPTS = 4"

type_synonym dev_ino = "u64 \<times> u64"

datatype lock_path = NoFile | RegularFile dev_ino | OtherFile

text \<open>
  Where a process is: the number counts the attempts left, this one included. \<open>LkOpened\<close> has opened a
  file, \<open>LkLocked\<close> has locked it, \<open>LkVerified\<close> has seen that the path still names it, \<open>LkHolding\<close> has
  returned the guard; the last three are the calls of \<open>drop\<close>.
\<close>

datatype (plugins only: size) lock_pc =
    LkIdle
  | LkAttempt nat
  | LkChecked nat
  | LkOpened nat dev_ino
  | LkLocked nat dev_ino
  | LkVerified dev_ino
  | LkHolding dev_ino
  | LkDropping dev_ino
  | LkRemoving dev_ino
  | LkUnlocking dev_ino
  | LkFailed string

record lock_sys =
  lk_path :: lock_path
  lk_owner :: "dev_ino \<rightharpoonup> nat"
  lk_procs :: "lock_pc list"

definition lock_init :: "lock_path \<Rightarrow> nat \<Rightarrow> lock_sys" where
  "lock_init path n = \<lparr> lk_path = path, lk_owner = Map.empty, lk_procs = replicate n LkIdle \<rparr>"

fun open_file :: "lock_pc \<Rightarrow> dev_ino option" where
  "open_file (LkOpened n i) = Some i"
| "open_file (LkLocked n i) = Some i"
| "open_file (LkVerified i) = Some i"
| "open_file (LkHolding i) = Some i"
| "open_file (LkDropping i) = Some i"
| "open_file (LkRemoving i) = Some i"
| "open_file (LkUnlocking i) = Some i"
| "open_file _ = None"

fun locked_file :: "lock_pc \<Rightarrow> dev_ino option" where
  "locked_file (LkOpened n i) = None"
| "locked_file pc = open_file pc"

section \<open>The calls of one attempt\<close>

definition retry :: "nat \<Rightarrow> lock_pc" where
  "retry n =
     (if n \<le> 1 then LkFailed ''failed to acquire the daemon state lock'' else LkAttempt (n - 1))"

definition stat_path :: "bool \<Rightarrow> lock_path \<Rightarrow> nat \<Rightarrow> lock_pc" where
  "stat_path ok path n =
     (if \<not> ok then LkFailed ''failed to stat daemon state lock''
      else if path = OtherFile then LkFailed ''daemon state lock is not a regular file''
      else LkChecked n)"

text \<open>\<open>open\<close> with \<open>create(true)\<close>: the file the path names, or a new one.\<close>

definition open_path :: "bool \<Rightarrow> dev_ino \<Rightarrow> lock_path \<Rightarrow> nat \<Rightarrow> lock_pc \<times> lock_path" where
  "open_path ok created path n =
     (if \<not> ok then (LkFailed ''failed to open daemon state lock'', path)
      else (case path of
              OtherFile \<Rightarrow> (LkFailed ''daemon state lock is not a regular file'', path)
            | RegularFile i \<Rightarrow> (LkOpened n i, path)
            | NoFile \<Rightarrow> (LkOpened n created, RegularFile created)))"

definition verify_path :: "bool \<Rightarrow> lock_path \<Rightarrow> nat \<Rightarrow> dev_ino \<Rightarrow> lock_pc" where
  "verify_path ok path n i =
     (case path of
        NoFile \<Rightarrow> retry n
      | _ \<Rightarrow> if \<not> ok then LkFailed ''failed to stat daemon state lock''
             else if path = RegularFile i then LkVerified i else retry n)"

definition write_record :: "bool \<Rightarrow> dev_ino \<Rightarrow> lock_pc" where
  "write_record ok i = (if ok then LkHolding i else LkFailed ''failed to write daemon state lock'')"

definition drop_stat :: "bool \<Rightarrow> lock_path \<Rightarrow> dev_ino \<Rightarrow> lock_pc" where
  "drop_stat ok path i = (if ok \<and> path = RegularFile i then LkRemoving i else LkUnlocking i)"

section \<open>Steps of the system\<close>

datatype (plugins only: size) lock_event =
    Start nat
  | Stat nat bool
  | Open nat bool dev_ino
  | Flock nat
  | Verify nat bool
  | Record nat bool
  | Drop nat
  | DropStat nat bool
  | Unlink nat bool
  | Unlock nat
  | Crash nat

text \<open>A process that fails or ends closes its file, and the kernel releases the lock on it.\<close>

definition go :: "nat \<Rightarrow> lock_pc \<Rightarrow> lock_sys \<Rightarrow> lock_sys" where
  "go p pc S =
     S\<lparr> lk_procs := (lk_procs S)[p := pc],
        lk_owner := (case (locked_file (lk_procs S ! p), locked_file pc) of
            (Some i, None) \<Rightarrow> (lk_owner S)(i := None)
          | (None, Some i) \<Rightarrow> (lk_owner S)(i \<mapsto> p)
          | _ \<Rightarrow> lk_owner S) \<rparr>"

text \<open>The kernel gives a new file an inode that no process has open.\<close>

definition unused_inode :: "dev_ino \<Rightarrow> lock_sys \<Rightarrow> bool" where
  "unused_inode i S = list_all (\<lambda>pc. open_file pc \<noteq> Some i) (lk_procs S)"

fun lock_pid :: "lock_event \<Rightarrow> nat" where
  "lock_pid (Start p) = p"
| "lock_pid (Stat p _) = p"
| "lock_pid (Open p _ _) = p"
| "lock_pid (Flock p) = p"
| "lock_pid (Verify p _) = p"
| "lock_pid (Record p _) = p"
| "lock_pid (Drop p) = p"
| "lock_pid (DropStat p _) = p"
| "lock_pid (Unlink p _) = p"
| "lock_pid (Unlock p) = p"
| "lock_pid (Crash p) = p"

definition proc_step :: "lock_event \<Rightarrow> nat \<Rightarrow> lock_sys \<Rightarrow> lock_pc \<Rightarrow> lock_sys option" where
  "proc_step ev p S pc =
     (case ev of
        Start _ \<Rightarrow> (case pc of LkIdle \<Rightarrow> Some (go p (LkAttempt ACQUIRE_ATTEMPTS) S) | _ \<Rightarrow> None)
      | Stat _ ok \<Rightarrow> (case pc of LkAttempt n \<Rightarrow> Some (go p (stat_path ok (lk_path S) n) S) | _ \<Rightarrow> None)
      | Open _ ok created \<Rightarrow>
          (case pc of LkChecked n \<Rightarrow>
             if unused_inode created S
             then let (pc, path) = open_path ok created (lk_path S) n in Some ((go p pc S)\<lparr> lk_path := path \<rparr>)
             else None
           | _ \<Rightarrow> None)
      | Flock _ \<Rightarrow>
          (case pc of LkOpened n i \<Rightarrow>
             Some (go p (if lk_owner S i = None then LkLocked n i
                         else LkFailed ''state directory is already owned by another daemon'') S)
           | _ \<Rightarrow> None)
      | Verify _ ok \<Rightarrow> (case pc of LkLocked n i \<Rightarrow> Some (go p (verify_path ok (lk_path S) n i) S) | _ \<Rightarrow> None)
      | Record _ ok \<Rightarrow> (case pc of LkVerified i \<Rightarrow> Some (go p (write_record ok i) S) | _ \<Rightarrow> None)
      | Drop _ \<Rightarrow> (case pc of LkHolding i \<Rightarrow> Some (go p (LkDropping i) S) | _ \<Rightarrow> None)
      | DropStat _ ok \<Rightarrow> (case pc of LkDropping i \<Rightarrow> Some (go p (drop_stat ok (lk_path S) i) S) | _ \<Rightarrow> None)
      | Unlink _ ok \<Rightarrow>
          (case pc of LkRemoving i \<Rightarrow>
             Some ((go p (LkUnlocking i) S)\<lparr> lk_path := (if ok then NoFile else lk_path S) \<rparr>)
           | _ \<Rightarrow> None)
      | Unlock _ \<Rightarrow> (case pc of LkUnlocking i \<Rightarrow> Some (go p LkIdle S) | _ \<Rightarrow> None)
      | Crash _ \<Rightarrow> Some (go p LkIdle S))"

definition lock_step :: "lock_event \<Rightarrow> lock_sys \<Rightarrow> lock_sys option" where
  "lock_step ev S =
     (let p = lock_pid ev in
      if p \<ge> length (lk_procs S) then None else proc_step ev p S (lk_procs S ! p))"

fun lock_run :: "lock_event list \<Rightarrow> lock_sys \<Rightarrow> lock_sys option" where
  "lock_run [] S = Some S"
| "lock_run (ev # evs) S = (case lock_step ev S of None \<Rightarrow> None | Some S' \<Rightarrow> lock_run evs S')"

inductive lock_reach :: "lock_sys \<Rightarrow> bool" where
  lock_start: "lock_reach (lock_init path n)"
| lock_more: "lock_reach S \<Longrightarrow> lock_step ev S = Some S' \<Longrightarrow> lock_reach S'"

lemma lock_run_reach: "lock_reach S \<Longrightarrow> lock_run evs S = Some S' \<Longrightarrow> lock_reach S'"
  by (induction evs arbitrary: S) (auto split: option.splits intro: lock_more)

section \<open>Mutual exclusion\<close>

text \<open>
  The processes that rely on the path: they have verified that it names the file they locked and have
  not yet removed it.
\<close>

fun relies_on :: "lock_pc \<Rightarrow> dev_ino option" where
  "relies_on (LkVerified i) = Some i"
| "relies_on (LkHolding i) = Some i"
| "relies_on (LkDropping i) = Some i"
| "relies_on (LkRemoving i) = Some i"
| "relies_on _ = None"

definition state_lock_inv :: "lock_sys \<Rightarrow> bool" where
  "state_lock_inv S \<longleftrightarrow>
     (\<forall>i p. lk_owner S i = Some p \<longleftrightarrow>
        p < length (lk_procs S) \<and> locked_file (lk_procs S ! p) = Some i) \<and>
     (\<forall>p i. p < length (lk_procs S) \<longrightarrow> relies_on (lk_procs S ! p) = Some i \<longrightarrow> lk_path S = RegularFile i)"

lemma relies_on_locked: "relies_on pc = Some i \<Longrightarrow> locked_file pc = Some i"
  by (cases pc) auto

lemma state_lock_inv_init: "state_lock_inv (lock_init path n)"
  by (simp add: state_lock_inv_def lock_init_def)

lemma state_lock_inv_owner:
  "state_lock_inv S \<Longrightarrow> lk_owner S i = Some p \<longleftrightarrow>
     p < length (lk_procs S) \<and> locked_file (lk_procs S ! p) = Some i"
  unfolding state_lock_inv_def by blast

lemma state_lock_inv_path:
  "state_lock_inv S \<Longrightarrow> p < length (lk_procs S) \<Longrightarrow> relies_on (lk_procs S ! p) = Some i \<Longrightarrow>
     lk_path S = RegularFile i"
  unfolding state_lock_inv_def by blast

lemma state_lock_inv_unique:
  assumes "state_lock_inv S" "p < length (lk_procs S)" "q < length (lk_procs S)"
    and "locked_file (lk_procs S ! p) = Some i" "locked_file (lk_procs S ! q) = Some i"
  shows "p = q"
proof -
  have "lk_owner S i = Some p" "lk_owner S i = Some q"
    using assms by (simp_all add: state_lock_inv_owner)
  then show ?thesis by simp
qed

text \<open>
  A step of one process keeps the invariant when it takes a lock only if no one has it, relies on the
  path only if it already did or the path names its file, and leaves the path alone unless no other
  process relies on it.
\<close>

lemma go_keeps_inv:
  assumes inv: "state_lock_inv S" and p: "p < length (lk_procs S)"
    and lock: "\<And>i. locked_file pc = Some i \<Longrightarrow> locked_file (lk_procs S ! p) \<noteq> None \<Longrightarrow>
        locked_file (lk_procs S ! p) = Some i"
    and take: "\<And>i. locked_file pc = Some i \<Longrightarrow> locked_file (lk_procs S ! p) = None \<Longrightarrow> lk_owner S i = None"
    and rely: "\<And>i. relies_on pc = Some i \<Longrightarrow> path = RegularFile i"
    and others: "\<And>q i. q < length (lk_procs S) \<Longrightarrow> q \<noteq> p \<Longrightarrow> relies_on (lk_procs S ! q) = Some i \<Longrightarrow>
        path = RegularFile i"
  shows "state_lock_inv ((go p pc S)\<lparr> lk_path := path \<rparr>)"
proof -
  have own: "lk_owner S i = Some q \<longleftrightarrow> q < length (lk_procs S) \<and> locked_file (lk_procs S ! q) = Some i"
    for i q by (rule state_lock_inv_owner [OF inv])
  have "lk_owner (go p pc S) i = Some q \<longleftrightarrow>
      q < length (lk_procs S) \<and> locked_file ((lk_procs S)[p := pc] ! q) = Some i" for i q
  proof (cases "locked_file (lk_procs S ! p)")
    case None
    then have "lk_owner S i \<noteq> Some p" by (simp add: own)
    moreover have "lk_owner (go p pc S) = (case locked_file pc of None \<Rightarrow> lk_owner S
        | Some j \<Rightarrow> (lk_owner S)(j \<mapsto> p))"
      using None by (simp add: go_def split: option.splits)
    moreover have "\<And>j. locked_file pc = Some j \<Longrightarrow> lk_owner S j = None" using take None by blast
    ultimately show ?thesis using own [of i q] p by (cases "q = p") (auto split: option.splits)
  next
    case (Some j)
    then have j: "lk_owner S j = Some p" using own p by simp
    have "lk_owner (go p pc S) = (case locked_file pc of None \<Rightarrow> (lk_owner S)(j := None)
        | Some _ \<Rightarrow> lk_owner S)"
      using Some by (simp add: go_def split: option.splits)
    moreover have "\<And>k. locked_file pc = Some k \<Longrightarrow> k = j" using lock Some by auto
    ultimately show ?thesis
      using own [of i q] own [of i p] own [of j q] p Some j
      by (cases "q = p") (auto split: option.splits)
  qed
  moreover have "path = RegularFile i"
    if "q < length (lk_procs S)" "relies_on ((lk_procs S)[p := pc] ! q) = Some i" for q i
    using that rely others [of q i] p by (cases "q = p") auto
  ultimately show ?thesis unfolding state_lock_inv_def by (simp add: go_def)
qed

lemmas lock_call_defs = retry_def stat_path_def open_path_def verify_path_def write_record_def drop_stat_def

lemma go_same_path: "(go p pc S)\<lparr> lk_path := lk_path S \<rparr> = go p pc S"
  by (simp add: go_def)

lemma go_keeps_inv_same_path:
  assumes inv: "state_lock_inv S" and p: "p < length (lk_procs S)"
    and lock: "\<And>i. locked_file pc = Some i \<Longrightarrow>
        (locked_file (lk_procs S ! p) = None \<longrightarrow> lk_owner S i = None) \<and>
        (locked_file (lk_procs S ! p) \<noteq> None \<longrightarrow> locked_file (lk_procs S ! p) = Some i)"
    and rely: "\<And>i. relies_on pc = Some i \<Longrightarrow> lk_path S = RegularFile i"
  shows "state_lock_inv (go p pc S)"
  using go_keeps_inv [OF inv p, of pc "lk_path S"] lock rely state_lock_inv_path [OF inv]
  by (auto simp: go_same_path)

lemma nobody_relies_on_absent:
  assumes "state_lock_inv S" "lk_path S = NoFile" "q < length (lk_procs S)"
  shows "relies_on (lk_procs S ! q) = None"
  using state_lock_inv_path [OF assms(1,3)] assms(2) by (cases "relies_on (lk_procs S ! q)") auto

lemma open_keeps_inv:
  assumes inv: "state_lock_inv S" and p: "p < length (lk_procs S)" and pc: "lk_procs S ! p = LkChecked n"
    and op: "open_path ok created (lk_path S) n = (pc', path)"
  shows "state_lock_inv ((go p pc' S)\<lparr> lk_path := path \<rparr>)"
proof (rule go_keeps_inv [OF inv p])
  fix q i
  assume q: "q < length (lk_procs S)" "relies_on (lk_procs S ! q) = Some i"
  with state_lock_inv_path [OF inv q] show "path = RegularFile i"
    using op by (auto simp: open_path_def split: if_splits)
qed (use op in \<open>auto simp: open_path_def split: if_splits lock_path.splits\<close>)

lemma unlink_keeps_inv:
  assumes inv: "state_lock_inv S" and p: "p < length (lk_procs S)" and pc: "lk_procs S ! p = LkRemoving i"
  shows "state_lock_inv ((go p (LkUnlocking i) S)\<lparr> lk_path := path \<rparr>)"
proof (rule go_keeps_inv [OF inv p])
  fix q j
  assume q: "q < length (lk_procs S)" "q \<noteq> p" "relies_on (lk_procs S ! q) = Some j"
  have "lk_path S = RegularFile i" "lk_path S = RegularFile j"
    using state_lock_inv_path [OF inv p] state_lock_inv_path [OF inv q(1,3)] pc by simp_all
  then have "q = p"
    using state_lock_inv_unique [OF inv q(1) p] relies_on_locked [OF q(3)] pc by simp
  with q(2) show "path = RegularFile j" by simp
qed (use pc in auto)

lemma lock_step_keeps_inv:
  assumes inv: "state_lock_inv S" and step: "lock_step ev S = Some S'"
  shows "state_lock_inv S'"
proof -
  define p where "p = lock_pid ev"
  have p: "p < length (lk_procs S)" and s: "proc_step ev p S (lk_procs S ! p) = Some S'"
    using step by (auto simp: lock_step_def p_def Let_def split: if_splits)
  note keep = go_keeps_inv_same_path [OF inv p]
  have path: "lk_path S = RegularFile i" if "relies_on (lk_procs S ! p) = Some i" for i
    using state_lock_inv_path [OF inv p that] .
  show ?thesis
  proof (cases ev)
    case (Start q)
    then show ?thesis using s by (auto simp: proc_step_def split: lock_pc.splits if_splits intro!: keep)
  next
    case (Stat q ok)
    then show ?thesis
      using s by (auto simp: proc_step_def stat_path_def split: lock_pc.splits if_splits intro!: keep)
  next
    case (Open q ok created)
    then show ?thesis
      using s by (auto simp: proc_step_def split: lock_pc.splits if_splits prod.splits
          intro: open_keeps_inv [OF inv p])
  next
    case (Flock q)
    then show ?thesis using s by (auto simp: proc_step_def split: lock_pc.splits if_splits intro!: keep)
  next
    case (Verify q ok)
    then show ?thesis
      using s by (auto simp: proc_step_def verify_path_def retry_def
          split: lock_pc.splits lock_path.splits if_splits intro!: keep)
  next
    case (Record q ok)
    then show ?thesis
      using s path by (auto simp: proc_step_def write_record_def split: lock_pc.splits if_splits intro!: keep)
  next
    case (Drop q)
    then show ?thesis using s path by (auto simp: proc_step_def split: lock_pc.splits if_splits intro!: keep)
  next
    case (DropStat q ok)
    then show ?thesis
      using s by (auto simp: proc_step_def drop_stat_def split: lock_pc.splits if_splits intro!: keep)
  next
    case (Unlink q ok)
    then show ?thesis
      using s by (auto simp: proc_step_def split: lock_pc.splits if_splits intro: unlink_keeps_inv [OF inv p])
  next
    case (Unlock q)
    then show ?thesis using s by (auto simp: proc_step_def split: lock_pc.splits if_splits intro!: keep)
  next
    case (Crash q)
    then show ?thesis using s by (auto simp: proc_step_def intro!: keep)
  qed
qed

lemma lock_reach_inv: "lock_reach S \<Longrightarrow> state_lock_inv S"
  by (induction rule: lock_reach.induct) (auto intro: state_lock_inv_init lock_step_keeps_inv)

text \<open>C26: At most one daemon has the state directory. In every interleaving of starts, exits and crashes
  of any number of processes, two processes that hold the state lock (or are about to write its
  record, or are removing its file) are the same process, and the path names the file that it locked.
\<close>

theorem one_daemon_holds_state:
  assumes "lock_reach S" "p < length (lk_procs S)" "q < length (lk_procs S)"
    and "relies_on (lk_procs S ! p) = Some i" "relies_on (lk_procs S ! q) = Some j"
  shows "p = q \<and> i = j \<and> lk_path S = RegularFile i \<and> lk_owner S i = Some p"
proof -
  note inv = lock_reach_inv [OF assms(1)]
  have path: "lk_path S = RegularFile i" "lk_path S = RegularFile j"
    using state_lock_inv_path [OF inv] assms(2-5) by blast+
  then have "i = j" by simp
  moreover have "p = q"
    using state_lock_inv_unique [OF inv assms(2,3)] relies_on_locked assms(4,5) \<open>i = j\<close> by blast
  ultimately show ?thesis
    using path state_lock_inv_owner [OF inv] relies_on_locked [OF assms(4)] assms(2) by blast
qed

text \<open>A daemon exits while another has opened its lock file: the other retries and takes the new file.\<close>

definition handover :: "lock_event list" where
  "handover =
     [Start 0, Stat 0 True, Open 0 True (1, 7), Flock 0, Verify 0 True, Record 0 True,
      Start 1, Stat 1 True, Open 1 True (1, 8), Drop 0, DropStat 0 True, Unlink 0 True, Unlock 0,
      Flock 1, Verify 1 True, Stat 1 True, Open 1 True (1, 9), Flock 1, Verify 1 True, Record 1 True]"

lemmas lock_run_simps = lock_step_def proc_step_def go_def unused_inode_def lock_call_defs lock_init_def
  ACQUIRE_ATTEMPTS_def Let_def numeral_2_eq_2

theorem one_daemon_holds_state_witness:
  "\<exists>S. lock_run handover (lock_init NoFile 2) = Some S \<and> lk_procs S ! 1 = LkHolding (1, 9) \<and>
     lk_path S = RegularFile (1, 9) \<and> lk_owner S (1, 9) = Some 1"
proof -
  define S where "S = the (lock_run handover (lock_init NoFile 2))"
  have run: "lock_run handover (lock_init NoFile 2) = Some S" and pc: "lk_procs S ! 1 = LkHolding (1, 9)"
    and len: "length (lk_procs S) = 2"
    unfolding S_def handover_def by (simp_all add: lock_run_simps)
  have "lock_reach S" by (rule lock_run_reach [OF lock_start run])
  from one_daemon_holds_state [OF this, of 1 1 "(1, 9)" "(1, 9)"] show ?thesis
    using run pc len by simp
qed

section \<open>Acquisition returns\<close>

text \<open>The calls a process has left before \<open>acquire_state_lock\<close> returns, at most.\<close>

fun calls_left :: "lock_pc \<Rightarrow> nat" where
  "calls_left (LkAttempt n) = 4 * n + 1"
| "calls_left (LkChecked n) = 4 * n"
| "calls_left (LkOpened n i) = 4 * n - 1"
| "calls_left (LkLocked n i) = 4 * n - 2"
| "calls_left (LkVerified i) = 1"
| "calls_left _ = 0"

fun attempts_left :: "lock_pc \<Rightarrow> nat option" where
  "attempts_left (LkAttempt n) = Some n"
| "attempts_left (LkChecked n) = Some n"
| "attempts_left (LkOpened n i) = Some n"
| "attempts_left (LkLocked n i) = Some n"
| "attempts_left _ = None"

definition acquiring :: "lock_pc \<Rightarrow> bool" where
  "acquiring pc \<longleftrightarrow> 0 < calls_left pc \<and> attempts_left pc \<noteq> Some 0"

fun acquire_returned :: "lock_pc \<Rightarrow> bool" where
  "acquire_returned (LkHolding i) = True"
| "acquire_returned (LkFailed m) = True"
| "acquire_returned _ = False"

lemma go_procs [simp]: "lk_procs (go p pc S) = (lk_procs S)[p := pc]"
  by (simp add: go_def)

lemma own_call_progress:
  assumes "lock_step ev S = Some S'" "lock_pid ev = p" "\<forall>q. ev \<noteq> Crash q" "acquiring (lk_procs S ! p)"
  shows "acquire_returned (lk_procs S' ! p) \<or>
    acquiring (lk_procs S' ! p) \<and> calls_left (lk_procs S' ! p) < calls_left (lk_procs S ! p)"
proof -
  have p: "p < length (lk_procs S)" and s: "proc_step ev p S (lk_procs S ! p) = Some S'"
    using assms(1,2) by (auto simp: lock_step_def Let_def split: if_splits)
  show ?thesis
  proof (cases "lk_procs S ! p")
    case (LkAttempt n)
    then show ?thesis
      using s p assms(3,4) by (cases ev) (auto simp: proc_step_def stat_path_def acquiring_def split: if_splits)
  next
    case (LkChecked n)
    then show ?thesis
      using s p assms(3,4) by (cases ev)
        (auto simp: proc_step_def open_path_def acquiring_def split: lock_path.splits if_splits)
  next
    case (LkOpened n i)
    then show ?thesis
      using s p assms(3,4) by (cases ev) (auto simp: proc_step_def acquiring_def split: if_splits)
  next
    case (LkLocked n i)
    then show ?thesis
      using s p assms(3,4) by (cases ev)
        (auto simp: proc_step_def verify_path_def retry_def acquiring_def split: lock_path.splits if_splits)
  next
    case (LkVerified i)
    then show ?thesis
      using s p assms(3,4) by (cases ev) (auto simp: proc_step_def write_record_def split: if_splits)
  qed (use assms(4) in \<open>simp_all add: acquiring_def\<close>)
qed

lemma other_call_frame:
  assumes "lock_step ev S = Some S'" "lock_pid ev \<noteq> p"
  shows "lk_procs S' ! p = lk_procs S ! p"
proof -
  have "proc_step ev (lock_pid ev) S (lk_procs S ! lock_pid ev) = Some S'"
    using assms(1) by (auto simp: lock_step_def Let_def split: if_splits)
  then have "\<exists>pc. lk_procs S' = (lk_procs S)[lock_pid ev := pc]"
    by (auto simp: proc_step_def split: lock_event.splits lock_pc.splits if_splits prod.splits)
  then show ?thesis using assms(2) by auto
qed

definition own_calls :: "nat \<Rightarrow> lock_event list \<Rightarrow> lock_event list" where
  "own_calls p evs = filter (\<lambda>ev. lock_pid ev = p) evs"

lemma acquire_returns_within:
  assumes "lock_run evs S = Some S'" "acquiring (lk_procs S ! p)" "Crash p \<notin> set evs"
    and "calls_left (lk_procs S ! p) \<le> length (own_calls p evs)"
  shows "\<exists>evs1 evs2 S1. evs = evs1 @ evs2 \<and> lock_run evs1 S = Some S1 \<and> acquire_returned (lk_procs S1 ! p)"
  using assms
proof (induction evs arbitrary: S)
  case Nil
  then show ?case by (simp add: own_calls_def acquiring_def)
next
  case (Cons ev evs)
  obtain T where T: "lock_step ev S = Some T" "lock_run evs T = Some S'"
    using Cons.prems(1) by (auto split: option.splits)
  have ext: ?case if "evs = evs1 @ evs2" "lock_run evs1 T = Some S1" "acquire_returned (lk_procs S1 ! p)"
    for evs1 evs2 S1
    using that T(1) by (intro exI [of _ "ev # evs1"] exI [of _ evs2] exI [of _ S1]) simp
  show ?case
  proof (cases "lock_pid ev = p")
    case False
    then have "lk_procs T ! p = lk_procs S ! p" by (rule other_call_frame [OF T(1)])
    with Cons.IH [OF T(2)] Cons.prems False ext show ?thesis by (auto simp: own_calls_def)
  next
    case True
    then have "\<forall>q. ev \<noteq> Crash q" using Cons.prems(3) by auto
    from own_call_progress [OF T(1) True this Cons.prems(2)] show ?thesis
    proof
      assume "acquire_returned (lk_procs T ! p)"
      then show ?thesis using T(1) by (intro exI [of _ "[ev]"] exI [of _ evs] exI [of _ T]) simp
    next
      assume "acquiring (lk_procs T ! p) \<and> calls_left (lk_procs T ! p) < calls_left (lk_procs S ! p)"
      with Cons.IH [OF T(2)] Cons.prems True ext show ?thesis by (auto simp: own_calls_def)
    qed
  qed
qed

text \<open>C27: Acquisition returns. Whatever other processes do in between, a process that has begun to acquire
  the state lock and does not crash holds the lock or has failed after at most four calls for each of
  the four attempts and one more, although every attempt may find the file replaced.
\<close>

theorem state_lock_acquisition_returns:
  assumes "lock_run evs S = Some S'" "lk_procs S ! p = LkAttempt ACQUIRE_ATTEMPTS" "Crash p \<notin> set evs"
    and "4 * ACQUIRE_ATTEMPTS + 1 \<le> length (own_calls p evs)"
  shows "\<exists>evs1 evs2 S1. evs = evs1 @ evs2 \<and> lock_run evs1 S = Some S1 \<and> acquire_returned (lk_procs S1 ! p)"
  using acquire_returns_within [OF assms(1) _ assms(3)] assms(2,4)
  by (simp add: acquiring_def ACQUIRE_ATTEMPTS_def)

text \<open>Another daemon takes the lock and exits between the open and the lock of the first.\<close>

definition lost_race :: "lock_event list" where
  "lost_race =
     [Stat 0 True, Open 0 True (1, 7), Start 1, Stat 1 True, Open 1 True (1, 8), Flock 1, Verify 1 True,
      Record 1 True, Drop 1, DropStat 1 True, Unlink 1 True, Unlock 1, Flock 0, Verify 0 True]"

definition persistent_acquire :: "lock_event list" where
  "persistent_acquire = lost_race @ lost_race @ lost_race @
     [Stat 0 True, Open 0 True (1, 7), Flock 0, Verify 0 True, Record 0 True]"

theorem state_lock_acquisition_returns_witness:
  "\<exists>evs1 evs2 S1. persistent_acquire = evs1 @ evs2 \<and>
     lock_run evs1 \<lparr> lk_path = NoFile, lk_owner = Map.empty, lk_procs = [LkAttempt ACQUIRE_ATTEMPTS, LkIdle] \<rparr>
       = Some S1 \<and> acquire_returned (lk_procs S1 ! 0)"
proof -
  define S where "S = the (lock_run persistent_acquire
      \<lparr> lk_path = NoFile, lk_owner = Map.empty, lk_procs = [LkAttempt ACQUIRE_ATTEMPTS, LkIdle] \<rparr>)"
  have run: "lock_run persistent_acquire
      \<lparr> lk_path = NoFile, lk_owner = Map.empty, lk_procs = [LkAttempt ACQUIRE_ATTEMPTS, LkIdle] \<rparr> = Some S"
    unfolding S_def persistent_acquire_def lost_race_def by (simp add: lock_run_simps)
  show ?thesis
    by (rule state_lock_acquisition_returns [OF run])
      (simp_all add: persistent_acquire_def lost_race_def own_calls_def ACQUIRE_ATTEMPTS_def)
qed

text \<open>A state directory that no process has is acquired in one attempt, also after a crash.\<close>

lemma free_state_acquired:
  assumes "state_lock_inv S" "p < length (lk_procs S)" "lk_procs S ! p = LkIdle" "lk_path S \<noteq> OtherFile"
    and "\<forall>i. lk_path S = RegularFile i \<longrightarrow> lk_owner S i = None" "unused_inode j S"
  shows "\<exists>S' i. lock_run [Start p, Stat p True, Open p True j, Flock p, Verify p True, Record p True] S = Some S' \<and>
    lk_procs S' ! p = LkHolding i"
proof -
  have free: "lk_owner S j = None"
  proof (rule ccontr)
    assume "lk_owner S j \<noteq> None"
    then obtain q where "lk_owner S j = Some q" by auto
    then have q: "q < length (lk_procs S)" "locked_file (lk_procs S ! q) = Some j"
      using state_lock_inv_owner [OF assms(1)] by auto
    then have "open_file (lk_procs S ! q) = Some j" by (cases "lk_procs S ! q") auto
    with assms(6) q(1) show False by (simp add: unused_inode_def list_all_length)
  qed
  show ?thesis
    using assms free
    by (cases "lk_path S")
      (auto simp: lock_step_def proc_step_def go_def lock_call_defs Let_def unused_inode_def
        list_all_length nth_list_update ACQUIRE_ATTEMPTS_def)
qed

end
