(* ===== verification/Workspace_Txns.thy ===== *)
theory Workspace_Txns
  imports Selectors Ipam Activity
begin

text \<open>
  The registry transactions of the workspace lifecycle: the closures that \<open>workspace/control\<close> and
  \<open>workspace/create\<close> run under the registry lock. A transaction reads the registry and returns its
  answer with the registry it leaves, or an error, and then nothing is written. What a closure does on
  the host (the workspace's own files, the release of its resources) is an input. The invariants of
  the registry are stated here, and each transaction is shown to keep them.
\<close>

type_synonym 'a txn = "registry \<Rightarrow> ('a \<times> registry) result"

section \<open>Looking a record up\<close>

text \<open>\<open>registry.sandboxes.get_mut(sandbox_id).ok_or_else(..)\<close>\<close>

definition on_sandbox :: "string \<Rightarrow> (registry_sandbox \<Rightarrow> ('a \<times> registry_sandbox) result) \<Rightarrow> 'a txn" where
  "on_sandbox sid f r =
     (case get_sandbox r sid of
        None \<Rightarrow> bail ''sandbox not found''
      | Some s \<Rightarrow> and_then (f s) (\<lambda>(a, s'). Inr (a, update_sandbox sid (\<lambda>_. s') r)))"

text \<open>\<open>sandbox.workspaces.get_mut(workspace_id).ok_or_else(..)\<close>\<close>

definition in_sandbox :: "string \<Rightarrow> (workspace_metadata \<Rightarrow> ('a \<times> workspace_metadata) result) \<Rightarrow>
    registry_sandbox \<Rightarrow> ('a \<times> registry_sandbox) result" where
  "in_sandbox wid f s =
     (case bt_get (rs_workspaces s) wid of
        None \<Rightarrow> bail ''workspace not found''
      | Some w \<Rightarrow> and_then (f w) (\<lambda>(a, w').
          Inr (a, s\<lparr> rs_workspaces := bt_adjust wid (\<lambda>_. w') (rs_workspaces s) \<rparr>)))"

text \<open>\<open>.get_mut(sandbox_id).and_then(|sandbox| sandbox.workspaces.get_mut(workspace_id)).ok_or_else(..)\<close>\<close>

definition on_workspace :: "string \<Rightarrow> string \<Rightarrow> (workspace_metadata \<Rightarrow> ('a \<times> workspace_metadata) result) \<Rightarrow>
    'a txn" where
  "on_workspace sid wid f r =
     (case get_workspace r sid wid of
        None \<Rightarrow> bail ''workspace not found''
      | Some w \<Rightarrow> and_then (f w) (\<lambda>(a, w'). Inr (a, update_workspace sid wid (\<lambda>_. w') r)))"

section \<open>What a transaction does on the host\<close>

text \<open>
  The clock, the write of \<open>workspace.json\<close>, the write of the namespace references, the release of the
  host resources of a workspace (with its network report) and the verification of that release.
\<close>

record 'n ws_host =
  wh_now :: string
  wh_persist :: "workspace_metadata \<Rightarrow> unit result"
  wh_write_refs :: "workspace_metadata \<Rightarrow> string \<Rightarrow> string \<Rightarrow> unit result"
  wh_cleanup :: "sandbox_metadata \<Rightarrow> workspace_metadata \<Rightarrow> 'n option result"
  wh_verify :: "workspace_metadata \<Rightarrow> 'n option \<Rightarrow> bool"

definition resolve_namespace_ref_path :: "workspace_metadata \<Rightarrow> string \<Rightarrow> string \<Rightarrow> string" where
  "resolve_namespace_ref_path w configured default_name =
     join_path (join_path (wm_workspace_path w) ''ns'') default_name"

definition namespace_ref_paths :: "workspace_metadata \<Rightarrow> string \<times> string" where
  "namespace_ref_paths w =
     (resolve_namespace_ref_path w (nr_mount (wm_namespace_refs w)) ''mnt.ref'',
      resolve_namespace_ref_path w (nr_pid (wm_namespace_refs w)) ''pid.ref'')"

definition normalize_namespace_ref_paths :: "workspace_metadata \<Rightarrow> workspace_metadata" where
  "normalize_namespace_ref_paths w =
     w\<lparr> wm_namespace_refs := \<lparr> nr_mount = fst (namespace_ref_paths w), nr_pid = snd (namespace_ref_paths w) \<rparr> \<rparr>"

section \<open>Stopping\<close>

definition stopped_record :: "string \<Rightarrow> workspace_metadata \<Rightarrow> workspace_metadata" where
  "stopped_record now w =
     (mark_stopped now (w\<lparr> wm_status := WsStopped \<rparr>))
       \<lparr> wm_runtime_pid := None, wm_runtime_starttime_ticks := None, wm_assigned_ip := None,
         wm_namespace_refs := namespace_refs_default \<rparr>"

definition mark_workspace_stopped :: "'n ws_host \<Rightarrow> string \<Rightarrow> registry_sandbox \<Rightarrow>
    (unit \<times> registry_sandbox) result" where
  "mark_workspace_stopped h wid =
     in_sandbox wid (\<lambda>w. let w' = stopped_record (wh_now h) w in
       and_then (with_context ''failed to persist workspace state'' (wh_persist h w')) (\<lambda>_. Inr ((), w')))"

definition commit_workspace_stopped :: "'n ws_host \<Rightarrow> string \<Rightarrow> 'n option \<Rightarrow> registry_sandbox \<Rightarrow>
    (unit \<times> registry_sandbox) result" where
  "commit_workspace_stopped h wid network s =
     (case bt_get (rs_workspaces s) wid of
        None \<Rightarrow> bail ''workspace not found''
      | Some w \<Rightarrow> and_then (mark_workspace_stopped h wid s) (\<lambda>(_, s').
          if wh_verify h w network then Inr ((), s') else bail ''workspace cleanup is incomplete''))"

definition set_workspace_stopped :: "'n ws_host \<Rightarrow> string \<Rightarrow> registry_sandbox \<Rightarrow>
    (unit \<times> registry_sandbox) result" where
  "set_workspace_stopped h wid s =
     (case bt_get (rs_workspaces s) wid of
        None \<Rightarrow> bail ''workspace not found''
      | Some w \<Rightarrow> and_then (wh_cleanup h (rs_metadata s) w) (\<lambda>network.
          commit_workspace_stopped h wid network s))"

definition mark_workspace_stopping :: "'n ws_host \<Rightarrow> string \<Rightarrow> string \<Rightarrow> unit txn" where
  "mark_workspace_stopping h sid wid =
     on_workspace sid wid (\<lambda>w. let w' = w\<lparr> wm_status := WsStopping \<rparr> in
       and_then (wh_persist h w') (\<lambda>_. Inr ((), w')))"

definition rollback_workspace_stopping :: "'n ws_host \<Rightarrow> string \<Rightarrow> string \<Rightarrow> workspace_status \<Rightarrow> unit txn" where
  "rollback_workspace_stopping h sid wid previous =
     on_workspace sid wid (\<lambda>w.
       if wm_status w \<noteq> WsStopping then Inr ((), w)
       else let w' = w\<lparr> wm_status := previous \<rparr> in and_then (wh_persist h w') (\<lambda>_. Inr ((), w')))"

definition same_runtime :: "workspace_metadata \<Rightarrow> workspace_metadata \<Rightarrow> bool" where
  "same_runtime v w \<longleftrightarrow> wm_runtime_pid v = wm_runtime_pid w \<and>
     wm_runtime_starttime_ticks v = wm_runtime_starttime_ticks w"

text \<open>The commit of \<open>stop_workspace_with_certificate\<close>.\<close>

definition stop_commit :: "'n ws_host \<Rightarrow> string \<Rightarrow> string \<Rightarrow> workspace_metadata \<Rightarrow> 'n option \<Rightarrow>
    workspace_metadata txn" where
  "stop_commit h sid wid before network =
     on_sandbox sid (\<lambda>s.
       case bt_get (rs_workspaces s) wid of
         None \<Rightarrow> bail ''workspace not found''
       | Some latest \<Rightarrow>
           if \<not> same_runtime latest before
           then bail ''workspace changed while it was stopping; refusing stale metadata commit''
           else and_then (commit_workspace_stopped h wid network s) (\<lambda>(_, s').
             case bt_get (rs_workspaces s') wid of
               None \<Rightarrow> bail ''workspace not found''
             | Some w \<Rightarrow> Inr (w, s')))"

text \<open>The loop over the confirmed workspaces in \<open>stop_running_workspaces_in_sandbox\<close>.\<close>

fun mark_all_stopped :: "'n ws_host \<Rightarrow> string list \<Rightarrow> registry_sandbox \<Rightarrow> (unit \<times> registry_sandbox) result" where
  "mark_all_stopped h [] s = Inr ((), s)"
| "mark_all_stopped h (wid # wids) s =
     and_then (mark_workspace_stopped h wid s) (\<lambda>(_, s'). mark_all_stopped h wids s')"

definition batch_stop_commit :: "'n ws_host \<Rightarrow> string \<Rightarrow> string list \<Rightarrow> unit txn" where
  "batch_stop_commit h ssel wids r =
     and_then (resolve_sandbox_id r ssel) (\<lambda>sid. on_sandbox sid (mark_all_stopped h wids) r)"

section \<open>Starting\<close>

definition all_workspaces :: "registry \<Rightarrow> workspace_metadata list" where
  "all_workspaces r = concat (map (\<lambda>(_, s). map snd (rs_workspaces s)) (reg_sandboxes r))"

definition occupies_slot :: "string \<Rightarrow> workspace_metadata \<Rightarrow> bool" where
  "occupies_slot wid w = (wm_id w \<noteq> wid \<and> (wm_status w = WsStarting \<or> wm_status w = WsRunning))"

definition at_limit :: "nat option \<Rightarrow> nat \<Rightarrow> bool" where
  "at_limit limit n = (case limit of None \<Rightarrow> False | Some l \<Rightarrow> n \<ge> l)"

definition ensure_start_capacity :: "nat option \<Rightarrow> string \<Rightarrow> string \<Rightarrow> registry \<Rightarrow> unit result" where
  "ensure_start_capacity daemon_max sid wid r =
     (case get_sandbox r sid of
        None \<Rightarrow> bail ''sandbox not found''
      | Some s \<Rightarrow>
          if at_limit (sl_max_running_workspaces (sm_limits (rs_metadata s)))
               (length (filter (occupies_slot wid) (map snd (rs_workspaces s))))
          then bail_code Conflict ''sandbox is at its running-workspace limit''
          else if at_limit daemon_max (length (filter (occupies_slot wid) (all_workspaces r)))
          then bail_code Conflict ''the daemon is at its running-workspace limit''
          else Inr ())"

definition host_octet :: "workspace_metadata \<Rightarrow> u8 option" where
  "host_octet w = Option.bind (wm_assigned_ip w) parse_host_octet"

text \<open>\<open>held_by_others\<close> are the octets of the interfaces on the bridge that other daemons own.\<close>

definition collect_all_used_ip_octets :: "u8 list \<Rightarrow> registry \<Rightarrow> u8 list" where
  "collect_all_used_ip_octets held_by_others r = List.map_filter host_octet (all_workspaces r) @ held_by_others"

definition mark_workspace_starting :: "'n ws_host \<Rightarrow> nat option \<Rightarrow> u8 list \<Rightarrow> string \<Rightarrow> string \<Rightarrow> string txn" where
  "mark_workspace_starting h daemon_max held_by_others sid wid r =
     and_then (ensure_start_capacity daemon_max sid wid r) (\<lambda>_.
     and_then (allocate_ip (collect_all_used_ip_octets held_by_others r)) (\<lambda>ip.
       on_workspace sid wid (\<lambda>w. let w' = w\<lparr> wm_status := WsStarting, wm_assigned_ip := Some ip \<rparr> in
         and_then (wh_persist h w') (\<lambda>_. Inr (ip, w'))) r))"

definition mark_workspace_start_failed :: "'n ws_host \<Rightarrow> string \<Rightarrow> string \<Rightarrow> unit txn" where
  "mark_workspace_start_failed h sid wid = on_sandbox sid (set_workspace_stopped h wid)"

definition release_dead_runtime_resources :: "'n ws_host \<Rightarrow> string \<Rightarrow> string \<Rightarrow> workspace_metadata \<Rightarrow>
    unit txn" where
  "release_dead_runtime_resources h sid wid snapshot r =
     with_context ''failed to release the resources of the dead runtime''
       (on_sandbox sid (\<lambda>s.
          case bt_get (rs_workspaces s) wid of
            None \<Rightarrow> bail ''workspace not found''
          | Some latest \<Rightarrow>
              if \<not> same_runtime latest snapshot \<or> wm_assigned_ip latest \<noteq> wm_assigned_ip snapshot
              then bail ''workspace changed while its dead runtime was being released; retry''
              else set_workspace_stopped h wid s) r)"

record runtime_start =
  rt_pid :: u32
  rt_starttime_ticks :: u64
  rt_mount_ns :: string
  rt_pid_ns :: string
  rt_assigned_ip :: string

definition started_record :: "runtime_start \<Rightarrow> workspace_metadata \<Rightarrow> workspace_metadata" where
  "started_record started w =
     normalize_namespace_ref_paths
       (w\<lparr> wm_status := WsRunning, wm_runtime_pid := Some (rt_pid started),
          wm_runtime_starttime_ticks := Some (rt_starttime_ticks started),
          wm_assigned_ip := Some (rt_assigned_ip started) \<rparr>)"

definition persist_started_workspace_runtime :: "'n ws_host \<Rightarrow> workspace_metadata \<Rightarrow> runtime_start \<Rightarrow>
    workspace_metadata result" where
  "persist_started_workspace_runtime h w started =
     (let record = started_record started w in
      and_then (wh_write_refs h record (rt_mount_ns started) (rt_pid_ns started)) (\<lambda>_.
      and_then (wh_persist h record) (\<lambda>_. Inr record)))"

text \<open>The commit of \<open>start_workspace_with_security\<close>.\<close>

definition start_commit :: "string \<Rightarrow> string \<Rightarrow> workspace_metadata \<Rightarrow> workspace_metadata txn" where
  "start_commit sid wid prepared =
     on_sandbox sid (in_sandbox wid (\<lambda>w.
       if wm_status w \<noteq> WsStarting
       then bail ''refusing to commit runtime metadata: the workspace is not starting''
       else let w' = w\<lparr> wm_sandbox_rootfs_path := wm_sandbox_rootfs_path prepared,
                        wm_status := WsRunning, wm_runtime_pid := wm_runtime_pid prepared,
                        wm_runtime_starttime_ticks := wm_runtime_starttime_ticks prepared,
                        wm_assigned_ip := wm_assigned_ip prepared,
                        wm_namespace_refs := wm_namespace_refs prepared \<rparr> in Inr (w', w')))"

text \<open>The commit of \<open>refresh_live_runtime\<close>.\<close>

definition refresh_commit :: "'n ws_host \<Rightarrow> string \<Rightarrow> string \<Rightarrow> u32 \<Rightarrow> u64 \<Rightarrow> string \<Rightarrow> string \<Rightarrow>
    workspace_metadata txn" where
  "refresh_commit h sid wid pid starttime mount_ns pid_ns =
     on_sandbox sid (in_sandbox wid (\<lambda>w.
       if wm_runtime_pid w \<noteq> Some pid \<or> wm_runtime_starttime_ticks w \<noteq> Some starttime
       then bail ''workspace runtime identity changed while refreshing namespace refs''
       else let w' = normalize_namespace_ref_paths w in
            and_then (wh_write_refs h w' mount_ns pid_ns) (\<lambda>_. Inr (w', w'))))"

section \<open>Creating and removing\<close>

definition saturating_sum :: "u64 list \<Rightarrow> u64" where
  "saturating_sum xs = foldl saturating_add 0 xs"

definition sandbox_workspace_disk_bytes :: "registry_sandbox \<Rightarrow> u64" where
  "sandbox_workspace_disk_bytes s =
     saturating_sum (List.map_filter (\<lambda>w. wl_disk_bytes (wm_limits w)) (map snd (rs_workspaces s)))"

definition sandbox_workspace_disk_bytes_excluding :: "registry_sandbox \<Rightarrow> string \<Rightarrow> u64" where
  "sandbox_workspace_disk_bytes_excluding s wid =
     saturating_sum (List.map_filter (\<lambda>w. wl_disk_bytes (wm_limits w))
       (filter (\<lambda>w. wm_id w \<noteq> wid) (map snd (rs_workspaces s))))"

text \<open>The commit of \<open>create_workspace_with_options\<close>.\<close>

definition create_commit :: "string \<Rightarrow> workspace_metadata \<Rightarrow> workspace_metadata txn" where
  "create_commit ssel w r =
     and_then (resolve_sandbox_id r ssel) (\<lambda>sid.
       on_sandbox sid (\<lambda>s.
         if sm_status (rs_metadata s) \<noteq> SbRunning then bail ''sandbox is stopped''
         else
           and_then (check_disk_budget (sm_limits (rs_metadata s)) (sandbox_workspace_disk_bytes s)
             (case wl_disk_bytes (wm_limits w) of None \<Rightarrow> 0 | Some b \<Rightarrow> b)) (\<lambda>_.
           if list_ex (\<lambda>existing. wm_name existing = wm_name w) (map snd (rs_workspaces s))
           then bail_code Conflict ''workspace name already exists in sandbox''
           else Inr (w, s\<lparr> rs_workspaces := bt_insert (wm_id w) w (rs_workspaces s) \<rparr>))) r)"

text \<open>The removal of a record in \<open>destroy_one\<close>.\<close>

definition destroy_commit :: "string \<Rightarrow> string \<Rightarrow> workspace_metadata \<Rightarrow> bool txn" where
  "destroy_commit sid wid w r =
     (case get_sandbox r sid of
        None \<Rightarrow> Inr (True, r)
      | Some s \<Rightarrow>
          (case bt_get (rs_workspaces s) wid of
             None \<Rightarrow> Inr (True, r)
           | Some v \<Rightarrow>
               if same_runtime v w then Inr (True, remove_workspace sid wid r) else Inr (False, r)))"

section \<open>Resizing\<close>

definition set_workspace_disk_bytes :: "'n ws_host \<Rightarrow> string \<Rightarrow> string \<Rightarrow> u64 \<Rightarrow> unit txn" where
  "set_workspace_disk_bytes h sid wid new_disk_bytes =
     on_sandbox sid (\<lambda>s.
       case bt_get (rs_workspaces s) wid of
         None \<Rightarrow> bail ''workspace not found''
       | Some w \<Rightarrow>
           let previous = (case wl_disk_bytes (wm_limits w) of None \<Rightarrow> 0 | Some b \<Rightarrow> b) in
           and_then (if new_disk_bytes > previous
                     then check_disk_budget (sm_limits (rs_metadata s))
                            (sandbox_workspace_disk_bytes_excluding s wid) new_disk_bytes
                     else Inr ()) (\<lambda>_.
           in_sandbox wid (\<lambda>w.
             let w' = w\<lparr> wm_limits := (wm_limits w)\<lparr> wl_disk_bytes := Some new_disk_bytes \<rparr> \<rparr> in
             and_then (wh_persist h w') (\<lambda>_. Inr ((), w'))) s))"

definition set_workspace_memory_bytes :: "'n ws_host \<Rightarrow> string \<Rightarrow> string \<Rightarrow> u64 option \<Rightarrow> unit txn" where
  "set_workspace_memory_bytes h sid wid new_memory_bytes =
     on_workspace sid wid (\<lambda>w.
       let w' = w\<lparr> wm_limits := (wm_limits w)\<lparr> wl_memory_bytes := new_memory_bytes \<rparr> \<rparr> in
       and_then (wl_validate (wm_limits w')) (\<lambda>_.
       and_then (wh_persist h w') (\<lambda>_. Inr ((), w'))))"

text \<open>The commit of \<open>restart_workspace_after_resize\<close>.\<close>

definition restart_commit :: "'n ws_host \<Rightarrow> string \<Rightarrow> string \<Rightarrow> runtime_start \<Rightarrow> unit txn" where
  "restart_commit h sid wid started =
     on_workspace sid wid (\<lambda>w.
       if wm_status w \<noteq> WsStarting
       then bail ''refusing to commit runtime metadata: the workspace is not starting''
       else let w' = started_record started w in
            and_then (wh_write_refs h w' (rt_mount_ns started) (rt_pid_ns started)) (\<lambda>_.
            and_then (wh_persist h w') (\<lambda>_. Inr ((), w'))))"

end
