(* ===== verification/Workspace_Invariants.thy ===== *)
theory Workspace_Invariants
  imports Workspace_Txns
begin

text \<open>
  What the registry transactions of \<open>Workspace_Txns\<close> keep. Most of them edit one workspace and leave its
  definition alone (id, name, disk allocation, and its address or none); the locale collects what such
  transactions keep of any property that is stable under them, and is interpreted on the four
  properties of the registry: every record under its own id, unique names, unique addresses, and disk
  allocations within the budget of the sandbox.
\<close>

section \<open>Transactions as edits\<close>

lemma bt_adjust_const:
  assumes "bt_wf m" "bt_get m k = Some v"
  shows "bt_adjust k (\<lambda>_. f v) m = bt_adjust k f m"
  unfolding bt_adjust_def
  using bt_get_eq_Some_iff [OF assms(1)] assms(2)
  by (intro map_cong) (auto, metis option.inject)

lemma update_sandbox_const:
  assumes "registry_ok r" "get_sandbox r sid = Some s"
  shows "update_sandbox sid (\<lambda>_. f s) r = update_sandbox sid f r"
  using bt_adjust_const [of "reg_sandboxes r" sid s f] assms
  by (simp add: update_sandbox_def registry_ok_def get_sandbox_def)

lemma update_sandbox_twice:
  "update_sandbox sid (\<lambda>_. s') (update_sandbox sid f r) = update_sandbox sid (\<lambda>_. s') r"
  by (simp add: update_sandbox_def bt_adjust_def comp_def) (auto intro!: arg_cong [of _ _ "\<lambda>x. r\<lparr>reg_sandboxes := x\<rparr>"])

lemma get_workspace_sandbox:
  "get_sandbox r sid = Some s \<Longrightarrow> get_workspace r sid wid = bt_get (rs_workspaces s) wid"
  by (simp add: get_workspace_def)

lemma on_workspace_Inr:
  "on_workspace sid wid f r = Inr (a, r') \<longleftrightarrow>
     (\<exists>w w'. get_workspace r sid wid = Some w \<and> f w = Inr (a, w') \<and> r' = update_workspace sid wid (\<lambda>_. w') r)"
  by (auto simp: on_workspace_def result_simps split: option.splits)

lemma in_sandbox_Inr:
  "in_sandbox wid f s = Inr (a, s') \<longleftrightarrow>
     (\<exists>w w'. bt_get (rs_workspaces s) wid = Some w \<and> f w = Inr (a, w') \<and>
        s' = s\<lparr> rs_workspaces := bt_adjust wid (\<lambda>_. w') (rs_workspaces s) \<rparr>)"
  by (auto simp: in_sandbox_def result_simps split: option.splits)

lemma on_sandbox_Inr:
  "on_sandbox sid f r = Inr (a, r') \<longleftrightarrow>
     (\<exists>s s'. get_sandbox r sid = Some s \<and> f s = Inr (a, s') \<and> r' = update_sandbox sid (\<lambda>_. s') r)"
  by (auto simp: on_sandbox_def result_simps split: option.splits)

lemma sandbox_edit:
  assumes "registry_ok r" "get_sandbox r sid = Some s"
  shows "update_sandbox sid (\<lambda>_. s\<lparr> rs_workspaces := bt_adjust wid (\<lambda>_. w') (rs_workspaces s) \<rparr>) r
    = update_workspace sid wid (\<lambda>_. w') r"
  unfolding update_workspace_def
  by (rule update_sandbox_const [OF assms, of "\<lambda>s. s\<lparr> rs_workspaces := bt_adjust wid (\<lambda>_. w') (rs_workspaces s) \<rparr>"])

lemma mark_workspace_stopped_Inr:
  "mark_workspace_stopped h wid s = Inr (a, s') \<longleftrightarrow>
     (\<exists>w. bt_get (rs_workspaces s) wid = Some w \<and> wh_persist h (stopped_record (wh_now h) w) = Inr () \<and>
        s' = s\<lparr> rs_workspaces := bt_adjust wid (\<lambda>_. stopped_record (wh_now h) w) (rs_workspaces s) \<rparr>)"
  by (auto simp: mark_workspace_stopped_def in_sandbox_Inr result_simps Let_def)

lemma commit_workspace_stopped_Inr:
  "commit_workspace_stopped h wid network s = Inr (a, s') \<Longrightarrow> mark_workspace_stopped h wid s = Inr (a, s')"
  by (auto simp: commit_workspace_stopped_def result_simps split: option.splits if_splits)

lemma set_workspace_stopped_Inr:
  "set_workspace_stopped h wid s = Inr (a, s') \<Longrightarrow> mark_workspace_stopped h wid s = Inr (a, s')"
  by (auto simp: set_workspace_stopped_def result_simps split: option.splits
      dest: commit_workspace_stopped_Inr)

lemma stop_commit_Inr:
  assumes "stop_commit h sid wid before network r = Inr (a, r')"
  obtains s s' where "get_sandbox r sid = Some s" "mark_workspace_stopped h wid s = Inr ((), s')"
    "r' = update_sandbox sid (\<lambda>_. s') r"
proof -
  obtain s s' where s: "get_sandbox r sid = Some s" "r' = update_sandbox sid (\<lambda>_. s') r"
      "commit_workspace_stopped h wid network s = Inr ((), s')"
    using assms unfolding stop_commit_def on_sandbox_Inr
    by (fastforce simp: result_simps split: option.splits if_splits)
  then show ?thesis using that commit_workspace_stopped_Inr by blast
qed

lemma start_failed_Inr:
  assumes "mark_workspace_start_failed h sid wid r = Inr (a, r')"
  obtains s s' where "get_sandbox r sid = Some s" "mark_workspace_stopped h wid s = Inr ((), s')"
    "r' = update_sandbox sid (\<lambda>_. s') r"
  using assms by (auto simp: mark_workspace_start_failed_def on_sandbox_Inr dest: set_workspace_stopped_Inr)

lemma release_dead_Inr:
  assumes "release_dead_runtime_resources h sid wid snapshot r = Inr (a, r')"
  obtains s s' where "get_sandbox r sid = Some s" "mark_workspace_stopped h wid s = Inr ((), s')"
    "r' = update_sandbox sid (\<lambda>_. s') r"
proof -
  obtain s s' where s: "get_sandbox r sid = Some s" "r' = update_sandbox sid (\<lambda>_. s') r"
      "set_workspace_stopped h wid s = Inr ((), s')"
    using assms unfolding release_dead_runtime_resources_def with_context_Inr on_sandbox_Inr
    by (fastforce split: option.splits if_splits)
  then show ?thesis using that set_workspace_stopped_Inr by blast
qed

lemma marked_stopped_edit:
  assumes "registry_ok r" "get_sandbox r sid = Some s" "mark_workspace_stopped h wid s = Inr (a, s')"
  shows "\<exists>w. get_workspace r sid wid = Some w \<and>
    update_sandbox sid (\<lambda>_. s') r = update_workspace sid wid (\<lambda>_. stopped_record (wh_now h) w) r"
  using assms by (auto simp: mark_workspace_stopped_Inr get_workspace_sandbox sandbox_edit)

section \<open>Properties that are stable\<close>

text \<open>The parts of a record that define the workspace; a release may give up its address.\<close>

definition same_definition :: "workspace_metadata \<Rightarrow> workspace_metadata \<Rightarrow> bool" where
  "same_definition w w' \<longleftrightarrow> wm_id w' = wm_id w \<and> wm_sandbox_id w' = wm_sandbox_id w \<and>
     wm_name w' = wm_name w \<and> wl_disk_bytes (wm_limits w') = wl_disk_bytes (wm_limits w) \<and>
     (wm_assigned_ip w' = wm_assigned_ip w \<or> wm_assigned_ip w' = None)"

lemma same_definition_stopped [simp]: "same_definition w (stopped_record now w)"
  by (simp add: same_definition_def stopped_record_def mark_stopped_def)

lemma same_definition_normalize [simp]: "same_definition w (normalize_namespace_ref_paths w)"
  by (simp add: same_definition_def normalize_namespace_ref_paths_def)

lemma same_definition_status [simp]: "same_definition w (w\<lparr> wm_status := x \<rparr>)"
  by (simp add: same_definition_def)

lemma same_definition_touch [simp]: "same_definition w (touch_workspace kind stamp w)"
  by (cases kind) (simp_all add: same_definition_def touch_workspace_def)

locale stable_at =
  fixes good :: "registry \<Rightarrow> bool" and sid wid :: string
  assumes good_edit: "registry_ok r \<Longrightarrow> good r \<Longrightarrow> get_workspace r sid wid = Some w \<Longrightarrow>
      same_definition w w' \<Longrightarrow> good (update_workspace sid wid (\<lambda>_. w') r)"
    and good_removal: "registry_ok r \<Longrightarrow> good r \<Longrightarrow> good (remove_workspace sid wid r)"
begin

lemma good_marked_stopped:
  assumes "registry_ok r" "good r" "get_sandbox r sid = Some s" "mark_workspace_stopped h wid s = Inr (a, s')"
  shows "good (update_sandbox sid (\<lambda>_. s') r)"
  using marked_stopped_edit [OF assms(1,3,4)] good_edit [OF assms(1,2)] by auto

lemma good_stop_commit:
  assumes "registry_ok r" "good r" "stop_commit h sid wid before network r = Inr (a, r')"
  shows "good r'"
  using assms by (auto elim!: stop_commit_Inr intro: good_marked_stopped)

lemma good_start_failed:
  assumes "registry_ok r" "good r" "mark_workspace_start_failed h sid wid r = Inr (a, r')"
  shows "good r'"
  using assms by (auto elim!: start_failed_Inr intro: good_marked_stopped)

lemma good_release_dead:
  assumes "registry_ok r" "good r" "release_dead_runtime_resources h sid wid snapshot r = Inr (a, r')"
  shows "good r'"
  using assms by (auto elim!: release_dead_Inr intro: good_marked_stopped)

lemma good_stopping:
  assumes "registry_ok r" "good r" "mark_workspace_stopping h sid wid r = Inr (a, r')"
  shows "good r'"
  using assms by (auto simp: mark_workspace_stopping_def on_workspace_Inr result_simps Let_def intro: good_edit)

lemma good_rollback_stopping:
  assumes "registry_ok r" "good r" "rollback_workspace_stopping h sid wid previous r = Inr (a, r')"
  shows "good r'"
  using assms by (auto simp: rollback_workspace_stopping_def on_workspace_Inr result_simps Let_def
      same_definition_def split: if_splits intro!: good_edit [OF assms(1,2)])

lemma good_refresh:
  assumes "registry_ok r" "good r" "refresh_commit h sid wid pid starttime mount_ns pid_ns r = Inr (a, r')"
  shows "good r'"
  using assms by (auto simp: refresh_commit_def on_sandbox_Inr in_sandbox_Inr result_simps Let_def
      sandbox_edit get_workspace_sandbox split: if_splits intro!: good_edit)

lemma good_destroy:
  assumes "registry_ok r" "good r" "destroy_commit sid wid w r = Inr (a, r')"
  shows "good r'"
  using assms by (auto simp: destroy_commit_def split: option.splits if_splits intro: good_removal)

lemma good_memory:
  assumes "registry_ok r" "good r" "set_workspace_memory_bytes h sid wid bytes r = Inr (a, r')"
  shows "good r'"
  using assms by (auto simp: set_workspace_memory_bytes_def on_workspace_Inr result_simps Let_def
      same_definition_def intro!: good_edit [OF assms(1,2)])

lemma good_touch:
  assumes "registry_ok r" "good r" "get_workspace r sid wid = Some w"
  shows "good (update_workspace sid wid (\<lambda>_. touch_workspace kind stamp w) r)"
  using assms by (auto intro: good_edit)

lemma good_start_commit:
  assumes "registry_ok r" "good r" "start_commit sid wid prepared r = Inr (a, r')"
    and "get_workspace r sid wid = Some w" "wm_assigned_ip prepared = wm_assigned_ip w"
  shows "good r'"
  using assms by (auto simp: start_commit_def on_sandbox_Inr in_sandbox_Inr result_simps Let_def
      sandbox_edit get_workspace_sandbox same_definition_def split: if_splits intro!: good_edit [OF assms(1,2)])

lemma good_restart_commit:
  assumes "registry_ok r" "good r" "restart_commit h sid wid started r = Inr (a, r')"
    and "get_workspace r sid wid = Some w" "wm_assigned_ip w = Some (rt_assigned_ip started)"
  shows "good r'"
  using assms by (auto simp: restart_commit_def on_workspace_Inr result_simps Let_def same_definition_def
      started_record_def normalize_namespace_ref_paths_def split: if_splits intro!: good_edit [OF assms(1,2)])

end

text \<open>A property that is stable wherever the registry changes.\<close>

locale stable_property =
  fixes good :: "registry \<Rightarrow> bool"
  assumes edit: "registry_ok r \<Longrightarrow> good r \<Longrightarrow> get_workspace r sid wid = Some w \<Longrightarrow>
      same_definition w w' \<Longrightarrow> good (update_workspace sid wid (\<lambda>_. w') r)"
    and removal: "registry_ok r \<Longrightarrow> good r \<Longrightarrow> good (remove_workspace sid wid r)"

sublocale stable_property \<subseteq> stable_at good sid wid for sid wid
  by unfold_locales (auto intro: edit removal)

section \<open>Records under their own ids, and names\<close>

interpretation ids: stable_property registry_ok
proof
  fix r sid wid w w'
  assume ok: "registry_ok r" and w: "get_workspace r sid wid = Some w" and def: "same_definition w w'"
  obtain s where s: "get_sandbox r sid = Some s" "bt_get (rs_workspaces s) wid = Some w"
    using w by (auto simp: get_workspace_def split: option.splits)
  have ids: "wm_id w' = wid" "wm_sandbox_id w' = sid"
    using registry_ok_get_workspace [OF ok w] def by (simp_all add: same_definition_def)
  show "registry_ok (update_workspace sid wid (\<lambda>_. w') r)"
    unfolding update_workspace_def
    by (rule registry_ok_update_sandbox [OF ok])
      (auto simp: sandbox_ok_def set_bt_adjust ids intro: bt_intros)
qed (rule registry_ok_remove_workspace)

definition names_unique :: "registry \<Rightarrow> bool" where
  "names_unique r \<longleftrightarrow> (\<forall>sid a b v w. get_workspace r sid a = Some v \<longrightarrow> get_workspace r sid b = Some w \<longrightarrow>
     wm_name v = wm_name w \<longrightarrow> a = b)"

interpretation names: stable_property names_unique
  by unfold_locales (auto simp: names_unique_def same_definition_def split: if_splits)

section \<open>Addresses\<close>

definition addresses_unique :: "registry \<Rightarrow> bool" where
  "addresses_unique r \<longleftrightarrow> (\<forall>sid a sid' b v w h. get_workspace r sid a = Some v \<longrightarrow>
     get_workspace r sid' b = Some w \<longrightarrow> host_octet v = Some h \<longrightarrow> host_octet w = Some h \<longrightarrow>
     sid = sid' \<and> a = b)"

lemma host_octet_same_definition:
  "same_definition w w' \<Longrightarrow> host_octet w' = Some h \<Longrightarrow> host_octet w = Some h"
  by (auto simp: same_definition_def host_octet_def)

lemma addresses_uniqueD:
  "addresses_unique r \<Longrightarrow> get_workspace r sid a = Some v \<Longrightarrow> get_workspace r sid' b = Some w \<Longrightarrow>
     host_octet v = Some h \<Longrightarrow> host_octet w = Some h \<Longrightarrow> sid = sid' \<and> a = b"
  unfolding addresses_unique_def by blast

lemma addresses_unique_edit:
  assumes "addresses_unique r" "get_workspace r sid wid = Some w"
    and new: "\<And>h sid' b v. host_octet w' = Some h \<Longrightarrow> get_workspace r sid' b = Some v \<Longrightarrow>
      host_octet v = Some h \<Longrightarrow> sid' = sid \<and> b = wid"
  shows "addresses_unique (update_workspace sid wid (\<lambda>_. w') r)"
  unfolding addresses_unique_def
proof (intro allI impI)
  fix s1 a s2 b v1 v2 h
  assume g: "get_workspace (update_workspace sid wid (\<lambda>_. w') r) s1 a = Some v1"
      "get_workspace (update_workspace sid wid (\<lambda>_. w') r) s2 b = Some v2"
    and h: "host_octet v1 = Some h" "host_octet v2 = Some h"
  show "s1 = s2 \<and> a = b"
    using g h new [of h s1 a v1] new [of h s2 b v2] addresses_uniqueD [OF assms(1), of s1 a v1 s2 b v2 h]
    by (auto split: if_splits)
qed

interpretation addresses: stable_property addresses_unique
proof
  fix r sid wid w w'
  assume a: "addresses_unique r" "get_workspace r sid wid = Some w" "same_definition w w'"
  show "addresses_unique (update_workspace sid wid (\<lambda>_. w') r)"
    by (rule addresses_unique_edit [OF a(1,2)])
      (use host_octet_same_definition [OF a(3)] addresses_uniqueD [OF a(1) _ a(2)] in blast)
qed (auto simp: addresses_unique_def split: if_splits)

lemma all_workspaces_member:
  assumes "get_workspace r sid wid = Some w"
  shows "w \<in> set (all_workspaces r)"
proof -
  obtain s where "(sid, s) \<in> set (reg_sandboxes r)" "(wid, w) \<in> set (rs_workspaces s)"
    using assms by (auto simp: get_workspace_def get_sandbox_def split: option.splits dest!: map_of_SomeD)
  then show ?thesis by (force simp: all_workspaces_def)
qed

lemma used_octet:
  assumes "get_workspace r sid wid = Some w" "host_octet w = Some h"
  shows "h \<in> set (collect_all_used_ip_octets others r)"
  using all_workspaces_member [OF assms(1)] assms(2)
  by (force simp: collect_all_used_ip_octets_def map_filter_def)

text \<open>What a reservation records.\<close>

lemma mark_workspace_starting_Inr:
  assumes "mark_workspace_starting h daemon_max others sid wid r = Inr (ip, r')"
  obtains w where "get_workspace r sid wid = Some w" "ensure_start_capacity daemon_max sid wid r = Inr ()"
    "allocate_ip (collect_all_used_ip_octets others r) = Inr ip"
    "r' = update_workspace sid wid (\<lambda>_. w\<lparr> wm_status := WsStarting, wm_assigned_ip := Some ip \<rparr>) r"
  using assms by (auto simp: mark_workspace_starting_def on_workspace_Inr result_simps Let_def)

lemma allocated_fresh:
  assumes "allocate_ip used = Inr ip"
  obtains h where "parse_host_octet ip = Some h" "h \<notin> set used"
  using assms ip_allocate_Some [of used] by (auto simp: allocate_ip_def split: option.splits)

lemma reservation_addresses_unique:
  assumes "addresses_unique r" "mark_workspace_starting h daemon_max others sid wid r = Inr (ip, r')"
  shows "addresses_unique r'"
proof -
  obtain w where w: "get_workspace r sid wid = Some w"
    and ip: "allocate_ip (collect_all_used_ip_octets others r) = Inr ip"
    and r': "r' = update_workspace sid wid (\<lambda>_. w\<lparr> wm_status := WsStarting, wm_assigned_ip := Some ip \<rparr>) r"
    using mark_workspace_starting_Inr [OF assms(2)] by metis
  obtain k where "parse_host_octet ip = Some k" "k \<notin> set (collect_all_used_ip_octets others r)"
    using allocated_fresh [OF ip] by metis
  then show ?thesis
    unfolding r' using used_octet
    by (intro addresses_unique_edit [OF assms(1) w]) (auto simp: host_octet_def)
qed

section \<open>Disk budgets\<close>

definition disk_of :: "workspace_metadata \<Rightarrow> nat" where
  "disk_of w = (case wl_disk_bytes (wm_limits w) of None \<Rightarrow> 0 | Some b \<Rightarrow> unat b)"

definition entries_disk :: "(string, workspace_metadata) btree \<Rightarrow> nat" where
  "entries_disk m = sum_list (map (\<lambda>(_, w). disk_of w) m)"

lemma unat_foldl_saturating:
  "unat (foldl saturating_add a xs) = min (unat a + sum_list (map unat xs)) (2 ^ 64 - 1)" for a :: u64
proof (induction xs arbitrary: a)
  case Nil
  have "unat a < 2 ^ 64" using unsigned_less [of a] by simp
  then show ?case by simp
next
  case (Cons x xs)
  then show ?case by (simp add: unat_saturating_add)
qed

lemma unat_saturating_sum: "unat (saturating_sum xs) = min (sum_list (map unat xs)) (2 ^ 64 - 1)"
  by (simp add: saturating_sum_def unat_foldl_saturating)

lemma sum_disk_filter:
  "sum_list (map unat (List.map_filter (\<lambda>w. wl_disk_bytes (wm_limits w)) ws)) = sum_list (map disk_of ws)"
  by (induction ws) (auto simp: map_filter_def disk_of_def split: option.splits)

lemma unat_sandbox_disk:
  "unat (sandbox_workspace_disk_bytes s) = min (entries_disk (rs_workspaces s)) (2 ^ 64 - 1)"
  by (simp add: sandbox_workspace_disk_bytes_def unat_saturating_sum sum_disk_filter entries_disk_def
      comp_def case_prod_beta')

lemma entries_disk_remove: "entries_disk (bt_remove k m) \<le> entries_disk m"
  by (induction m) (auto simp: entries_disk_def bt_remove_def)

lemma entries_disk_insert:
  "bt_get m k = None \<Longrightarrow> entries_disk (bt_insert k w m) = disk_of w + entries_disk m"
  by (induction m) (auto simp: entries_disk_def split: if_splits)

lemma entries_disk_without:
  assumes "bt_wf m" "bt_get m k = Some w"
  shows "entries_disk m = disk_of w + entries_disk (bt_remove k m)"
  using assms
proof (induction m)
  case (Cons e m)
  obtain k' v where e: "e = (k', v)" by (cases e)
  have wf: "bt_wf m" "k' \<notin> fst ` set m" using Cons.prems(1) by (auto simp: e bt_wf_Cons)
  show ?case
  proof (cases "k = k'")
    case True
    then have "bt_remove k m = m" using wf(2) by (force simp: bt_remove_def filter_id_conv)
    then show ?thesis using True Cons.prems(2) by (simp add: e entries_disk_def bt_remove_def)
  next
    case False
    then show ?thesis
      using Cons.IH [OF wf(1)] Cons.prems(2) by (simp add: e entries_disk_def bt_remove_def)
  qed
qed simp

lemma bt_remove_adjust: "bt_remove k (bt_adjust k f m) = bt_remove k m"
  by (induction m) (auto simp: bt_remove_def bt_adjust_def)

lemma entries_disk_adjust:
  assumes "bt_wf m" "bt_get m k = Some w"
  shows "entries_disk (bt_adjust k (\<lambda>_. w') m) = disk_of w' + entries_disk (bt_remove k m)"
  using entries_disk_without [of "bt_adjust k (\<lambda>_. w') m" k w'] assms
  by (simp add: bt_remove_adjust bt_wf_adjust)

lemma unat_sandbox_disk_excluding:
  assumes "sandbox_ok sid s"
  shows "unat (sandbox_workspace_disk_bytes_excluding s wid) =
    min (entries_disk (bt_remove wid (rs_workspaces s))) (2 ^ 64 - 1)"
proof -
  have "filter (\<lambda>w. wm_id w \<noteq> wid) (map snd (rs_workspaces s)) = map snd (bt_remove wid (rs_workspaces s))"
    using assms unfolding bt_remove_def filter_map
    by (intro arg_cong [of _ _ "map snd"] filter_cong) (auto simp: sandbox_ok_def)
  then show ?thesis
    by (simp add: sandbox_workspace_disk_bytes_excluding_def unat_saturating_sum sum_disk_filter
        entries_disk_def comp_def case_prod_beta')
qed

definition within_budget :: "registry_sandbox \<Rightarrow> bool" where
  "within_budget s \<longleftrightarrow> (\<forall>b. sl_disk_bytes (sm_limits (rs_metadata s)) = Some b \<longrightarrow>
     sandbox_workspace_disk_bytes s \<le> b)"

definition budgets_kept :: "registry \<Rightarrow> bool" where
  "budgets_kept r \<longleftrightarrow> (\<forall>sid s. get_sandbox r sid = Some s \<longrightarrow> within_budget s)"

lemma within_budget_smaller:
  assumes "within_budget s" "rs_metadata s' = rs_metadata s"
    and "entries_disk (rs_workspaces s') \<le> entries_disk (rs_workspaces s)"
  shows "within_budget s'"
  using assms unfolding within_budget_def by (fastforce simp: word_le_nat_alt unat_sandbox_disk)

lemma budgets_kept_update:
  assumes "budgets_kept r" "\<And>s. get_sandbox r sid = Some s \<Longrightarrow> within_budget s \<Longrightarrow> within_budget (f s)"
  shows "budgets_kept (update_sandbox sid f r)"
  using assms by (auto simp: budgets_kept_def split: if_splits)

lemma budgets_kept_edit:
  assumes ok: "registry_ok r" and b: "budgets_kept r" and w: "get_workspace r sid wid = Some w"
    and disk: "wl_disk_bytes (wm_limits w') = wl_disk_bytes (wm_limits w)"
  shows "budgets_kept (update_workspace sid wid (\<lambda>_. w') r)"
  unfolding update_workspace_def
proof (rule budgets_kept_update [OF b])
  fix s
  assume s: "get_sandbox r sid = Some s" and wb: "within_budget s"
  have "bt_wf (rs_workspaces s)" "bt_get (rs_workspaces s) wid = Some w"
    using registry_ok_get [OF ok s] w s by (auto simp: sandbox_ok_def get_workspace_def)
  then have "entries_disk (bt_adjust wid (\<lambda>_. w') (rs_workspaces s)) = entries_disk (rs_workspaces s)"
    using disk by (simp add: entries_disk_adjust entries_disk_without disk_of_def)
  then show "within_budget (s\<lparr> rs_workspaces := bt_adjust wid (\<lambda>_. w') (rs_workspaces s) \<rparr>)"
    by (intro within_budget_smaller [OF wb]) simp_all
qed

interpretation budgets: stable_property budgets_kept
proof
  fix r sid wid w w'
  assume "registry_ok r" "budgets_kept r" "get_workspace r sid wid = Some w" "same_definition w w'"
  then show "budgets_kept (update_workspace sid wid (\<lambda>_. w') r)"
    by (auto intro: budgets_kept_edit simp: same_definition_def)
next
  fix r sid wid
  assume "budgets_kept r"
  then show "budgets_kept (remove_workspace sid wid r)"
    unfolding remove_workspace_def
    by (rule budgets_kept_update) (auto intro: within_budget_smaller simp: entries_disk_remove)
qed

lemma check_disk_budget_Inr:
  "check_disk_budget l a b = Inr () \<longleftrightarrow>
     (\<forall>budget. sl_disk_bytes l = Some budget \<longrightarrow> saturating_add a b \<le> budget)"
  by (auto simp: check_disk_budget_def not_less split: option.splits)

lemma granted_within_budget:
  assumes "check_disk_budget (sm_limits (rs_metadata s)) held new = Inr ()"
    and "unat held = min n (2 ^ 64 - 1)" "rs_metadata s' = rs_metadata s"
    and "entries_disk (rs_workspaces s') = unat new + n"
  shows "within_budget s'"
  unfolding within_budget_def
proof (intro allI impI)
  fix b
  assume "sl_disk_bytes (sm_limits (rs_metadata s')) = Some b"
  then have "saturating_add held new \<le> b" using assms(1,3) by (simp add: check_disk_budget_Inr)
  then show "sandbox_workspace_disk_bytes s' \<le> b"
    using assms(2,4) by (simp add: word_le_nat_alt unat_sandbox_disk unat_saturating_add)
qed

section \<open>Batches, creation and disk changes\<close>

text \<open>Stopping a batch edits one workspace after the other.\<close>

context stable_property
begin

lemma good_mark_all_stopped:
  assumes "registry_ok r" "good r" "get_sandbox r sid = Some s" "mark_all_stopped h wids s = Inr (a, s')"
  shows "good (update_sandbox sid (\<lambda>_. s') r) \<and> registry_ok (update_sandbox sid (\<lambda>_. s') r)"
  using assms
proof (induction wids arbitrary: s r)
  case Nil
  then have "update_sandbox sid (\<lambda>_. s') r = r"
    using bt_adjust_const [of "reg_sandboxes r" sid s "\<lambda>x. x"]
    by (simp add: update_sandbox_def registry_ok_def get_sandbox_def bt_adjust_def case_prod_beta')
  then show ?case using Nil by simp
next
  case (Cons wid wids)
  obtain s1 where s1: "mark_workspace_stopped h wid s = Inr ((), s1)" "mark_all_stopped h wids s1 = Inr (a, s')"
    using Cons.prems(4) by (auto simp: result_simps)
  let ?r = "update_sandbox sid (\<lambda>_. s1) r"
  have "good ?r" "registry_ok ?r"
    using good_marked_stopped [OF Cons.prems(1-3) s1(1)] ids.good_marked_stopped [OF Cons.prems(1,1,3) s1(1)]
    by simp_all
  moreover have "get_sandbox ?r sid = Some s1" using Cons.prems(3) by simp
  ultimately show ?case using Cons.IH [of ?r s1] s1(2) by (simp add: update_sandbox_twice)
qed

lemma good_batch_stop:
  assumes "registry_ok r" "good r" "batch_stop_commit h ssel wids r = Inr (a, r')"
  shows "good r'"
proof -
  obtain sid s s' where "get_sandbox r sid = Some s" "mark_all_stopped h wids s = Inr (a, s')"
      "r' = update_sandbox sid (\<lambda>_. s') r"
    using assms(3) by (auto simp: batch_stop_commit_def result_simps on_sandbox_Inr)
  then show ?thesis using good_mark_all_stopped [OF assms(1,2)] by blast
qed

end

lemma create_commit_Inr:
  assumes ok: "registry_ok r" and create: "create_commit ssel w r = Inr (a, r')"
  obtains sid s where "resolve_sandbox_id r ssel = Inr sid" "get_sandbox r sid = Some s"
    "check_disk_budget (sm_limits (rs_metadata s)) (sandbox_workspace_disk_bytes s)
       (case wl_disk_bytes (wm_limits w) of None \<Rightarrow> 0 | Some b \<Rightarrow> b) = Inr ()"
    "\<not> list_ex (\<lambda>existing. wm_name existing = wm_name w) (map snd (rs_workspaces s))"
    "r' = insert_workspace sid w r"
proof -
  obtain sid s where s: "resolve_sandbox_id r ssel = Inr sid" "get_sandbox r sid = Some s"
    and c: "check_disk_budget (sm_limits (rs_metadata s)) (sandbox_workspace_disk_bytes s)
       (case wl_disk_bytes (wm_limits w) of None \<Rightarrow> 0 | Some b \<Rightarrow> b) = Inr ()"
    and n: "\<not> list_ex (\<lambda>existing. wm_name existing = wm_name w) (map snd (rs_workspaces s))"
    and r': "r' = update_sandbox sid (\<lambda>_. s\<lparr> rs_workspaces := bt_insert (wm_id w) w (rs_workspaces s) \<rparr>) r"
    using create by (auto simp: create_commit_def result_simps on_sandbox_Inr simp del: list_ex_iff
        split: if_splits)
  have "r' = insert_workspace sid w r"
    unfolding r' insert_workspace_def
    by (rule update_sandbox_const [OF ok s(2), of "\<lambda>s. s\<lparr> rs_workspaces := bt_insert (wm_id w) w (rs_workspaces s) \<rparr>"])
  with s c n show ?thesis using that by blast
qed

lemma get_workspace_insert:
  assumes "get_sandbox r sid = Some s"
  shows "get_workspace (insert_workspace sid w r) sid' wid' =
    (if sid' = sid \<and> wid' = wm_id w then Some w else get_workspace r sid' wid')"
  using assms by (auto simp: get_workspace_def insert_workspace_def)

lemma set_bt_insert_subset: "set (bt_insert k v m) \<subseteq> insert (k, v) (set m)"
  by (induction m) (auto split: if_splits)

lemma registry_ok_insert:
  assumes "registry_ok r" "wm_sandbox_id w = sid"
  shows "registry_ok (insert_workspace sid w r)"
  unfolding insert_workspace_def
proof (rule registry_ok_update_sandbox [OF assms(1)])
  fix s
  assume "sandbox_ok sid s"
  then show "sandbox_ok sid (s\<lparr> rs_workspaces := bt_insert (wm_id w) w (rs_workspaces s) \<rparr>)"
    using set_bt_insert_subset [of "wm_id w" w "rs_workspaces s"] assms(2)
    by (fastforce simp: sandbox_ok_def intro: bt_intros)
qed

text \<open>A new record has an id that no record has, the id of its sandbox, and no address.\<close>

definition fresh_record :: "string \<Rightarrow> workspace_metadata \<Rightarrow> registry \<Rightarrow> bool" where
  "fresh_record sid w r \<longleftrightarrow> get_workspace r sid (wm_id w) = None \<and> wm_sandbox_id w = sid \<and>
     wm_assigned_ip w = None"

definition registry_good :: "registry \<Rightarrow> bool" where
  "registry_good r \<longleftrightarrow> registry_ok r \<and> names_unique r \<and> addresses_unique r \<and> budgets_kept r"

lemma registry_goodD:
  "registry_good r \<Longrightarrow> registry_ok r" "registry_good r \<Longrightarrow> names_unique r"
  "registry_good r \<Longrightarrow> addresses_unique r" "registry_good r \<Longrightarrow> budgets_kept r"
  by (simp_all add: registry_good_def)

interpretation good: stable_property registry_good
  by unfold_locales
    (auto simp: registry_good_def intro: ids.good_edit names.good_edit addresses.good_edit budgets.good_edit
      ids.good_removal names.good_removal addresses.good_removal budgets.good_removal)

lemma create_keeps_good:
  assumes g: "registry_good r" and c: "create_commit ssel w r = Inr (a, r')"
    and f: "\<And>sid. resolve_sandbox_id r ssel = Inr sid \<Longrightarrow> fresh_record sid w r"
  shows "registry_good r'"
proof -
  note ok = registry_goodD(1) [OF g]
  obtain sid s where s: "resolve_sandbox_id r ssel = Inr sid" "get_sandbox r sid = Some s"
    and b: "check_disk_budget (sm_limits (rs_metadata s)) (sandbox_workspace_disk_bytes s)
       (case wl_disk_bytes (wm_limits w) of None \<Rightarrow> 0 | Some b \<Rightarrow> b) = Inr ()"
    and n: "\<not> list_ex (\<lambda>existing. wm_name existing = wm_name w) (map snd (rs_workspaces s))"
    and r': "r' = insert_workspace sid w r"
    using create_commit_Inr [OF ok c] by metis
  have fresh: "bt_get (rs_workspaces s) (wm_id w) = None" "wm_sandbox_id w = sid" "wm_assigned_ip w = None"
    using f [OF s(1)] s(2) by (simp_all add: fresh_record_def get_workspace_def)
  have "wm_name v \<noteq> wm_name w" if "bt_get (rs_workspaces s) k = Some v" for k v
    using n map_of_SomeD [OF that] by (force simp: list_ex_iff)
  then have "names_unique r'"
    using registry_goodD(2) [OF g] s(2) unfolding r' names_unique_def
    by (auto simp: get_workspace_insert get_workspace_sandbox split: if_splits) (metis+)
  moreover have "addresses_unique r'"
    using registry_goodD(3) [OF g] fresh(3) unfolding r' addresses_unique_def
    by (auto simp: get_workspace_insert [OF s(2)] host_octet_def split: if_splits)
  moreover have "budgets_kept r'"
    unfolding r' insert_workspace_def
  proof (rule budgets_kept_update [OF registry_goodD(4) [OF g]])
    fix t
    assume t: "get_sandbox r sid = Some t"
    have "entries_disk (bt_insert (wm_id w) w (rs_workspaces s)) =
        unat (case wl_disk_bytes (wm_limits w) of None \<Rightarrow> 0 | Some b \<Rightarrow> b) + entries_disk (rs_workspaces s)"
      by (simp add: entries_disk_insert [OF fresh(1)] disk_of_def split: option.splits)
    then show "within_budget (t\<lparr> rs_workspaces := bt_insert (wm_id w) w (rs_workspaces t) \<rparr>)"
      using t s(2) by (intro granted_within_budget [OF b unat_sandbox_disk]) simp_all
  qed
  ultimately show ?thesis
    using registry_ok_insert [OF ok fresh(2)] by (simp add: registry_good_def r')
qed

lemma set_disk_Inr:
  assumes ok: "registry_ok r" and d: "set_workspace_disk_bytes h sid wid bytes r = Inr (a, r')"
  obtains s w where "get_sandbox r sid = Some s" "bt_get (rs_workspaces s) wid = Some w"
    "(case wl_disk_bytes (wm_limits w) of None \<Rightarrow> 0 | Some b \<Rightarrow> b) < bytes \<longrightarrow>
       check_disk_budget (sm_limits (rs_metadata s)) (sandbox_workspace_disk_bytes_excluding s wid) bytes = Inr ()"
    "r' = update_workspace sid wid (\<lambda>_. w\<lparr> wm_limits := (wm_limits w)\<lparr> wl_disk_bytes := Some bytes \<rparr> \<rparr>) r"
proof -
  obtain s s' where s: "get_sandbox r sid = Some s" "r' = update_sandbox sid (\<lambda>_. s') r"
    and f: "(case bt_get (rs_workspaces s) wid of
         None \<Rightarrow> bail ''workspace not found''
       | Some w \<Rightarrow>
           let previous = (case wl_disk_bytes (wm_limits w) of None \<Rightarrow> 0 | Some b \<Rightarrow> b) in
           and_then (if bytes > previous
                     then check_disk_budget (sm_limits (rs_metadata s))
                            (sandbox_workspace_disk_bytes_excluding s wid) bytes
                     else Inr ()) (\<lambda>_.
           in_sandbox wid (\<lambda>w.
             let w' = w\<lparr> wm_limits := (wm_limits w)\<lparr> wl_disk_bytes := Some bytes \<rparr> \<rparr> in
             and_then (wh_persist h w') (\<lambda>_. Inr ((), w'))) s)) = Inr (a, s')"
    using d unfolding set_workspace_disk_bytes_def on_sandbox_Inr by blast
  obtain w where w: "bt_get (rs_workspaces s) wid = Some w" using f by (cases "bt_get (rs_workspaces s) wid") auto
  have c: "(case wl_disk_bytes (wm_limits w) of None \<Rightarrow> 0 | Some b \<Rightarrow> b) < bytes \<longrightarrow>
      check_disk_budget (sm_limits (rs_metadata s)) (sandbox_workspace_disk_bytes_excluding s wid) bytes = Inr ()"
    using f w by (auto simp: result_simps Let_def split: if_splits)
  have "s' = s\<lparr> rs_workspaces := bt_adjust wid
      (\<lambda>_. w\<lparr> wm_limits := (wm_limits w)\<lparr> wl_disk_bytes := Some bytes \<rparr> \<rparr>) (rs_workspaces s) \<rparr>"
    using f w by (auto simp: result_simps in_sandbox_Inr Let_def)
  then show ?thesis
    using that [OF s(1) w c] s(2) sandbox_edit [OF ok s(1)] by simp
qed

lemma set_disk_keeps_good:
  assumes g: "registry_good r" and d: "set_workspace_disk_bytes h sid wid bytes r = Inr (a, r')"
  shows "registry_good r'"
proof -
  note ok = registry_goodD(1) [OF g]
  obtain s w where s: "get_sandbox r sid = Some s" "bt_get (rs_workspaces s) wid = Some w"
    and c: "(case wl_disk_bytes (wm_limits w) of None \<Rightarrow> 0 | Some b \<Rightarrow> b) < bytes \<longrightarrow>
       check_disk_budget (sm_limits (rs_metadata s)) (sandbox_workspace_disk_bytes_excluding s wid) bytes = Inr ()"
    and r': "r' = update_workspace sid wid
       (\<lambda>_. w\<lparr> wm_limits := (wm_limits w)\<lparr> wl_disk_bytes := Some bytes \<rparr> \<rparr>) r"
    using set_disk_Inr [OF ok d] by metis
  let ?w = "w\<lparr> wm_limits := (wm_limits w)\<lparr> wl_disk_bytes := Some bytes \<rparr> \<rparr>"
  have w: "get_workspace r sid wid = Some w" using s by (simp add: get_workspace_def)
  have wf: "bt_wf (rs_workspaces s)" "sandbox_ok sid s"
    using registry_ok_get [OF ok s(1)] by (auto simp: sandbox_ok_def)
  have ids: "wm_id w = wid" "wm_sandbox_id w = sid" using registry_ok_get_workspace [OF ok w] by auto
  have "registry_ok r'"
    unfolding r' update_workspace_def
    by (rule registry_ok_update_sandbox [OF ok])
      (auto simp: sandbox_ok_def set_bt_adjust ids intro: bt_intros)
  moreover have "names_unique r'"
    using registry_goodD(2) [OF g] w unfolding r' names_unique_def by (auto split: if_splits)
  moreover have "addresses_unique r'"
    unfolding r'
    by (rule addresses_unique_edit [OF registry_goodD(3) [OF g] w])
      (use addresses_uniqueD [OF registry_goodD(3) [OF g] _ w] in \<open>auto simp: host_octet_def\<close>)
  moreover have "budgets_kept r'"
    unfolding r' update_workspace_def
  proof (rule budgets_kept_update [OF registry_goodD(4) [OF g]])
    fix t
    assume t: "get_sandbox r sid = Some t" and wb: "within_budget t"
    then have [simp]: "t = s" using s(1) by simp
    have sum: "entries_disk (bt_adjust wid (\<lambda>_. ?w) (rs_workspaces s)) =
        unat bytes + entries_disk (bt_remove wid (rs_workspaces s))"
      by (simp add: entries_disk_adjust [OF wf(1) s(2)] disk_of_def)
    show "within_budget (t\<lparr> rs_workspaces := bt_adjust wid (\<lambda>_. ?w) (rs_workspaces t) \<rparr>)"
    proof (cases "(case wl_disk_bytes (wm_limits w) of None \<Rightarrow> 0 | Some b \<Rightarrow> b) < bytes")
      case True
      with c sum show ?thesis
        by (intro granted_within_budget [OF _ unat_sandbox_disk_excluding [OF wf(2)]]) simp_all
    next
      case False
      then have "unat bytes \<le> disk_of w"
        by (auto simp: disk_of_def word_le_nat_alt not_less split: option.splits)
      then show ?thesis
        using sum entries_disk_without [OF wf(1) s(2)] wb by (intro within_budget_smaller [OF wb]) simp_all
    qed
  qed
  ultimately show ?thesis by (simp add: registry_good_def)
qed

section \<open>A sample host and registry\<close>

definition sample_host :: "'n ws_host" where
  "sample_host = \<lparr> wh_now = ''t'', wh_persist = (\<lambda>_. Inr ()), wh_write_refs = (\<lambda>_ _ _. Inr ()),
     wh_cleanup = (\<lambda>_ _. Inr None), wh_verify = (\<lambda>_ _. True) \<rparr>"

definition running_registry :: registry where
  "running_registry = registry_default\<lparr> reg_sandboxes :=
     [(''s'', \<lparr> rs_metadata = (blank_sandbox ''s'')\<lparr> sm_status := SbRunning \<rparr>,
        rs_workspaces = [(''w'', blank_workspace ''s'' ''w'')] \<rparr>)] \<rparr>"

lemma running_registry_ok: "registry_ok running_registry"
  by (simp add: running_registry_def registry_ok_def sandbox_ok_def blank_sandbox_def
      blank_workspace_def bt_wf_def)

definition sample_ip :: string where
  "sample_ip = ''10.200.0.10''"

lemma sample_ip_allocated: "allocate_ip [] = Inr sample_ip" "parse_host_octet sample_ip = Some 10"
  by code_simp+

end
