(* ===== verification/Workspace_Lifecycle.thy ===== *)
theory Workspace_Lifecycle
  imports Workspace_Invariants Registry_Store
begin

text \<open>
  Starting, stopping and destroying a workspace (\<open>workspace/control/start\<close>, \<open>stop\<close>, \<open>destroy\<close>): the
  transactions of \<open>Workspace_Txns\<close> in the order the code runs them, with the host calls between them as
  inputs. Each function returns its result, the registry it leaves, the session it launched, the
  sessions it asked to end and the state of its journal record. Requests for one workspace are
  serialized by the lifecycle leases, so no other transaction on that workspace comes between.
\<close>

section \<open>A transaction on the durable registry\<close>

text \<open>
  \<open>with_registry_mut\<close> as the callers see it: the update commits, or nothing is written, or it is written
  and the call reports a failure all the same (the last \<open>fsync\<close> failed).
\<close>

datatype txn_outcome = Committed | NotWritten | WrittenUnconfirmed

definition transact :: "txn_outcome \<Rightarrow> 'a txn \<Rightarrow> registry \<Rightarrow> 'a result \<times> registry" where
  "transact io t r =
     (if io = NotWritten then (bail ''failed to update the registry'', r)
      else (case t r of
              Inl e \<Rightarrow> (Inl e, r)
            | Inr (a, r') \<Rightarrow>
                (if io = Committed then Inr a else bail ''failed to update the registry'', next_generation r')))"

definition registry_read :: "bool \<Rightarrow> (registry \<Rightarrow> 'a result) \<Rightarrow> registry \<Rightarrow> 'a result" where
  "registry_read ok f r = (if ok then f r else bail ''failed to read the registry'')"

lemma next_generation_get [simp]:
  "get_sandbox (next_generation r) = get_sandbox r" "get_workspace (next_generation r) = get_workspace r"
  "reg_sandboxes (next_generation r) = reg_sandboxes r"
  by (simp_all add: next_generation_def get_sandbox_def get_workspace_def fun_eq_iff)

lemma next_generation_good [simp]: "registry_good (next_generation r) \<longleftrightarrow> registry_good r"
  by (simp add: registry_good_def registry_ok_def names_unique_def addresses_unique_def budgets_kept_def)

lemma transact_good:
  assumes "transact io t r = (res, r')" "registry_good r" "\<And>a r''. t r = Inr (a, r'') \<Longrightarrow> registry_good r''"
  shows "registry_good r'"
  using assms by (auto simp: transact_def split: if_splits sum.splits prod.splits)

lemma transact_Inr:
  "transact io t r = (Inr a, r') \<longleftrightarrow> io = Committed \<and> (\<exists>r''. t r = Inr (a, r'') \<and> r' = next_generation r'')"
  by (auto simp: transact_def split: sum.splits)

text \<open>What the registry file holds, and that the durable update is such a transaction on it.\<close>

definition holds_registry :: "registry codec \<Rightarrow> string \<Rightarrow> registry_store \<Rightarrow> registry \<Rightarrow> bool" where
  "holds_registry cd dir st r \<longleftrightarrow>
     (\<exists>raw fp. rg_files st (registry_path dir) = Some (raw, fp) \<and> decode_current cd raw = Inr r)"

lemma with_registry_mut_transacts:
  assumes cd: "codec_faithful cd" and temp: "io_temp io \<noteq> registry_path dir"
    and held: "holds_registry cd dir st r"
    and run: "with_registry_mut io cd dir t st = (res, st')"
  shows "\<exists>outcome res' r'. transact outcome t r = (res', r') \<and> holds_registry cd dir st' r' \<and>
    is_ok res' = is_ok res \<and> (is_ok res \<longrightarrow> res' = res)"
proof -
  obtain raw fp where f: "rg_files st (registry_path dir) = Some (raw, fp)" "decode_current cd raw = Inr r"
    using held by (auto simp: holds_registry_def)
  then have "rg_files st (registry_path dir) \<noteq> None" by simp
  from with_registry_mut_spec [OF cd temp this run] show ?thesis
  proof
    assume "rg_files st' (registry_path dir) = rg_files st (registry_path dir) \<and> \<not> is_ok res"
    then show ?thesis using f
      by (intro exI [of _ NotWritten] exI [of _ "bail ''failed to update the registry''"] exI [of _ r])
        (simp add: transact_def holds_registry_def bail_def)
  next
    assume "\<exists>out. committed cd (registry_path dir) t out (rg_files st) (rg_files st') \<and> (is_ok res \<longrightarrow> res = Inr out)"
    then obtain out r' where c: "t r = Inr (out, r')" "holds_registry cd dir st' (next_generation r')"
        "is_ok res \<longrightarrow> res = Inr out"
      using f by (auto simp: committed_def holds_registry_def)
    show ?thesis
    proof (cases "is_ok res")
      case True
      then show ?thesis using c
        by (intro exI [of _ Committed] exI [of _ res] exI [of _ "next_generation r'"]) (simp add: transact_def)
    next
      case False
      then show ?thesis using c
        by (intro exI [of _ WrittenUnconfirmed] exI [of _ "bail ''failed to update the registry''"]
            exI [of _ "next_generation r'"]) (simp add: transact_def bail_def)
    qed
  qed
qed

section \<open>The target of a start\<close>

definition effective_rootfs_path :: "sandbox_metadata \<Rightarrow> string" where
  "effective_rootfs_path m =
     (if sb_is_active (sm_status m) \<and> sm_mounted_rootfs_path m \<noteq> [] then sm_mounted_rootfs_path m
      else sm_rootfs_path m)"

definition reject_obvious_capacity_conflict :: "nat option \<Rightarrow> string \<Rightarrow> string \<Rightarrow> registry \<Rightarrow> unit result" where
  "reject_obvious_capacity_conflict daemon_max sid wid r =
     (case get_sandbox r sid of
        None \<Rightarrow> bail ''sandbox not found''
      | Some s \<Rightarrow>
          if (case sl_max_running_workspaces (sm_limits (rs_metadata s)) of
                None \<Rightarrow> False
              | Some limit \<Rightarrow> length (filter (occupies_slot wid) (map snd (rs_workspaces s))) \<ge> limit)
          then bail_code Conflict ''sandbox is at its running-workspace limit''
          else if (case daemon_max of
                     None \<Rightarrow> False
                   | Some limit \<Rightarrow> length (filter (occupies_slot wid) (all_workspaces r)) \<ge> limit)
          then bail_code Conflict ''the daemon is at its running-workspace limit''
          else Inr ())"

definition resolve_start_target :: "nat option \<Rightarrow> string \<Rightarrow> string \<Rightarrow> registry \<Rightarrow>
    (string \<times> string \<times> sandbox_metadata \<times> workspace_metadata) result" where
  "resolve_start_target daemon_max ssel wsel r =
     and_then (resolve_sandbox_id r ssel) (\<lambda>sid.
       case get_sandbox r sid of
         None \<Rightarrow> bail ''sandbox not found''
       | Some s \<Rightarrow>
           if sm_status (rs_metadata s) \<noteq> SbRunning then bail ''sandbox is stopped; start sandbox first''
           else and_then (resolve_workspace_id s wsel) (\<lambda>wid.
             if sb_is_transitional (sm_status (rs_metadata s)) then bail ''wait for the sandbox to settle''
             else (case bt_get (rs_workspaces s) wid of
                     None \<Rightarrow> bail ''workspace not found''
                   | Some w \<Rightarrow>
                       if ws_is_transitional (wm_status w)
                       then bail ''wait for the current operation to finish''
                       else and_then (if wm_status w \<noteq> WsRunning
                                      then reject_obvious_capacity_conflict daemon_max sid wid r
                                      else Inr ()) (\<lambda>_.
                         Inr (sid, wid, rs_metadata s,
                              w\<lparr> wm_sandbox_rootfs_path := effective_rootfs_path (rs_metadata s) \<rparr>)))))"

lemma reject_obvious_capacity_conflict_eq:
  "reject_obvious_capacity_conflict = ensure_start_capacity"
  by (intro ext) (simp add: reject_obvious_capacity_conflict_def ensure_start_capacity_def at_limit_def
      split: option.splits)

section \<open>The launch\<close>

record session_info =
  ss_pid :: u32
  ss_starttime_ticks :: u64
  ss_mount_ns :: string
  ss_pid_ns :: string

text \<open>The outcome of each host step of \<open>launch_workspace_runtime\<close>.\<close>

record launch_host =
  lh_storage_ready :: "unit result"
  lh_source :: "unit result"
  lh_session :: "session_info result"
  lh_constraints :: "unit result"
  lh_auth :: "unit result"
  lh_host_networking :: "unit result"
  lh_attach :: "unit result"

definition setup_reserved_workspace_network :: "launch_host \<Rightarrow> string \<Rightarrow> string result" where
  "setup_reserved_workspace_network lh reserved_ip =
     and_then (lh_host_networking lh) (\<lambda>_.
       if parse_host_octet reserved_ip = None
       then bail ''reserved workspace address is not inside the Enclave subnet''
       else and_then (lh_attach lh) (\<lambda>_. Inr reserved_ip))"

text \<open>The result, the session that was launched and whether it was asked to end.\<close>

definition launch_workspace_runtime :: "launch_host \<Rightarrow> string \<Rightarrow> runtime_start result \<times> u32 option \<times> u32 list" where
  "launch_workspace_runtime lh reserved_ip =
     (case and_then (lh_storage_ready lh) (\<lambda>_. lh_source lh) of
        Inl e \<Rightarrow> (Inl e, None, [])
      | Inr _ \<Rightarrow>
          (case lh_session lh of
             Inl e \<Rightarrow> (Inl e, None, [])
           | Inr session \<Rightarrow>
               let failed = (\<lambda>e. (Inl e, Some (ss_pid session), [ss_pid session])) in
               (case with_context ''failed to apply workspace cgroup limits'' (lh_constraints lh) of
                  Inl e \<Rightarrow> failed e
                | Inr _ \<Rightarrow>
                    (case with_context ''failed to sync workspace auth'' (lh_auth lh) of
                       Inl e \<Rightarrow> failed e
                     | Inr _ \<Rightarrow>
                         (case with_context ''failed to attach workspace networking''
                                 (setup_reserved_workspace_network lh reserved_ip) of
                            Inl e \<Rightarrow> failed e
                          | Inr ip \<Rightarrow>
                              (Inr \<lparr> rt_pid = ss_pid session,
                                     rt_starttime_ticks = ss_starttime_ticks session,
                                     rt_mount_ns = ss_mount_ns session, rt_pid_ns = ss_pid_ns session,
                                     rt_assigned_ip = ip \<rparr>, Some (ss_pid session), []))))))"

lemma launch_started:
  assumes "launch_workspace_runtime lh ip = (Inr started, launched, stopped)"
  shows "rt_assigned_ip started = ip \<and> launched = Some (rt_pid started) \<and> stopped = []"
  using assms
  by (auto simp: launch_workspace_runtime_def setup_reserved_workspace_network_def Let_def result_simps
      split: sum.splits if_splits)

lemma launch_failed_stops_session:
  assumes "launch_workspace_runtime lh ip = (Inl e, launched, stopped)"
  shows "set_option launched \<subseteq> set stopped"
  using assms
  by (auto simp: launch_workspace_runtime_def Let_def split: sum.splits)

section \<open>Starting\<close>

datatype journal_state = JournalAbsent | JournalOpen | JournalSucceeded | JournalFailed

text \<open>\<open>let _ = journal.fail(..)\<close>: the record stays open when it cannot be written.\<close>

definition fail_journal :: "unit result \<Rightarrow> journal_state" where
  "fail_journal written = (if is_ok written then JournalFailed else JournalOpen)"

record effects =
  ef_launched :: "u32 option"
  ef_stopped :: "u32 list"
  ef_journal :: journal_state

type_synonym 'a outcome = "'a result \<times> registry \<times> effects"

text \<open>
  What a start meets: the host at the first transactions and at a rollback, the limits, the process
  table, the outcome of every transaction and of every journal write, and the launch.
\<close>

record 'n start_env =
  se_host :: "'n ws_host"
  se_rollback_host :: "'n ws_host"
  se_daemon_max :: "nat option"
  se_held_by_others :: "u8 list"
  se_read :: bool
  se_live :: "u32 \<Rightarrow> u64 \<Rightarrow> bool"
  se_ns :: "u32 \<Rightarrow> (string \<times> string) result"
  se_refresh_io :: txn_outcome
  se_release_io :: txn_outcome
  se_reserve_io :: txn_outcome
  se_commit_io :: txn_outcome
  se_rollback_io :: txn_outcome
  se_journal :: "unit result"
  se_phase :: "string \<Rightarrow> unit result"
  se_succeed :: "unit result"
  se_fail :: "unit result"
  se_rootfs :: "unit result"
  se_launch :: launch_host

definition rollback_start :: "'n start_env \<Rightarrow> string \<Rightarrow> string \<Rightarrow> registry \<Rightarrow> registry" where
  "rollback_start env sid wid r =
     snd (transact (se_rollback_io env) (mark_workspace_start_failed (se_rollback_host env) sid wid) r)"

definition refresh_live_runtime :: "'n start_env \<Rightarrow> string \<Rightarrow> workspace_metadata \<Rightarrow> registry \<Rightarrow>
    workspace_metadata option result \<times> registry" where
  "refresh_live_runtime env sid snapshot r =
     (case (wm_runtime_pid snapshot, wm_runtime_starttime_ticks snapshot) of
        (Some pid, Some starttime) \<Rightarrow>
          if \<not> se_live env pid starttime then (Inr None, r)
          else (case se_ns env pid of
                  Inl e \<Rightarrow> (Inl e, r)
                | Inr (mount_ns, pid_ns) \<Rightarrow>
                    let (res, r') = transact (se_refresh_io env)
                          (refresh_commit (se_host env) sid (wm_id snapshot) pid starttime mount_ns pid_ns) r
                    in (and_then res (\<lambda>w. Inr (Some w)), r'))
      | _ \<Rightarrow> (Inr None, r))"

definition release_dead_runtime :: "'n start_env \<Rightarrow> string \<Rightarrow> string \<Rightarrow> workspace_metadata \<Rightarrow> registry \<Rightarrow>
    workspace_metadata result \<times> registry" where
  "release_dead_runtime env sid wid snapshot r =
     (let (res, r') = transact (se_release_io env)
            (release_dead_runtime_resources (se_host env) sid wid snapshot) r in
      (and_then res (\<lambda>_. Inr (snapshot\<lparr> wm_status := WsStopped, wm_runtime_pid := None,
          wm_runtime_starttime_ticks := None, wm_assigned_ip := None \<rparr>)), r'))"

text \<open>From a launched session to the committed record.\<close>

definition start_launched :: "'n start_env \<Rightarrow> string \<Rightarrow> string \<Rightarrow> workspace_metadata \<Rightarrow> runtime_start \<Rightarrow>
    registry \<Rightarrow> workspace_metadata outcome" where
  "start_launched env sid wid snapshot started r =
     (let pid = rt_pid started;
          ended = (\<lambda>e r. (Inl e, rollback_start env sid wid r,
            \<lparr> ef_launched = Some pid, ef_stopped = [pid], ef_journal = fail_journal (se_fail env) \<rparr>)) in
      case se_phase env ''commit_runtime_metadata'' of
        Inl e \<Rightarrow> (Inl e, r, \<lparr> ef_launched = Some pid, ef_stopped = [], ef_journal = JournalOpen \<rparr>)
      | Inr _ \<Rightarrow>
          (case with_context ''failed to record the launched workspace runtime''
                  (persist_started_workspace_runtime (se_host env) snapshot started) of
             Inl e \<Rightarrow> ended e r
           | Inr prepared \<Rightarrow>
               (case transact (se_commit_io env) (start_commit sid wid prepared) r of
                  (Inl e, r') \<Rightarrow> ended e r'
                | (Inr w, r') \<Rightarrow>
                    (case se_succeed env of
                       Inl e \<Rightarrow> (Inl e, r', \<lparr> ef_launched = Some pid, ef_stopped = [], ef_journal = JournalOpen \<rparr>)
                     | Inr _ \<Rightarrow> (Inr w, r', \<lparr> ef_launched = Some pid, ef_stopped = [],
                                              ef_journal = JournalSucceeded \<rparr>)))))"

text \<open>From a reserved address to the launch.\<close>

definition start_reserved :: "'n start_env \<Rightarrow> string \<Rightarrow> string \<Rightarrow> workspace_metadata \<Rightarrow> string \<Rightarrow> registry \<Rightarrow>
    workspace_metadata outcome" where
  "start_reserved env sid wid snapshot ip r =
     (case se_phase env ''verify_sandbox_rootfs'' of
        Inl e \<Rightarrow> (Inl e, r, \<lparr> ef_launched = None, ef_stopped = [], ef_journal = JournalOpen \<rparr>)
      | Inr _ \<Rightarrow>
          (case se_rootfs env of
             Inl e \<Rightarrow> (Inl e, rollback_start env sid wid r,
                        \<lparr> ef_launched = None, ef_stopped = [], ef_journal = fail_journal (se_fail env) \<rparr>)
           | Inr _ \<Rightarrow>
               (case se_phase env ''launch_runtime'' of
                  Inl e \<Rightarrow> (Inl e, r, \<lparr> ef_launched = None, ef_stopped = [], ef_journal = JournalOpen \<rparr>)
                | Inr _ \<Rightarrow>
                    (case launch_workspace_runtime (se_launch env) ip of
                       (Inl e, launched, stopped) \<Rightarrow>
                         (Inl e, rollback_start env sid wid r,
                          \<lparr> ef_launched = launched, ef_stopped = stopped, ef_journal = fail_journal (se_fail env) \<rparr>)
                     | (Inr started, _, _) \<Rightarrow> start_launched env sid wid snapshot started r))))"

text \<open>The two intent records: the journal and the reservation.\<close>

definition start_intent :: "'n start_env \<Rightarrow> string \<Rightarrow> string \<Rightarrow> workspace_metadata \<Rightarrow> registry \<Rightarrow>
    workspace_metadata outcome" where
  "start_intent env sid wid snapshot r =
     (let (reserved, r') = transact (se_reserve_io env)
            (mark_workspace_starting (se_host env) (se_daemon_max env) (se_held_by_others env) sid wid) r;
          ended = (\<lambda>e r j. (Inl e, r, \<lparr> ef_launched = None, ef_stopped = [], ef_journal = j \<rparr>)) in
      case (se_journal env, reserved) of
        (Inr _, Inr ip) \<Rightarrow> start_reserved env sid wid snapshot ip r'
      | (Inr _, Inl e) \<Rightarrow> ended e r' (fail_journal (se_fail env))
      | (Inl e, Inr _) \<Rightarrow> ended e (rollback_start env sid wid r') JournalAbsent
      | (Inl e, Inl _) \<Rightarrow> ended e r' JournalAbsent)"

definition start_workspace_with_security :: "'n start_env \<Rightarrow> string \<Rightarrow> string \<Rightarrow> registry \<Rightarrow>
    workspace_metadata outcome" where
  "start_workspace_with_security env ssel wsel r =
     (let quiet = \<lparr> ef_launched = None, ef_stopped = [], ef_journal = JournalAbsent \<rparr> in
      case registry_read (se_read env) (resolve_start_target (se_daemon_max env) ssel wsel) r of
        Inl e \<Rightarrow> (Inl e, r, quiet)
      | Inr (sid, wid, sandbox, snapshot) \<Rightarrow>
          if wm_status snapshot = WsRunning
          then (case refresh_live_runtime env sid snapshot r of
                  (Inl e, r') \<Rightarrow> (Inl e, r', quiet)
                | (Inr (Some w), r') \<Rightarrow> (Inr w, r', quiet)
                | (Inr None, r') \<Rightarrow>
                    (case release_dead_runtime env sid wid snapshot r' of
                       (Inl e, r'') \<Rightarrow> (Inl e, r'', quiet)
                     | (Inr snapshot', r'') \<Rightarrow> start_intent env sid wid snapshot' r''))
          else start_intent env sid wid snapshot r)"

section \<open>Stopping\<close>

record 'n stop_env =
  pe_host :: "'n ws_host"
  pe_rollback_host :: "'n ws_host"
  pe_read :: bool
  pe_stopping_io :: txn_outcome
  pe_commit_io :: txn_outcome
  pe_rollback_io :: txn_outcome
  pe_journal :: "unit result"
  pe_phase :: "string \<Rightarrow> unit result"
  pe_succeed :: "unit result"
  pe_fail :: "unit result"
  pe_live_session :: "workspace_metadata \<Rightarrow> u32 option"
  pe_starttime :: "u32 \<Rightarrow> u64 option"
  pe_stop_session :: "u32 \<Rightarrow> u64 option \<Rightarrow> unit result"

definition rollback_stop :: "'n stop_env \<Rightarrow> string \<Rightarrow> string \<Rightarrow> workspace_status \<Rightarrow> registry \<Rightarrow> registry" where
  "rollback_stop env sid wid previous r =
     snd (transact (pe_rollback_io env) (rollback_workspace_stopping (pe_rollback_host env) sid wid previous) r)"

text \<open>The recorded runtime, or the session of an interrupted launch.\<close>

definition stop_target :: "'n stop_env \<Rightarrow> workspace_metadata \<Rightarrow> (u32 \<times> u64 option) option" where
  "stop_target env w =
     (case wm_runtime_pid w of
        Some pid \<Rightarrow> Some (pid, wm_runtime_starttime_ticks w)
      | None \<Rightarrow>
          if wm_status w = WsStarting
          then map_option (\<lambda>pid. (pid, pe_starttime env pid)) (pe_live_session env w)
          else None)"

definition stop_runtime :: "'n stop_env \<Rightarrow> workspace_metadata \<Rightarrow> unit result \<times> u32 list" where
  "stop_runtime env w =
     (case stop_target env w of
        None \<Rightarrow> (Inr (), [])
      | Some (pid, ticks) \<Rightarrow> (pe_stop_session env pid ticks, [pid]))"

text \<open>From the recorded intent to the committed stop.\<close>

definition stop_begun :: "'n stop_env \<Rightarrow> string \<Rightarrow> string \<Rightarrow> sandbox_metadata \<Rightarrow> workspace_metadata \<Rightarrow>
    registry \<Rightarrow> workspace_metadata outcome" where
  "stop_begun env sid wid sandbox w r =
     (let out = (\<lambda>res r stopped j. (res, r, \<lparr> ef_launched = None, ef_stopped = stopped, ef_journal = j \<rparr>)) in
      case pe_phase env ''stop_runtime'' of
        Inl e \<Rightarrow> out (Inl e) (rollback_stop env sid wid (wm_status w) r) [] (fail_journal (pe_fail env))
      | Inr _ \<Rightarrow>
          (case stop_runtime env w of
             (Inl e, stopped) \<Rightarrow> out (Inl e) r stopped (fail_journal (pe_fail env))
           | (Inr _, stopped) \<Rightarrow>
               (case pe_phase env ''cleanup_resources'' of
                  Inl e \<Rightarrow> out (Inl e) r stopped JournalOpen
                | Inr _ \<Rightarrow>
                    (case wh_cleanup (pe_host env) sandbox w of
                       Inl e \<Rightarrow> out (Inl e) r stopped (fail_journal (pe_fail env))
                     | Inr network \<Rightarrow>
                         (case transact (pe_commit_io env) (stop_commit (pe_host env) sid wid w network) r of
                            (Inl e, r') \<Rightarrow> out (Inl e) r' stopped (fail_journal (pe_fail env))
                          | (Inr w', r') \<Rightarrow>
                              (case pe_succeed env of
                                 Inl e \<Rightarrow> out (Inl e) r' stopped JournalOpen
                               | Inr _ \<Rightarrow> out (Inr w') r' stopped JournalSucceeded))))))"

definition stop_read :: "string \<Rightarrow> string \<Rightarrow> registry \<Rightarrow>
    (string \<times> string \<times> sandbox_metadata \<times> workspace_metadata) result" where
  "stop_read ssel wsel r =
     and_then (resolve_sandbox_id r ssel) (\<lambda>sid.
       case get_sandbox r sid of
         None \<Rightarrow> bail ''sandbox not found''
       | Some s \<Rightarrow> and_then (resolve_workspace_id s wsel) (\<lambda>wid.
           case bt_get (rs_workspaces s) wid of
             None \<Rightarrow> bail ''workspace not found''
           | Some w \<Rightarrow> Inr (sid, wid, rs_metadata s, w)))"

definition stop_workspace_with_certificate :: "'n stop_env \<Rightarrow> string \<Rightarrow> string \<Rightarrow> registry \<Rightarrow>
    workspace_metadata outcome" where
  "stop_workspace_with_certificate env ssel wsel r =
     (let out = (\<lambda>e r j. (Inl e, r, \<lparr> ef_launched = None, ef_stopped = [], ef_journal = j \<rparr>)) in
      case registry_read (pe_read env) (stop_read ssel wsel) r of
        Inl e \<Rightarrow> out e r JournalAbsent
      | Inr (sid, wid, sandbox, w) \<Rightarrow>
          let (stopping, r') = transact (pe_stopping_io env) (mark_workspace_stopping (pe_host env) sid wid) r in
          (case (pe_journal env, stopping) of
             (Inr _, Inr _) \<Rightarrow> stop_begun env sid wid sandbox w r'
           | (Inr _, Inl e) \<Rightarrow> out e r' (fail_journal (pe_fail env))
           | (Inl e, Inr _) \<Rightarrow> out e (rollback_stop env sid wid (wm_status w) r') JournalAbsent
           | (Inl e, Inl _) \<Rightarrow> out e r' JournalAbsent))"

section \<open>What the transactions of a start do\<close>

lemma transact_reserve:
  assumes "transact io (mark_workspace_starting h daemon_max others sid wid) r = (Inr ip, r')"
  obtains w where "get_workspace r sid wid = Some w"
    "r' = next_generation (update_workspace sid wid (\<lambda>_. w\<lparr> wm_status := WsStarting, wm_assigned_ip := Some ip \<rparr>) r)"
  using assms by (auto simp: transact_Inr elim!: mark_workspace_starting_Inr)

lemma start_commit_Inr:
  assumes "registry_ok r" "start_commit sid wid prepared r = Inr (a, r')"
  obtains w where "get_workspace r sid wid = Some w" "wm_status w = WsStarting"
    "a = w\<lparr> wm_sandbox_rootfs_path := wm_sandbox_rootfs_path prepared, wm_status := WsRunning,
            wm_runtime_pid := wm_runtime_pid prepared,
            wm_runtime_starttime_ticks := wm_runtime_starttime_ticks prepared,
            wm_assigned_ip := wm_assigned_ip prepared, wm_namespace_refs := wm_namespace_refs prepared \<rparr>"
    "r' = update_workspace sid wid (\<lambda>_. a) r"
  using assms by (auto simp: start_commit_def on_sandbox_Inr in_sandbox_Inr Let_def get_workspace_sandbox
      sandbox_edit split: if_splits)

text \<open>Every record is as it was, or it is stopped and holds no address and no runtime.\<close>

definition no_leftovers :: "registry \<Rightarrow> registry \<Rightarrow> bool" where
  "no_leftovers r r' \<longleftrightarrow> (\<forall>sid wid w'. get_workspace r' sid wid = Some w' \<longrightarrow>
     (\<exists>w. get_workspace r sid wid = Some w \<and>
        (w' = w \<or> wm_status w' = WsStopped \<and> wm_assigned_ip w' = None \<and> wm_runtime_pid w' = None)))"

lemma no_leftovers_refl [simp]: "no_leftovers r r"
  by (simp add: no_leftovers_def)

lemma no_leftovers_trans: "no_leftovers r r' \<Longrightarrow> no_leftovers r' r'' \<Longrightarrow> no_leftovers r r''"
  unfolding no_leftovers_def by blast

lemma no_leftovers_next [simp]: "no_leftovers r (next_generation r') = no_leftovers r r'"
  by (simp add: no_leftovers_def)

lemma stopped_record_fields [simp]:
  "wm_status (stopped_record now w) = WsStopped" "wm_assigned_ip (stopped_record now w) = None"
  "wm_runtime_pid (stopped_record now w) = None"
  by (simp_all add: stopped_record_def mark_stopped_def)

lemma no_leftovers_stopped:
  assumes "\<And>sid' wid'. (sid', wid') \<noteq> (sid, wid) \<Longrightarrow> get_workspace r1 sid' wid' = get_workspace r sid' wid'"
    and "get_workspace r sid wid \<noteq> None"
  shows "no_leftovers r (update_workspace sid wid (\<lambda>_. stopped_record now w) r1)"
  using assms by (fastforce simp: no_leftovers_def split: if_splits)

definition host_succeeds :: "'n ws_host \<Rightarrow> bool" where
  "host_succeeds h \<longleftrightarrow> (\<forall>w. wh_persist h w = Inr ()) \<and> (\<forall>m w. \<exists>n. wh_cleanup h m w = Inr n) \<and>
     (\<forall>w n. wh_verify h w n)"

definition rollback_works :: "'n start_env \<Rightarrow> bool" where
  "rollback_works env \<longleftrightarrow> se_rollback_io env = Committed \<and> host_succeeds (se_rollback_host env)"

lemma start_failed_succeeds:
  assumes "registry_ok r" "host_succeeds h" "get_workspace r sid wid = Some w"
  shows "mark_workspace_start_failed h sid wid r =
    Inr ((), update_workspace sid wid (\<lambda>_. stopped_record (wh_now h) w) r)"
proof -
  obtain s where s: "get_sandbox r sid = Some s" "bt_get (rs_workspaces s) wid = Some w"
    using assms(3) by (auto simp: get_workspace_def split: option.splits)
  obtain n where "wh_cleanup h (rs_metadata s) w = Inr n" using assms(2) unfolding host_succeeds_def by blast
  then show ?thesis
    using assms(2) s sandbox_edit [OF assms(1) s(1)]
    by (simp add: mark_workspace_start_failed_def on_sandbox_def set_workspace_stopped_def
        commit_workspace_stopped_def mark_workspace_stopped_def in_sandbox_def host_succeeds_def Let_def with_context_def)
qed

lemma rollback_start_stops:
  assumes "registry_ok r" "rollback_works env" "get_workspace r sid wid = Some w"
  shows "rollback_start env sid wid r = next_generation
    (update_workspace sid wid (\<lambda>_. stopped_record (wh_now (se_rollback_host env)) w) r)"
  using assms start_failed_succeeds [OF assms(1) _ assms(3), of "se_rollback_host env"]
  by (simp add: rollback_start_def rollback_works_def transact_def)

lemma registry_ok_next [simp]: "registry_ok (next_generation r) \<longleftrightarrow> registry_ok r"
  by (simp add: registry_ok_def)

lemma registry_ok_same_ids:
  assumes "registry_ok r" "get_workspace r sid wid = Some w" "wm_id w' = wm_id w" "wm_sandbox_id w' = wm_sandbox_id w"
  shows "registry_ok (update_workspace sid wid (\<lambda>_. w') r)"
  unfolding update_workspace_def
  by (rule registry_ok_update_sandbox [OF assms(1)])
    (use registry_ok_get_workspace [OF assms(1,2)] assms(3,4) in
      \<open>auto simp: sandbox_ok_def set_bt_adjust intro: bt_intros\<close>)

section \<open>A start that succeeds\<close>

lemma start_launched_ok:
  assumes "registry_ok r" "start_launched env sid wid snapshot started r = (Inr w, r', ef)"
  shows "get_workspace r' sid wid = Some w \<and> wm_status w = WsRunning \<and>
    wm_runtime_pid w = Some (rt_pid started) \<and> wm_assigned_ip w = Some (rt_assigned_ip started) \<and>
    ef = \<lparr> ef_launched = Some (rt_pid started), ef_stopped = [], ef_journal = JournalSucceeded \<rparr> \<and>
    (\<exists>v. get_workspace r sid wid = Some v \<and> wm_id w = wm_id v \<and> wm_sandbox_id w = wm_sandbox_id v)"
proof -
  obtain prepared where p: "persist_started_workspace_runtime (se_host env) snapshot started = Inr prepared"
      "transact (se_commit_io env) (start_commit sid wid prepared) r = (Inr w, r')"
      "ef = \<lparr> ef_launched = Some (rt_pid started), ef_stopped = [], ef_journal = JournalSucceeded \<rparr>"
    using assms(2) by (auto simp: start_launched_def Let_def with_context_def split: sum.splits prod.splits)
  have "prepared = started_record started snapshot"
    using p(1) by (auto simp: persist_started_workspace_runtime_def Let_def result_simps)
  then have "wm_runtime_pid prepared = Some (rt_pid started)"
      "wm_assigned_ip prepared = Some (rt_assigned_ip started)"
    by (simp_all add: started_record_def normalize_namespace_ref_paths_def)
  moreover obtain r'' where "start_commit sid wid prepared r = Inr (w, r'')" "r' = next_generation r''"
    using p(2) by (auto simp: transact_Inr)
  ultimately show ?thesis
    using p(3) by (auto elim!: start_commit_Inr [OF assms(1)])
qed

lemma start_intent_ok:
  assumes "registry_ok r" "start_intent env sid wid snapshot r = (Inr w, r', ef)"
  shows "get_workspace r' sid wid = Some w \<and> wm_status w = WsRunning \<and> wm_id w = wid \<and> wm_sandbox_id w = sid \<and>
    (\<exists>pid. wm_runtime_pid w = Some pid \<and> ef_launched ef = Some pid \<and> ef_stopped ef = []) \<and>
    ef_journal ef = JournalSucceeded"
proof -
  obtain ip r1 where i: "transact (se_reserve_io env)
      (mark_workspace_starting (se_host env) (se_daemon_max env) (se_held_by_others env) sid wid) r = (Inr ip, r1)"
      "start_reserved env sid wid snapshot ip r1 = (Inr w, r', ef)"
    using assms(2) by (auto simp: start_intent_def Let_def split: sum.splits prod.splits)
  obtain v where v: "get_workspace r sid wid = Some v" "r1 = next_generation
      (update_workspace sid wid (\<lambda>_. v\<lparr> wm_status := WsStarting, wm_assigned_ip := Some ip \<rparr>) r)"
    using transact_reserve [OF i(1)] by metis
  have ok: "registry_ok r1" using v by (simp add: registry_ok_same_ids [OF assms(1)])
  obtain started where s: "start_launched env sid wid snapshot started r1 = (Inr w, r', ef)"
    using i(2) by (auto simp: start_reserved_def split: sum.splits prod.splits)
  have "wm_id v = wid" "wm_sandbox_id v = sid" using registry_ok_get_workspace [OF assms(1) v(1)] by auto
  with start_launched_ok [OF ok s] v show ?thesis by auto
qed

text \<open>Resolving a target does not change the registry and finds the record it returns.\<close>

lemma resolve_start_target_found:
  assumes "resolve_start_target daemon_max ssel wsel r = Inr (sid, wid, sandbox, snapshot)"
  obtains w where "get_workspace r sid wid = Some w" "\<not> ws_is_transitional (wm_status w)"
    "snapshot = w\<lparr> wm_sandbox_rootfs_path := effective_rootfs_path sandbox \<rparr>"
proof -
  obtain s where s: "get_sandbox r sid = Some s" "rs_metadata s = sandbox"
    and rest: "resolve_workspace_id s wsel = Inr wid"
      "(case bt_get (rs_workspaces s) wid of
          None \<Rightarrow> False
        | Some w \<Rightarrow> \<not> ws_is_transitional (wm_status w) \<and>
            snapshot = w\<lparr> wm_sandbox_rootfs_path := effective_rootfs_path sandbox \<rparr>)"
  proof -
    obtain sid' where 1: "resolve_sandbox_id r ssel = Inr sid'"
      using assms by (cases "resolve_sandbox_id r ssel") (auto simp: resolve_start_target_def)
    obtain s where 2: "get_sandbox r sid' = Some s"
      using assms 1 by (cases "get_sandbox r sid'") (auto simp: resolve_start_target_def)
    obtain wid' where 3: "resolve_workspace_id s wsel = Inr wid'"
      using assms 1 2 by (cases "resolve_workspace_id s wsel")
        (auto simp: resolve_start_target_def split: if_splits)
    obtain w where 4: "bt_get (rs_workspaces s) wid' = Some w"
      using assms 1 2 3 by (cases "bt_get (rs_workspaces s) wid'")
        (auto simp: resolve_start_target_def split: if_splits)
    show thesis
      using assms 1 2 3 4 that [of s]
      by (auto simp: resolve_start_target_def result_simps split: if_splits)
  qed
  then show ?thesis
    using that s by (auto simp: get_workspace_sandbox split: option.splits)
qed

lemma refresh_commit_Inr:
  assumes "registry_ok r" "refresh_commit h sid wid pid starttime mount_ns pid_ns r = Inr (a, r')"
  obtains w where "get_workspace r sid wid = Some w" "wm_runtime_pid w = Some pid"
    "wm_runtime_starttime_ticks w = Some starttime" "a = normalize_namespace_ref_paths w"
    "r' = update_workspace sid wid (\<lambda>_. a) r"
  using assms by (auto simp: refresh_commit_def on_sandbox_Inr in_sandbox_Inr result_simps Let_def
      get_workspace_sandbox sandbox_edit split: if_splits)

lemma refresh_live_runtime_cases:
  assumes ok: "registry_ok r" and w: "get_workspace r sid wid = Some w" "wm_id snapshot = wid"
    and run: "refresh_live_runtime env sid snapshot r = (Inr (Some a), r')"
  shows "get_workspace r' sid wid = Some a \<and> a = normalize_namespace_ref_paths w \<and>
    (\<exists>pid t. wm_runtime_pid a = Some pid \<and> wm_runtime_starttime_ticks a = Some t \<and> se_live env pid t)"
proof -
  obtain pid t m p r'' where live: "se_live env pid t"
    and c: "refresh_commit (se_host env) sid wid pid t m p r = Inr (a, r'')" "r' = next_generation r''"
    using run w(2) by (auto simp: refresh_live_runtime_def result_simps transact_Inr
        split: option.splits if_splits sum.splits prod.splits)
  from c(1) obtain v where v: "get_workspace r sid wid = Some v" "wm_runtime_pid v = Some pid"
    "wm_runtime_starttime_ticks v = Some t" "a = normalize_namespace_ref_paths v"
    "r'' = update_workspace sid wid (\<lambda>_. a) r"
    by (rule refresh_commit_Inr [OF ok])
  then show ?thesis
    using live w(1) c(2) by (auto simp: normalize_namespace_ref_paths_def)
qed

lemma release_dead_runtime_ok:
  assumes "registry_ok r" "release_dead_runtime env sid wid snapshot r = (Inr a, r')"
  shows "registry_ok r'"
  using assms ids.good_release_dead [OF assms(1,1)]
  by (auto simp: release_dead_runtime_def result_simps transact_Inr split: prod.splits)

lemma refresh_none_unchanged:
  "refresh_live_runtime env sid snapshot r = (Inr None, r') \<Longrightarrow> r' = r"
  by (auto simp: refresh_live_runtime_def result_simps split: option.splits if_splits sum.splits prod.splits)

end
