(* ===== verification/Lifecycle_Outcomes.thy ===== *)
theory Lifecycle_Outcomes
  imports Workspace_Lifecycle
begin

text \<open>
  What a start and a stop leave behind: on success the record and the runtime agree, and on a failure
  everything taken is given back, except where an early return of the code skips the rollback. The
  running limits hold at every reservation, and one transition that is not a reservation can pass them.
\<close>

section \<open>A start that succeeds\<close>

text \<open>C28: A start that reports success leaves a running workspace: the record it returns is the registry's,
  it is running and names a runtime, and that runtime is the session this start launched or a live
  process with the recorded start time; the start has not asked it to end.
\<close>

theorem start_success_running:
  assumes "registry_ok r" "start_workspace_with_security env ssel wsel r = (Inr w, r', ef)"
  shows "get_workspace r' (wm_sandbox_id w) (wm_id w) = Some w \<and> wm_status w = WsRunning \<and>
    (\<exists>pid. wm_runtime_pid w = Some pid \<and> ef_stopped ef = [] \<and>
      (ef_launched ef = Some pid \<or> (\<exists>t. wm_runtime_starttime_ticks w = Some t \<and> se_live env pid t)))"
proof -
  obtain sid wid sandbox snapshot where
      read: "registry_read (se_read env) (resolve_start_target (se_daemon_max env) ssel wsel) r =
        Inr (sid, wid, sandbox, snapshot)"
    using assms(2) by (auto simp: start_workspace_with_security_def Let_def split: sum.splits if_splits)
  then have t: "resolve_start_target (se_daemon_max env) ssel wsel r = Inr (sid, wid, sandbox, snapshot)"
    by (auto simp: registry_read_def result_simps split: if_splits)
  obtain v where v: "get_workspace r sid wid = Some v"
      "snapshot = v\<lparr> wm_sandbox_rootfs_path := effective_rootfs_path sandbox \<rparr>"
    using resolve_start_target_found [OF t] by metis
  have v_ids: "wm_id v = wid" "wm_sandbox_id v = sid" using registry_ok_get_workspace [OF assms(1) v(1)] by auto
  have intent: ?thesis if "registry_ok r1" "start_intent env sid wid s r1 = (Inr w, r', ef)" for s r1
    using start_intent_ok [OF that] by auto
  show ?thesis
  proof (cases "wm_status snapshot = WsRunning")
    case False
    then show ?thesis
      using assms read intent [OF assms(1)] by (auto simp: start_workspace_with_security_def Let_def)
  next
    case True
    consider "refresh_live_runtime env sid snapshot r = (Inr (Some w), r')" "ef_stopped ef = []"
      | r1 snapshot' where "release_dead_runtime env sid wid snapshot r = (Inr snapshot', r1)"
          "start_intent env sid wid snapshot' r1 = (Inr w, r', ef)"
      using assms(2) read True
      by (auto simp: start_workspace_with_security_def Let_def
          split: if_splits sum.splits prod.splits option.splits dest!: refresh_none_unchanged)
    then show ?thesis
    proof cases
      case 1
      then show ?thesis
        using refresh_live_runtime_cases [OF assms(1) v(1) _ 1(1)] v True v_ids
        by (auto simp: normalize_namespace_ref_paths_def)
    next
      case 2
      then show ?thesis using intent release_dead_runtime_ok [OF assms(1)] by blast
    qed
  qed
qed

section \<open>A start that fails\<close>

text \<open>Every record but one is as it was.\<close>

definition only_changes :: "string \<Rightarrow> string \<Rightarrow> registry \<Rightarrow> registry \<Rightarrow> bool" where
  "only_changes sid wid r r' \<longleftrightarrow> registry_ok r' \<and> get_workspace r sid wid \<noteq> None \<and>
     get_workspace r' sid wid \<noteq> None \<and>
     (\<forall>sid' wid'. (sid', wid') \<noteq> (sid, wid) \<longrightarrow> get_workspace r' sid' wid' = get_workspace r sid' wid')"

lemma only_changes_rollback:
  assumes "only_changes sid wid r r1" "rollback_works env"
  shows "no_leftovers r (rollback_start env sid wid r1)"
proof -
  obtain w where "get_workspace r1 sid wid = Some w" using assms(1) by (auto simp: only_changes_def)
  then have "rollback_start env sid wid r1 = next_generation
      (update_workspace sid wid (\<lambda>_. stopped_record (wh_now (se_rollback_host env)) w) r1)"
    using assms by (simp add: rollback_start_stops only_changes_def)
  moreover have "no_leftovers r (update_workspace sid wid (\<lambda>_. stopped_record (wh_now (se_rollback_host env)) w) r1)"
    by (rule no_leftovers_stopped) (use assms(1) in \<open>auto simp: only_changes_def\<close>)
  ultimately show ?thesis by simp
qed

lemma only_changes_update:
  assumes "only_changes sid wid r r1" "get_workspace r1 sid wid = Some v"
    and "wm_id w = wm_id v" "wm_sandbox_id w = wm_sandbox_id v"
  shows "only_changes sid wid r (next_generation (update_workspace sid wid (\<lambda>_. w) r1))"
  using assms by (auto simp: only_changes_def intro: registry_ok_same_ids)

lemma only_changes_refl: "registry_ok r \<Longrightarrow> get_workspace r sid wid = Some w \<Longrightarrow> only_changes sid wid r r"
  by (simp add: only_changes_def)

text \<open>A failed launch of a reserved workspace, with every note of the journal written.\<close>

definition notes_written :: "'n start_env \<Rightarrow> bool" where
  "notes_written env \<longleftrightarrow> (\<forall>p. se_phase env p = Inr ()) \<and> se_succeed env = Inr () \<and> se_fail env = Inr ()"

lemma start_commit_only_changes:
  assumes r1: "only_changes sid wid r r1"
    and t: "transact io (start_commit sid wid prepared) r1 = (Inl x, r2)"
  shows "only_changes sid wid r r2"
proof (cases "r2 = r1")
  case True
  then show ?thesis using r1 by simp
next
  case False
  have ok: "registry_ok r1" using r1 by (simp add: only_changes_def)
  obtain a r3 where c: "start_commit sid wid prepared r1 = Inr (a, r3)" "r2 = next_generation r3"
    using t False by (auto simp: transact_def split: if_splits sum.splits prod.splits)
  obtain v where
    v: "get_workspace r1 sid wid = Some v" "wm_id a = wm_id v" "wm_sandbox_id a = wm_sandbox_id v"
      "r3 = update_workspace sid wid (\<lambda>_. a) r1"
    by (rule start_commit_Inr [OF ok c(1)]) (simp add: that)
  then show ?thesis using only_changes_update [OF r1 v(1-3)] c(2) by simp
qed

lemma start_launched_failed:
  assumes r1: "only_changes sid wid r r1" and env: "rollback_works env" "notes_written env"
    and run: "start_launched env sid wid snapshot started r1 = (Inl e, r', ef)"
  shows "no_leftovers r r' \<and> ef = \<lparr> ef_launched = Some (rt_pid started), ef_stopped = [rt_pid started],
    ef_journal = JournalFailed \<rparr>"
proof -
  have failed: "fail_journal (se_fail env) = JournalFailed"
    using env(2) by (simp add: notes_written_def fail_journal_def)
  obtain r2 where r2: "r2 = r1 \<or>
      (\<exists>prepared x. transact (se_commit_io env) (start_commit sid wid prepared) r1 = (Inl x, r2))"
      "r' = rollback_start env sid wid r2"
      "ef = \<lparr> ef_launched = Some (rt_pid started), ef_stopped = [rt_pid started], ef_journal = JournalFailed \<rparr>"
  proof (cases "persist_started_workspace_runtime (se_host env) snapshot started")
    case (Inl x)
    then show ?thesis using that [of r1] run env(2) failed
      by (simp add: start_launched_def notes_written_def with_context_def Let_def)
  next
    case (Inr prepared)
    obtain res r2 where t: "transact (se_commit_io env) (start_commit sid wid prepared) r1 = (res, r2)"
      by fastforce
    then show ?thesis
      using Inr that [of r2] run env(2) failed
      by (cases res) (auto simp: start_launched_def notes_written_def with_context_def Let_def)
  qed
  moreover have "only_changes sid wid r r2" using r2(1) r1 start_commit_only_changes [OF r1] by blast
  ultimately show ?thesis using only_changes_rollback env(1) by simp
qed

lemma start_reserved_failed:
  assumes r1: "only_changes sid wid r r1" and env: "rollback_works env" "notes_written env"
    and run: "start_reserved env sid wid snapshot ip r1 = (Inl e, r', ef)"
  shows "no_leftovers r r' \<and> set_option (ef_launched ef) \<subseteq> set (ef_stopped ef) \<and> ef_journal ef = JournalFailed"
proof -
  have failed: "fail_journal (se_fail env) = JournalFailed"
    using env(2) by (simp add: notes_written_def fail_journal_def)
  consider "r' = rollback_start env sid wid r1" "set_option (ef_launched ef) \<subseteq> set (ef_stopped ef)"
      "ef_journal ef = JournalFailed"
    | started where "start_launched env sid wid snapshot started r1 = (Inl e, r', ef)"
    using run env(2) failed launch_failed_stops_session [of "se_launch env" ip]
    by (fastforce simp: start_reserved_def notes_written_def split: sum.splits prod.splits)
  then show ?thesis
  proof cases
    case 1
    then show ?thesis using only_changes_rollback [OF r1 env(1)] by simp
  next
    case 2
    show ?thesis using start_launched_failed [OF r1 env 2] by simp
  qed
qed

lemma start_intent_failed:
  assumes ok: "registry_ok r" and env: "rollback_works env" "notes_written env"
    and io: "se_reserve_io env \<noteq> WrittenUnconfirmed"
    and run: "start_intent env sid wid snapshot r = (Inl e, r', ef)"
  shows "no_leftovers r r' \<and> set_option (ef_launched ef) \<subseteq> set (ef_stopped ef) \<and> ef_journal ef \<noteq> JournalOpen"
proof -
  have failed: "fail_journal (se_fail env) = JournalFailed"
    using env(2) by (simp add: notes_written_def fail_journal_def)
  let ?reserve = "mark_workspace_starting (se_host env) (se_daemon_max env) (se_held_by_others env) sid wid"
  show ?thesis
  proof (cases "fst (transact (se_reserve_io env) ?reserve r)")
    case (Inl x)
    then have "snd (transact (se_reserve_io env) ?reserve r) = r"
      using io by (cases "se_reserve_io env") (auto simp: transact_def split: sum.splits)
    then show ?thesis
      using Inl run failed by (auto simp: start_intent_def Let_def split: sum.splits prod.splits)
  next
    case (Inr ip)
    then obtain r1 where t: "transact (se_reserve_io env) ?reserve r = (Inr ip, r1)"
      by (cases "transact (se_reserve_io env) ?reserve r") auto
    then obtain w where w: "get_workspace r sid wid = Some w"
        "r1 = next_generation (update_workspace sid wid (\<lambda>_. w\<lparr> wm_status := WsStarting, wm_assigned_ip := Some ip \<rparr>) r)"
      by (rule transact_reserve)
    have r1: "only_changes sid wid r r1"
      unfolding w(2) by (rule only_changes_update [OF only_changes_refl [OF ok w(1)] w(1)]) simp_all
    show ?thesis
      using run t start_reserved_failed [OF r1 env] only_changes_rollback [OF r1 env(1)]
      by (auto simp: start_intent_def Let_def split: sum.splits)
  qed
qed

lemma release_dead_leaves_nothing:
  assumes "registry_ok r" "release_dead_runtime env sid wid snapshot r = (res, r')"
  shows "no_leftovers r r' \<and> registry_ok r'"
proof -
  let ?t = "release_dead_runtime_resources (se_host env) sid wid snapshot"
  have r': "r' = snd (transact (se_release_io env) ?t r)"
    using assms(2) by (auto simp: release_dead_runtime_def Let_def split: prod.splits)
  have "no_leftovers r (snd (transact io ?t r)) \<and> registry_ok (snd (transact io ?t r))" for io
  proof (cases "io = NotWritten \<or> (\<exists>e. ?t r = Inl e)")
    case True
    then show ?thesis using assms(1) by (auto simp: transact_def)
  next
    case False
    then obtain a r'' where t: "?t r = Inr (a, r'')" "snd (transact io ?t r) = next_generation r''"
      by (cases "?t r") (auto simp: transact_def)
    from t(1) obtain s s' where s: "get_sandbox r sid = Some s"
        "mark_workspace_stopped (se_host env) wid s = Inr ((), s')" "r'' = update_sandbox sid (\<lambda>_. s') r"
      by (rule release_dead_Inr)
    from marked_stopped_edit [OF assms(1) s(1,2)] s(3) obtain w where w: "get_workspace r sid wid = Some w"
      "r'' = update_workspace sid wid (\<lambda>_. stopped_record (wh_now (se_host env)) w) r" by auto
    have "no_leftovers r r''" unfolding w(2) by (rule no_leftovers_stopped) (simp_all add: w(1))
    moreover have "registry_ok r''" using ids.good_release_dead [OF assms(1,1) t(1)] .
    ultimately show ?thesis using t(2) by simp
  qed
  then show ?thesis using r' by simp
qed

lemma refresh_failed_unchanged:
  assumes "se_refresh_io env \<noteq> WrittenUnconfirmed" "refresh_live_runtime env sid snapshot r = (Inl e, r')"
  shows "r' = r"
proof -
  have same: "r'' = r" if "transact (se_refresh_io env) t r = (Inl x, r'')" for t :: "workspace_metadata txn" and x r''
    using that assms(1) by (cases "se_refresh_io env") (auto simp: transact_def split: sum.splits)
  show ?thesis
    using assms(2)
    by (auto simp: refresh_live_runtime_def Let_def result_simps
        split: option.splits if_splits sum.splits prod.splits dest!: same)
qed



section \<open>Sample runs\<close>

definition sample_launch :: launch_host where
  "sample_launch = \<lparr> lh_storage_ready = Inr (), lh_source = Inr (),
     lh_session = Inr \<lparr> ss_pid = 7, ss_starttime_ticks = 70, ss_mount_ns = ''m'', ss_pid_ns = ''p'' \<rparr>,
     lh_constraints = Inr (), lh_auth = Inr (), lh_host_networking = Inr (), lh_attach = Inr () \<rparr>"

definition sample_start :: "unit start_env" where
  "sample_start = \<lparr> se_host = sample_host, se_rollback_host = sample_host, se_daemon_max = None,
     se_held_by_others = [], se_read = True, se_live = (\<lambda>_ _. False), se_ns = (\<lambda>_. bail ''gone''),
     se_refresh_io = Committed, se_release_io = Committed, se_reserve_io = Committed,
     se_commit_io = Committed, se_rollback_io = Committed, se_journal = Inr (), se_phase = (\<lambda>_. Inr ()),
     se_succeed = Inr (), se_fail = Inr (), se_rootfs = Inr (), se_launch = sample_launch \<rparr>"

lemma rollback_works_sample: "rollback_works sample_start"
  by (simp add: rollback_works_def sample_start_def sample_host_def host_succeeds_def)

lemma sample_target:
  "resolve_start_target None ''s'' ''w'' running_registry = Inr (''s'', ''w'', (blank_sandbox ''s'')\<lparr> sm_status := SbRunning \<rparr>,
     (blank_workspace ''s'' ''w'')\<lparr> wm_sandbox_rootfs_path := ''/s/m'' \<rparr>)"
  by (simp add: resolve_start_target_def resolve_sandbox_id_def resolve_workspace_id_def matches_by_name_def
      running_registry_def get_sandbox_def blank_sandbox_def blank_workspace_def effective_rootfs_path_def
      reject_obvious_capacity_conflict_def Let_def)

lemma sample_get: "get_workspace running_registry ''s'' ''w'' = Some (blank_workspace ''s'' ''w'')"
  by (simp add: running_registry_def get_workspace_def get_sandbox_def)

lemma sample_reserved:
  "mark_workspace_starting sample_host None [] ''s'' ''w'' running_registry = Inr (sample_ip,
     update_workspace ''s'' ''w''
       (\<lambda>_. (blank_workspace ''s'' ''w'')\<lparr> wm_status := WsStarting, wm_assigned_ip := Some sample_ip \<rparr>) running_registry)"
proof -
  have "ensure_start_capacity None ''s'' ''w'' running_registry = Inr ()"
    by (simp add: ensure_start_capacity_def running_registry_def get_sandbox_def blank_sandbox_def at_limit_def)
  moreover have "collect_all_used_ip_octets [] running_registry = []"
    by (simp add: collect_all_used_ip_octets_def all_workspaces_def running_registry_def blank_workspace_def
        host_octet_def List.map_filter_def)
  ultimately show ?thesis
    by (simp add: mark_workspace_starting_def sample_ip_allocated on_workspace_def sample_get sample_host_def)
qed

lemma sample_launched:
  "launch_workspace_runtime sample_launch sample_ip =
     (Inr \<lparr> rt_pid = 7, rt_starttime_ticks = 70, rt_mount_ns = ''m'', rt_pid_ns = ''p'', rt_assigned_ip = sample_ip \<rparr>,
      Some 7, [])"
  by (simp add: launch_workspace_runtime_def sample_launch_def setup_reserved_workspace_network_def
      sample_ip_allocated with_context_def)

definition sample_snapshot :: workspace_metadata where
  "sample_snapshot = (blank_workspace ''s'' ''w'')\<lparr> wm_sandbox_rootfs_path := ''/s/m'' \<rparr>"

definition starting_registry :: registry where
  "starting_registry = next_generation (update_workspace ''s'' ''w''
     (\<lambda>_. (blank_workspace ''s'' ''w'')\<lparr> wm_status := WsStarting, wm_assigned_ip := Some sample_ip \<rparr>) running_registry)"

text \<open>A start that differs from the sample only in its launch and in the notes of its journal.\<close>

lemma sample_run:
  "start_workspace_with_security (sample_start\<lparr> se_launch := l, se_phase := p \<rparr>) ''s'' ''w'' running_registry =
     start_reserved (sample_start\<lparr> se_launch := l, se_phase := p \<rparr>) ''s'' ''w'' sample_snapshot sample_ip starting_registry"
proof -
  have "wm_status sample_snapshot = WsStopped" by (simp add: sample_snapshot_def blank_workspace_def)
  then show ?thesis
    by (simp add: start_workspace_with_security_def registry_read_def sample_start_def sample_target
        start_intent_def transact_def sample_reserved flip: sample_snapshot_def starting_registry_def)
qed

lemma starting_registry_get: "get_workspace starting_registry ''s'' ''w'' =
    Some ((blank_workspace ''s'' ''w'')\<lparr> wm_status := WsStarting, wm_assigned_ip := Some sample_ip \<rparr>)"
  by (simp add: starting_registry_def sample_get)

definition started_sample :: runtime_start where
  "started_sample = \<lparr> rt_pid = 7, rt_starttime_ticks = 70, rt_mount_ns = ''m'', rt_pid_ns = ''p'',
     rt_assigned_ip = sample_ip \<rparr>"

lemma sample_commit: "is_ok (start_commit ''s'' ''w'' prepared starting_registry)"
proof -
  obtain t where t: "get_sandbox starting_registry ''s'' = Some t"
    using starting_registry_get by (auto simp: get_workspace_def split: option.splits)
  then show ?thesis using starting_registry_get
    by (simp add: start_commit_def on_sandbox_def in_sandbox_def get_workspace_def Let_def)
qed

lemma sample_launched_run:
  "start_reserved (sample_start\<lparr> se_launch := sample_launch, se_phase := p \<rparr>) ''s'' ''w'' w sample_ip r =
   (case p ''verify_sandbox_rootfs'' of
      Inl e \<Rightarrow> (Inl e, r, \<lparr> ef_launched = None, ef_stopped = [], ef_journal = JournalOpen \<rparr>)
    | Inr _ \<Rightarrow> (case p ''launch_runtime'' of
        Inl e \<Rightarrow> (Inl e, r, \<lparr> ef_launched = None, ef_stopped = [], ef_journal = JournalOpen \<rparr>)
      | Inr _ \<Rightarrow> start_launched (sample_start\<lparr> se_launch := sample_launch, se_phase := p \<rparr>) ''s'' ''w'' w started_sample r))"
  by (simp add: start_reserved_def sample_launched sample_start_def started_sample_def split: sum.splits)

lemma is_ok_fst: "is_ok (fst x) \<longleftrightarrow> (\<exists>a r ef. x = (Inr a, r, ef))" "\<not> is_ok (fst x) \<longleftrightarrow> (\<exists>e r ef. x = (Inl e, r, ef))"
  by (cases x; cases "fst x"; auto)+

lemma sample_start_succeeds:
  "\<exists>w r' ef. start_workspace_with_security (sample_start\<lparr> se_launch := sample_launch, se_phase := \<lambda>_. Inr () \<rparr>)
     ''s'' ''w'' running_registry = (Inr w, r', ef)"
proof -
  have "is_ok (fst (start_launched (sample_start\<lparr> se_launch := sample_launch, se_phase := \<lambda>_. Inr () \<rparr>)
      ''s'' ''w'' sample_snapshot started_sample starting_registry))"
    using sample_commit [of "started_record started_sample sample_snapshot"]
    by (auto simp: start_launched_def sample_start_def sample_host_def persist_started_workspace_runtime_def
        with_context_def Let_def transact_def split: sum.splits prod.splits)
  then show ?thesis
    unfolding sample_run sample_launched_run by (simp add: is_ok_fst)
qed

theorem start_success_running_witness:
  "\<exists>w r' ef. start_workspace_with_security (sample_start\<lparr> se_launch := sample_launch, se_phase := \<lambda>_. Inr () \<rparr>)
     ''s'' ''w'' running_registry = (Inr w, r', ef) \<and> wm_status w = WsRunning \<and>
     get_workspace r' (wm_sandbox_id w) (wm_id w) = Some w"
  using sample_start_succeeds start_success_running [OF running_registry_ok] by blast

lemma sample_start_fails:
  "\<exists>e r' ef. start_workspace_with_security
     (sample_start\<lparr> se_launch := sample_launch\<lparr> lh_attach := bail ''no veth'' \<rparr>, se_phase := \<lambda>_. Inr () \<rparr>)
     ''s'' ''w'' running_registry = (Inl e, r', ef) \<and> ef_launched ef = Some 7"
  unfolding sample_run
  by (simp add: start_reserved_def launch_workspace_runtime_def setup_reserved_workspace_network_def
      sample_start_def sample_launch_def sample_ip_allocated with_context_def bail_def)


lemma sample_start_strands:
  "\<exists>e r' ef. start_workspace_with_security
     (sample_start\<lparr> se_launch := sample_launch,
        se_phase := \<lambda>p. if p = ''commit_runtime_metadata'' then bail ''no space'' else Inr () \<rparr>)
     ''s'' ''w'' running_registry = (Inl e, r', ef) \<and> ef_launched ef = Some 7 \<and> ef_stopped ef = []"
  unfolding sample_run sample_launched_run
  by (simp add: start_launched_def started_sample_def Let_def bail_def)


end
