(* ===== verification/Host_Actions.thy ===== *)
theory Host_Actions
  imports Errors
begin

text \<open>
  Code that acts on the host: an action reads and changes a state and succeeds or fails. A host command
  (\<open>hostcmd\<close>) is run by a parameter that gives its output or the error of the call; the state it
  changes is left abstract, so every theorem holds for every behaviour of the programs that are run.
\<close>

named_theorems act_simps \<open>rules that take an action apart\<close>

section \<open>Actions\<close>

type_synonym ('s, 'a) act = "'s \<Rightarrow> 'a result \<times> 's"

definition pure :: "'a result \<Rightarrow> ('s, 'a) act" where
  "pure r st = (r, st)"

definition then_act :: "('s, 'a) act \<Rightarrow> ('a \<Rightarrow> ('s, 'b) act) \<Rightarrow> ('s, 'b) act" where
  "then_act m f st = (case m st of (Inl e, st') \<Rightarrow> (Inl e, st') | (Inr a, st') \<Rightarrow> f a st')"

definition try_act :: "('s, 'a) act \<Rightarrow> ('a result \<Rightarrow> ('s, 'b) act) \<Rightarrow> ('s, 'b) act" where
  "try_act m f st = (case m st of (r, st') \<Rightarrow> f r st')"

definition context_act :: "string \<Rightarrow> ('s, 'a) act \<Rightarrow> ('s, 'a) act" where
  "context_act text m st = (case m st of (r, st') \<Rightarrow> (with_context text r, st'))"

definition read_act :: "('s \<Rightarrow> 'a) \<Rightarrow> ('s, 'a) act" where
  "read_act f st = (Inr (f st), st)"

lemma pure_apply [simp]: "pure r st = (r, st)"
  by (simp add: pure_def)

lemma read_act_apply [simp]: "read_act f st = (Inr (f st), st)"
  by (simp add: read_act_def)

lemma then_act_Inr [act_simps]:
  "then_act m f st = (Inr b, st') \<longleftrightarrow> (\<exists>a st1. m st = (Inr a, st1) \<and> f a st1 = (Inr b, st'))"
  by (auto simp: then_act_def split: prod.splits sum.splits)

lemma then_act_Inl [act_simps]:
  "then_act m f st = (Inl e, st') \<longleftrightarrow>
     m st = (Inl e, st') \<or> (\<exists>a st1. m st = (Inr a, st1) \<and> f a st1 = (Inl e, st'))"
  by (auto simp: then_act_def split: prod.splits sum.splits)

lemma try_act_iff [act_simps]:
  "try_act m f st = x \<longleftrightarrow> (\<exists>r st1. m st = (r, st1) \<and> f r st1 = x)"
  by (auto simp: try_act_def split: prod.splits)

lemma context_act_Inr [act_simps]: "context_act t m st = (Inr a, st') \<longleftrightarrow> m st = (Inr a, st')"
  by (auto simp: context_act_def split: prod.splits)

lemma context_act_Inl [act_simps]:
  "context_act t m st = (Inl e, st') \<longleftrightarrow> (\<exists>e'. m st = (Inl e', st') \<and> e = Context t e')"
  by (auto simp: context_act_def split: prod.splits)

section \<open>Host commands\<close>

record command_spec =
  hc_program :: string
  hc_args :: "string list"
  hc_stdin :: string

record host_output =
  ho_success :: bool
  ho_stdout :: string
  ho_stderr :: string

definition host_cmd :: "string \<Rightarrow> string list \<Rightarrow> command_spec" where
  "host_cmd program args = \<lparr> hc_program = program, hc_args = args, hc_stdin = [] \<rparr>"

text \<open>\<open>run_checked\<close>: a non-zero exit status is an error.\<close>

definition run_checked :: "(command_spec \<Rightarrow> ('s, host_output) act) \<Rightarrow> command_spec \<Rightarrow> ('s, host_output) act" where
  "run_checked run cmd =
     then_act (run cmd) (\<lambda>out. pure (if ho_success out then Inr out else bail ''the command failed''))"

lemma run_checked_Inr [act_simps]:
  "run_checked run cmd st = (Inr out, st') \<longleftrightarrow> run cmd st = (Inr out, st') \<and> ho_success out"
  by (auto simp: run_checked_def then_act_Inr)

text \<open>\<open>stderr_text\<close>\<close>

definition stderr_text :: "host_output \<Rightarrow> string" where
  "stderr_text out = trim (ho_stderr out)"

section \<open>Text of command output\<close>

text \<open>\<open>str::lines\<close>: the lines without their terminator; a final newline adds no empty line.\<close>

definition strip_cr :: "string \<Rightarrow> string" where
  "strip_cr l = (if l \<noteq> [] \<and> last l = CHR 0x0D then butlast l else l)"

definition text_lines :: "string \<Rightarrow> string list" where
  "text_lines s =
     map strip_cr (butlast (split_on (CHR 0x0A) s)) @
     (if last (split_on (CHR 0x0A) s) = [] then [] else [last (split_on (CHR 0x0A) s)])"

text \<open>\<open>str::contains\<close>\<close>

fun contains_str :: "string \<Rightarrow> string \<Rightarrow> bool" where
  "contains_str p [] = (p = [])"
| "contains_str p (c # s) = (starts_with p (c # s) \<or> contains_str p s)"

lemma contains_str_iff: "contains_str p s \<longleftrightarrow> (\<exists>a b. s = a @ p @ b)"
proof (induction s)
  case (Cons c s)
  have "(\<exists>a b. c # s = a @ p @ b) \<longleftrightarrow> (\<exists>b. c # s = p @ b) \<or> (\<exists>a b. s = a @ p @ b)"
    by (metis append_Cons append_Nil list.exhaust list.inject)
  then show ?case using Cons by (simp add: starts_with_iff)
qed simp

text \<open>\<open>str::split_whitespace\<close>; the bytes of a white space character at the front of a text.\<close>

definition ws_len :: "string \<Rightarrow> nat" where
  "ws_len s =
     (case s of
        [] \<Rightarrow> 0
      | a # s' \<Rightarrow>
          if ws1 a then 1
          else (case s' of
                  [] \<Rightarrow> 0
                | b # s'' \<Rightarrow>
                    if ws2 a b then 2
                    else (case s'' of [] \<Rightarrow> 0 | c # _ \<Rightarrow> if ws3 a b c then 3 else 0)))"

fun words_from :: "string \<Rightarrow> nat \<Rightarrow> string \<Rightarrow> string list" where
  "words_from cur skip [] = (if cur = [] then [] else [cur])"
| "words_from cur (Suc skip) (c # s) = words_from cur skip s"
| "words_from cur 0 (c # s) =
     (if ws_len (c # s) > 0
      then (if cur = [] then [] else [cur]) @ words_from [] (ws_len (c # s) - 1) s
      else words_from (cur @ [c]) 0 s)"

definition split_whitespace :: "string \<Rightarrow> string list" where
  "split_whitespace s = words_from [] 0 s"

end
