(* ===== verification/Firewall.thy ===== *)
theory Firewall
  imports Host_Actions Fsutil
begin

text \<open>
  The firewall rules of a workspace interface (\<open>network/nat\<close>): the text of a rule and its arguments, the
  recognition of the anti-spoofing rule in a listing, and installing and removing it with the retries
  and the fallback of the code. The programs that are run are a parameter; a listing is the text they print.
\<close>

section \<open>Rule text and arguments\<close>

text \<open>The loop of \<open>split_rule_args\<close>: inside quotes, a pending argument, the argument so far, bytes to skip.\<close>

fun split_args :: "bool \<Rightarrow> bool \<Rightarrow> string \<Rightarrow> nat \<Rightarrow> string \<Rightarrow> string list" where
  "split_args quoted pending cur skip [] = (if pending then [cur] else [])"
| "split_args quoted pending cur (Suc skip) (c # s) = split_args quoted pending cur skip s"
| "split_args quoted pending cur 0 (c # s) =
     (if c = CHR 0x22 then split_args (\<not> quoted) True cur 0 s
      else if ws_len (c # s) > 0 \<and> \<not> quoted
      then (if pending then cur # split_args quoted False [] (ws_len (c # s) - 1) s
            else split_args quoted False cur (ws_len (c # s) - 1) s)
      else split_args quoted True (cur @ [c]) 0 s)"

definition split_rule_args :: "string \<Rightarrow> string list" where
  "split_rule_args rule = split_args False False [] 0 rule"

definition plain_byte :: "char \<Rightarrow> bool" where
  "plain_byte c \<longleftrightarrow> is_ascii_alphanumeric c \<or> c \<in> set ''-_./:!=''"

fun escape_restore :: "string \<Rightarrow> string" where
  "escape_restore [] = []"
| "escape_restore (c # s) =
     (if c = CHR 0x5C then [CHR 0x5C, CHR 0x5C] else if c = CHR 0x22 then [CHR 0x5C, CHR 0x22] else [c])
     @ escape_restore s"

definition quote_restore_argument :: "string \<Rightarrow> string" where
  "quote_restore_argument argument =
     (if argument \<noteq> [] \<and> list_all plain_byte argument then argument
      else CHR 0x22 # escape_restore argument @ [CHR 0x22])"

definition restore_binary_for :: "string \<Rightarrow> string" where
  "restore_binary_for iptables =
     (if iptables = ''iptables'' then ''iptables-restore'' else iptables @ ''-restore'')"

definition COMMENT_MODULE :: string where
  "COMMENT_MODULE = ''comment''"

definition RULE_COMMENT_PREFIX :: string where
  "RULE_COMMENT_PREFIX = ''enclave:''"

definition comment_args :: "string \<Rightarrow> string list" where
  "comment_args owner = [''-m'', COMMENT_MODULE, ''--comment'', RULE_COMMENT_PREFIX @ owner]"

definition anti_spoof_rule_args :: "string \<Rightarrow> string \<Rightarrow> string option \<Rightarrow> string list" where
  "anti_spoof_rule_args veth_host assigned_ip owner =
     [''-i'', veth_host, ''!'', ''-s'', assigned_ip @ ''/32''] @
     (case owner of None \<Rightarrow> [] | Some owner \<Rightarrow> comment_args owner) @ [''-j'', ''DROP'']"

section \<open>Recognizing the rule\<close>

fun any_window2 :: "('a \<Rightarrow> 'a \<Rightarrow> bool) \<Rightarrow> 'a list \<Rightarrow> bool" where
  "any_window2 p (a # b # s) = (p a b \<or> any_window2 p (b # s))"
| "any_window2 p _ = False"

fun any_window3 :: "('a \<Rightarrow> 'a \<Rightarrow> 'a \<Rightarrow> bool) \<Rightarrow> 'a list \<Rightarrow> bool" where
  "any_window3 p (a # b # c # s) = (p a b c \<or> any_window3 p (b # c # s))"
| "any_window3 p _ = False"

definition is_anti_spoof_rule :: "string \<Rightarrow> string \<Rightarrow> string \<Rightarrow> bool" where
  "is_anti_spoof_rule rule veth_host assigned_ip =
     (let args = split_rule_args rule in
      any_window2 (\<lambda>a b. a = ''-j'' \<and> b = ''DROP'') args \<and>
      any_window2 (\<lambda>a b. a = ''-i'' \<and> b = veth_host) args \<and>
      any_window3 (\<lambda>a b c. a = ''!'' \<and> b = ''-s'' \<and> c = assigned_ip @ ''/32'') args)"

definition anti_spoof_rules :: "string \<Rightarrow> string \<Rightarrow> string \<Rightarrow> (string \<times> string) list" where
  "anti_spoof_rules dump veth_host assigned_ip =
     concat (map (\<lambda>ch. List.map_filter (\<lambda>line.
       case strip_prefix (''-A '' @ ch @ '' '') line of
         None \<Rightarrow> None
       | Some rule \<Rightarrow> if is_anti_spoof_rule rule veth_host assigned_ip then Some (ch, rule) else None)
       (text_lines dump)) [''INPUT'', ''FORWARD''])"

fun add_new :: "'a list \<Rightarrow> 'a list \<Rightarrow> 'a list" where
  "add_new seen [] = seen"
| "add_new seen (x # xs) = add_new (if x \<in> set seen then seen else seen @ [x]) xs"

definition chains_with_anti_spoof_rule :: "string \<Rightarrow> string \<Rightarrow> string \<Rightarrow> string list" where
  "chains_with_anti_spoof_rule dump veth_host assigned_ip =
     add_new [] (map fst (anti_spoof_rules dump veth_host assigned_ip))"

section \<open>Ownership\<close>

definition split_once_str :: "string \<Rightarrow> string \<Rightarrow> (string \<times> string) option" where
  "split_once_str p s =
     (case find (\<lambda>i. starts_with p (drop i s)) [0..<Suc (length s)] of
        None \<Rightarrow> None
      | Some i \<Rightarrow> Some (take i s, drop (i + length p) s))"

definition owned_rule_owner :: "string \<Rightarrow> string option" where
  "owned_rule_owner rule =
     (case split_once_str ''--comment'' rule of
        None \<Rightarrow> None
      | Some (_, comment) \<Rightarrow>
          let comment = trim_start comment;
              comment = (case strip_prefix [CHR 0x22] comment of None \<Rightarrow> comment | Some c \<Rightarrow> c);
              comment = (case split_once (CHR 0x22) comment of None \<Rightarrow> comment | Some (v, _) \<Rightarrow> v);
              comment = (case split_whitespace comment of [] \<Rightarrow> [] | w # _ \<Rightarrow> w)
          in (case strip_prefix RULE_COMMENT_PREFIX comment of
                None \<Rightarrow> None
              | Some owner \<Rightarrow> if owner = [] then None else Some owner))"

record owned_rule =
  or_table :: string
  or_chain :: string
  or_owner :: string
  or_rule :: string

definition parse_owned_rules :: "string \<Rightarrow> owned_rule list" where
  "parse_owned_rules output =
     List.map_filter (\<lambda>line.
       case strip_prefix ''-A '' (trim line) of
         None \<Rightarrow> None
       | Some rest \<Rightarrow>
           (case split_once (CHR '' '') rest of
              None \<Rightarrow> None
            | Some (ch, rule) \<Rightarrow>
                (case owned_rule_owner rule of
                   None \<Rightarrow> None
                 | Some owner \<Rightarrow> Some \<lparr> or_table = [], or_chain = ch, or_owner = owner, or_rule = rule \<rparr>)))
       (text_lines output)"

section \<open>Running the firewall programs\<close>

record 'h net_host =
  nh_run :: "command_spec \<Rightarrow> ('h, host_output) act"
  nh_netns_run :: "u32 \<Rightarrow> command_spec \<Rightarrow> ('h, host_output) act"
  nh_present :: "'h \<Rightarrow> string \<Rightarrow> bool"
  nh_member :: "'h \<Rightarrow> string \<Rightarrow> bool"
  nh_exists :: "'h \<Rightarrow> string \<Rightarrow> bool result"
  nh_disable_ipv6 :: "string \<Rightarrow> 'h \<Rightarrow> 'h"
  nh_sleep :: "nat \<Rightarrow> 'h \<Rightarrow> 'h"

text \<open>The host and the binary that \<open>detect_iptables\<close> has found.\<close>

record 'h net =
  nt_host :: 'h
  nt_detected :: "string option"

definition on_host :: "('h, 'a) act \<Rightarrow> ('h net, 'a) act" where
  "on_host m st = (case m (nt_host st) of (r, h) \<Rightarrow> (r, st\<lparr> nt_host := h \<rparr>))"

definition run_net :: "'h net_host \<Rightarrow> command_spec \<Rightarrow> ('h net, host_output) act" where
  "run_net N cmd = on_host (nh_run N cmd)"

fun probe_candidates :: "'h net_host \<Rightarrow> string list \<Rightarrow> ('h net, string) act" where
  "probe_candidates N [] = pure (bail ''no iptables binary found'')"
| "probe_candidates N (candidate # rest) =
     try_act (run_net N (host_cmd candidate [''--version''])) (\<lambda>probe.
       case probe of
         Inr out \<Rightarrow> if ho_success out then pure (Inr candidate) else probe_candidates N rest
       | Inl _ \<Rightarrow> probe_candidates N rest)"

definition probe_iptables :: "'h net_host \<Rightarrow> ('h net, string) act" where
  "probe_iptables N = probe_candidates N [''iptables-nft'', ''iptables-legacy'', ''iptables'']"

definition detect_iptables :: "'h net_host \<Rightarrow> ('h net, string) act" where
  "detect_iptables N st =
     (case nt_detected st of
        Some binary \<Rightarrow> (Inr binary, st)
      | None \<Rightarrow> then_act (probe_iptables N) (\<lambda>binary st. (Inr binary, st\<lparr> nt_detected := Some binary \<rparr>)) st)"

definition run_iptables_dump :: "'h net_host \<Rightarrow> string \<Rightarrow> ('h net, string) act" where
  "run_iptables_dump N iptables =
     then_act (context_act ''failed to list firewall rules'' (run_checked (run_net N) (host_cmd iptables [''-S''])))
       (\<lambda>out. pure (Inr (ho_stdout out)))"

definition anti_spoof_chains_present :: "'h net_host \<Rightarrow> string \<Rightarrow> string \<Rightarrow> string \<Rightarrow> ('h net, string list) act" where
  "anti_spoof_chains_present N iptables veth_host assigned_ip =
     then_act (run_iptables_dump N iptables) (\<lambda>dump.
       pure (Inr (chains_with_anti_spoof_rule dump veth_host assigned_ip)))"

definition anti_spoof_chains_for :: "'h net_host \<Rightarrow> string \<Rightarrow> string \<Rightarrow> ('h net, string list) act" where
  "anti_spoof_chains_for N veth_host assigned_ip =
     then_act (detect_iptables N) (\<lambda>iptables. anti_spoof_chains_present N iptables veth_host assigned_ip)"

definition to_lower :: "string \<Rightarrow> string" where
  "to_lower s = map to_ascii_lowercase s"

definition is_rule_already_exists_error :: "string \<Rightarrow> bool" where
  "is_rule_already_exists_error stderr =
     (let msg = to_lower stderr in
      contains_str ''rule already exists'' msg \<or> contains_str ''rule is duplicated'' msg \<or>
      contains_str ''file exists'' msg \<and> contains_str ''rule in chain'' msg)"

definition is_rule_missing_error :: "string \<Rightarrow> bool" where
  "is_rule_missing_error stderr =
     (let msg = to_lower stderr in
      contains_str ''no chain/target/match by that name'' msg \<or>
      contains_str ''does a matching rule exist in that chain'' msg)"

definition ensure_rule :: "'h net_host \<Rightarrow> string \<Rightarrow> string \<Rightarrow> string \<Rightarrow> string list \<Rightarrow> bool \<Rightarrow> ('h net, unit) act" where
  "ensure_rule N iptables table ch rule_args insert_first =
     then_act (context_act ''failed to check the rule''
         (run_net N (host_cmd iptables ([''-t'', table, ''-C'', ch] @ rule_args)))) (\<lambda>check.
       if ho_success check then pure (Inr ())
       else then_act (context_act ''failed to add the rule'' (run_net N (host_cmd iptables
           ((if insert_first then [''-t'', table, ''-I'', ch, ''1''] else [''-t'', table, ''-A'', ch]) @ rule_args))))
         (\<lambda>out. pure (if \<not> ho_success out \<and> \<not> is_rule_already_exists_error (ho_stderr out)
                      then bail ''failed to add the rule'' else Inr ())))"

definition delete_rule :: "'h net_host \<Rightarrow> string \<Rightarrow> string \<Rightarrow> string \<Rightarrow> string list \<Rightarrow> ('h net, unit) act" where
  "delete_rule N iptables table ch rule_args =
     then_act (context_act ''failed to remove the rule''
         (run_net N (host_cmd iptables ([''-t'', table, ''-D'', ch] @ rule_args)))) (\<lambda>out.
       pure (if \<not> ho_success out \<and> \<not> is_rule_missing_error (ho_stderr out)
             then bail ''failed to remove the rule'' else Inr ()))"

definition remove_filter_rule :: "'h net_host \<Rightarrow> string \<Rightarrow> string \<Rightarrow> string list \<Rightarrow> ('h net, unit) act" where
  "remove_filter_rule N iptables ch rule_args = delete_rule N iptables ''filter'' ch rule_args"

definition remove_owned_rule :: "'h net_host \<Rightarrow> owned_rule \<Rightarrow> ('h net, unit) act" where
  "remove_owned_rule N rule =
     then_act (detect_iptables N) (\<lambda>iptables.
       delete_rule N iptables (or_table rule) (or_chain rule) (split_rule_args (or_rule rule)))"

text \<open>The lines of a script for \<open>iptables-restore\<close>.\<close>

definition restore_line :: "string \<Rightarrow> string list \<Rightarrow> string" where
  "restore_line command args = command @ concat (map (\<lambda>a. '' '' @ quote_restore_argument a) args) @ [CHR 0x0A]"

definition restore_script :: "string list \<Rightarrow> string" where
  "restore_script ls = ''*filter'' @ [CHR 0x0A] @ concat ls @ ''COMMIT'' @ [CHR 0x0A]"

definition run_restore :: "'h net_host \<Rightarrow> string \<Rightarrow> string \<Rightarrow> string \<Rightarrow> ('h net, unit) act" where
  "run_restore N iptables script failure =
     then_act (context_act failure (run_net N
         \<lparr> hc_program = restore_binary_for iptables, hc_args = [''--noflush''], hc_stdin = script \<rparr>)) (\<lambda>out.
       pure (if ho_success out then Inr () else bail failure))"

definition insert_filter_rules_first :: "'h net_host \<Rightarrow> string \<Rightarrow> (string \<times> string list) list \<Rightarrow> ('h net, unit) act" where
  "insert_filter_rules_first N iptables rules =
     (if rules = [] then pure (Inr ())
      else run_restore N iptables
        (restore_script (map (\<lambda>(ch, args). restore_line (''-I '' @ ch @ '' 1'') args) (rev rules)))
        ''failed to add the rules'')"

definition delete_filter_rules :: "'h net_host \<Rightarrow> string \<Rightarrow> (string \<times> string list) list \<Rightarrow> ('h net, unit) act" where
  "delete_filter_rules N iptables rules =
     (if rules = [] then pure (Inr ())
      else run_restore N iptables
        (restore_script (map (\<lambda>(ch, args). restore_line (''-D '' @ ch) args) rules))
        ''failed to delete the rules'')"

section \<open>Installing and removing\<close>

definition ensure_workspace_anti_spoofing :: "'h net_host \<Rightarrow> string \<Rightarrow> string \<Rightarrow> string \<Rightarrow> ('h net, unit) act" where
  "ensure_workspace_anti_spoofing N veth_host assigned_ip workspace_id =
     then_act (detect_iptables N) (\<lambda>iptables.
     then_act (anti_spoof_chains_present N iptables veth_host assigned_ip) (\<lambda>present.
       let rule = anti_spoof_rule_args veth_host assigned_ip (Some workspace_id) in
       insert_filter_rules_first N iptables
         ((if ''INPUT'' \<notin> set present then [(''INPUT'', rule)] else []) @
          (if ''FORWARD'' \<notin> set present then [(''FORWARD'', rule)] else []))))"

definition REMOVE_ATTEMPTS :: nat where
  "REMOVE_ATTEMPTS = 3"

text \<open>The attempts that are left, the first argument, and the number of the attempt.\<close>

fun remove_with_retry :: "nat \<Rightarrow> nat \<Rightarrow> 'h net_host \<Rightarrow> string \<Rightarrow> string \<Rightarrow> string list \<Rightarrow> ('h net, unit) act" where
  "remove_with_retry 0 attempt N iptables ch rule_args = pure (bail ''failed to remove the rule'')"
| "remove_with_retry (Suc left) attempt N iptables ch rule_args =
     try_act (remove_filter_rule N iptables ch rule_args) (\<lambda>res.
       case res of
         Inr _ \<Rightarrow> pure (Inr ())
       | Inl e \<Rightarrow>
           if left = 0 then pure (Inl e)
           else (\<lambda>st. remove_with_retry left (Suc attempt) N iptables ch rule_args
                   (st\<lparr> nt_host := nh_sleep N (20 * (attempt + 1)) (nt_host st) \<rparr>)))"

definition remove_filter_rule_with_retry :: "'h net_host \<Rightarrow> string \<Rightarrow> string \<Rightarrow> string list \<Rightarrow> ('h net, unit) act" where
  "remove_filter_rule_with_retry N iptables ch rule_args =
     remove_with_retry REMOVE_ATTEMPTS 0 N iptables ch rule_args"

fun remove_each :: "'h net_host \<Rightarrow> string \<Rightarrow> (string \<times> string list) list \<Rightarrow> ('h net, unit) act" where
  "remove_each N iptables [] = pure (Inr ())"
| "remove_each N iptables ((ch, args) # rest) =
     then_act (remove_filter_rule_with_retry N iptables ch args) (\<lambda>_. remove_each N iptables rest)"

definition remove_listed_anti_spoof_rules :: "'h net_host \<Rightarrow> string \<Rightarrow> string \<Rightarrow> string \<Rightarrow> string \<Rightarrow> ('h net, unit) act" where
  "remove_listed_anti_spoof_rules N iptables dump veth_host assigned_ip =
     (let owned = map (\<lambda>(ch, rule). (ch, split_rule_args rule)) (anti_spoof_rules dump veth_host assigned_ip) in
      if owned = [] then pure (Inr ())
      else try_act (delete_filter_rules N iptables owned) (\<lambda>res.
        if is_ok res then pure (Inr ()) else remove_each N iptables owned))"

definition verify_anti_spoofing_absent :: "'h net_host \<Rightarrow> string \<Rightarrow> string \<Rightarrow> string \<Rightarrow> ('h net, unit) act" where
  "verify_anti_spoofing_absent N iptables veth_host assigned_ip =
     then_act (anti_spoof_chains_present N iptables veth_host assigned_ip) (\<lambda>remaining.
       pure (if remaining \<noteq> [] then bail ''the anti-spoofing rule still exists after removal'' else Inr ()))"

definition remove_workspace_anti_spoofing :: "'h net_host \<Rightarrow> string \<Rightarrow> string \<Rightarrow> ('h net, unit) act" where
  "remove_workspace_anti_spoofing N veth_host assigned_ip =
     then_act (detect_iptables N) (\<lambda>iptables.
     then_act (run_iptables_dump N iptables) (\<lambda>dump.
     then_act (remove_listed_anti_spoof_rules N iptables dump veth_host assigned_ip) (\<lambda>_.
       verify_anti_spoofing_absent N iptables veth_host assigned_ip)))"

section \<open>Printing and splitting arguments\<close>

lemma plain_byte_range: "plain_byte c \<Longrightarrow> 33 \<le> byte c \<and> byte c < 127 \<and> c \<noteq> CHR 0x22"
  by (auto simp: plain_byte_def ascii_defs in_range_def byte_def)

lemma ws_len_range: "33 \<le> byte c \<Longrightarrow> byte c < 127 \<Longrightarrow> ws_len (c # s) = 0"
  by (auto simp: ws_len_def ws1_def ws2_def ws3_def split: list.splits)

definition bare_byte :: "char \<Rightarrow> bool" where
  "bare_byte c \<longleftrightarrow> 33 \<le> byte c \<and> byte c < 127 \<and> c \<noteq> CHR 0x22"

lemma split_args_bare:
  "list_all bare_byte a \<Longrightarrow>
     split_args False p cur 0 (a @ s) = split_args False (p \<or> a \<noteq> []) (cur @ a) 0 s"
proof (induction a arbitrary: p cur)
  case (Cons c a)
  then show ?case using ws_len_range [of c "a @ s"] by (simp add: bare_byte_def)
qed simp

lemma split_args_plain:
  "list_all plain_byte a \<Longrightarrow>
     split_args False p cur 0 (a @ s) = split_args False (p \<or> a \<noteq> []) (cur @ a) 0 s"
  by (rule split_args_bare) (auto simp: list_all_iff bare_byte_def dest: plain_byte_range)

lemma split_args_quoted:
  "CHR 0x22 \<notin> set a \<Longrightarrow>
     split_args True True cur 0 (a @ CHR 0x22 # s) = split_args False True (cur @ a) 0 s"
  by (induction a arbitrary: cur) auto

definition quotable :: "string \<Rightarrow> bool" where
  "quotable a \<longleftrightarrow> CHR 0x22 \<notin> set a \<and> CHR 0x5C \<notin> set a"

lemma escape_quotable: "quotable a \<Longrightarrow> escape_restore a = a"
  by (induction a) (auto simp: quotable_def)

lemma split_args_argument:
  assumes "quotable a"
  shows "split_args False False [] 0 (quote_restore_argument a @ s) = split_args False True a 0 s"
proof (cases "a \<noteq> [] \<and> list_all plain_byte a")
  case True
  then show ?thesis using split_args_plain [of a False "[]" s] by (simp add: quote_restore_argument_def)
next
  case False
  then show ?thesis
    using assms split_args_quoted [of a "[]" s]
    by (auto simp: quote_restore_argument_def escape_quotable quotable_def)
qed

lemma ws_len_space [simp]: "ws_len (CHR '' '' # s) = 1"
  by (simp add: ws_len_def ws1_def byte_def)

lemma split_join_quoted:
  assumes "list_all quotable args"
  shows "split_rule_args (join_with '' '' (map quote_restore_argument args)) = args"
  unfolding split_rule_args_def using assms
proof (induction args rule: induct_list012)
  case (2 a)
  then show ?case using split_args_argument [of a "[]"] by simp
next
  case (3 a b args)
  then show ?case
    using split_args_argument [of a "'' '' @ join_with '' '' (map quote_restore_argument (b # args))"] by simp
qed simp

lemma split_join_bare:
  assumes "list_all (\<lambda>a. a \<noteq> [] \<and> list_all bare_byte a) args"
  shows "split_rule_args (join_with '' '' args) = args"
  unfolding split_rule_args_def using assms
proof (induction args rule: induct_list012)
  case (2 a)
  then show ?case using split_args_bare [of a False "[]" "[]"] by simp
next
  case (3 a b args)
  then show ?case
    using split_args_bare [of a False "[]" "'' '' @ join_with '' '' (b # args)"] by simp
qed simp

text \<open>C36: The arguments of a rule survive printing: splitting the text of a rule, with its arguments quoted as
  they are written for the firewall and separated by blanks, gives the arguments back, also those that are
  empty or contain blanks, as long as none contains a quote or a backslash.
\<close>

theorem rule_args_roundtrip:
  assumes "list_all quotable args"
  shows "split_rule_args (join_with '' '' (map quote_restore_argument args)) = args"
  using assms by (rule split_join_quoted)

theorem rule_args_roundtrip_witness:
  "split_rule_args (join_with '' '' (map quote_restore_argument [''-i'', ''veth-10-00ff00'', ''enclave: w 1'', []])) =
     [''-i'', ''veth-10-00ff00'', ''enclave: w 1'', []]"
  by (rule rule_args_roundtrip) (simp add: quotable_def)

section \<open>The rule of an interface\<close>

text \<open>The rule that is installed, as a listing prints it: in its own order, or with the negated match first.\<close>

definition listed_rule :: "string \<Rightarrow> string \<Rightarrow> string option \<Rightarrow> bool \<Rightarrow> string list" where
  "listed_rule veth_host assigned_ip owner normalized =
     (if normalized
      then [''!'', ''-s'', assigned_ip @ ''/32'', ''-i'', veth_host] @
        (case owner of None \<Rightarrow> [] | Some owner \<Rightarrow> comment_args owner) @ [''-j'', ''DROP'']
      else anti_spoof_rule_args veth_host assigned_ip owner)"

lemma listed_rule_quotable:
  assumes "quotable veth_host" "quotable assigned_ip" "\<And>x. owner = Some x \<Longrightarrow> quotable x"
  shows "list_all quotable (listed_rule veth_host assigned_ip owner normalized)"
  using assms
  by (auto simp: listed_rule_def anti_spoof_rule_args_def comment_args_def COMMENT_MODULE_def
      RULE_COMMENT_PREFIX_def quotable_def split: option.splits)

lemma any_window2_append: "any_window2 p ys \<Longrightarrow> any_window2 p (xs @ ys)"
proof (induction xs)
  case (Cons x xs)
  then show ?case by (cases "xs @ ys") auto
qed simp

lemma listed_rule_recognized:
  assumes "quotable veth_host" "quotable assigned_ip" "\<And>x. owner = Some x \<Longrightarrow> quotable x"
  shows "is_anti_spoof_rule (join_with '' '' (map quote_restore_argument
    (listed_rule veth_host assigned_ip owner normalized))) veth_host assigned_ip"
proof -
  have split: "split_rule_args (join_with '' '' (map quote_restore_argument
      (listed_rule veth_host assigned_ip owner normalized))) = listed_rule veth_host assigned_ip owner normalized"
    by (rule split_join_quoted [OF listed_rule_quotable [OF assms]])
  show ?thesis
    unfolding is_anti_spoof_rule_def split Let_def
    by (auto simp: listed_rule_def anti_spoof_rule_args_def comment_args_def intro!: any_window2_append split: option.splits)
qed

lemma add_new_empty: "add_new seen xs = [] \<longleftrightarrow> seen = [] \<and> xs = []"
  by (induction seen xs rule: add_new.induct) auto

lemma no_anti_spoof_chains:
  assumes "chains_with_anti_spoof_rule dump veth_host assigned_ip = []" "ch \<in> {''INPUT'', ''FORWARD''}"
    and "''-A '' @ ch @ '' '' @ rule \<in> set (text_lines dump)"
  shows "\<not> is_anti_spoof_rule rule veth_host assigned_ip"
proof
  assume "is_anti_spoof_rule rule veth_host assigned_ip"
  then have "(ch, rule) \<in> set (anti_spoof_rules dump veth_host assigned_ip)"
    using assms(2,3)
    by (auto simp: anti_spoof_rules_def map_filter_def strip_prefix_Some_iff
        intro!: image_eqI [where x = "''-A '' @ ch @ '' '' @ rule"] split: option.splits)
  then show False using assms(1) by (simp add: chains_with_anti_spoof_rule_def add_new_empty)
qed

lemma anti_spoofing_removed:
  assumes "remove_workspace_anti_spoofing N veth_host assigned_ip st = (Inr (), st')"
  obtains iptables out st1 where "run_checked (run_net N) (host_cmd iptables [''-S'']) st1 = (Inr out, st')"
    "chains_with_anti_spoof_rule (ho_stdout out) veth_host assigned_ip = []"
  using assms
  by (auto simp: remove_workspace_anti_spoofing_def verify_anti_spoofing_absent_def anti_spoof_chains_present_def
      run_iptables_dump_def act_simps result_simps split: if_splits)

text \<open>C37: A removal of the anti-spoofing rules that reports success has proved it: the last thing it did was to
  list the rules, and in that listing neither chain has a rule that drops other source addresses of the
  interface, in particular none that a start installs, with any owner's comment or without one, in the
  installed or in the printed order.
\<close>

theorem anti_spoofing_removal_verified:
  assumes "remove_workspace_anti_spoofing N veth_host assigned_ip st = (Inr (), st')"
  shows "\<exists>iptables out st1. run_checked (run_net N) (host_cmd iptables [''-S'']) st1 = (Inr out, st') \<and>
    (\<forall>ch rule. ch \<in> {''INPUT'', ''FORWARD''} \<longrightarrow> ''-A '' @ ch @ '' '' @ rule \<in> set (text_lines (ho_stdout out)) \<longrightarrow>
       \<not> is_anti_spoof_rule rule veth_host assigned_ip) \<and>
    (\<forall>ch owner normalized. ch \<in> {''INPUT'', ''FORWARD''} \<longrightarrow> quotable veth_host \<longrightarrow> quotable assigned_ip \<longrightarrow>
       (\<forall>x. owner = Some x \<longrightarrow> quotable x) \<longrightarrow>
       ''-A '' @ ch @ '' '' @ join_with '' '' (map quote_restore_argument
         (listed_rule veth_host assigned_ip owner normalized)) \<notin> set (text_lines (ho_stdout out)))"
proof -
  obtain iptables out st1 where o: "run_checked (run_net N) (host_cmd iptables [''-S'']) st1 = (Inr out, st')"
    "chains_with_anti_spoof_rule (ho_stdout out) veth_host assigned_ip = []"
    using assms by (rule anti_spoofing_removed)
  then show ?thesis using no_anti_spoof_chains [OF o(2)] listed_rule_recognized by metis
qed

text \<open>A host whose state is its listing; a restore empties it.\<close>

definition sample_net :: "string net_host" where
  "sample_net = \<lparr>
     nh_run = (\<lambda>cmd h. (Inr \<lparr> ho_success = True, ho_stdout = (if hc_args cmd = [''-S''] then h else []), ho_stderr = [] \<rparr>,
       if hc_args cmd = [''--noflush''] then [] else h)),
     nh_netns_run = (\<lambda>_ _ h. (bail ''no namespace'', h)), nh_present = (\<lambda>_ _. False), nh_member = (\<lambda>_ _. False),
     nh_exists = (\<lambda>_ _. Inr False), nh_disable_ipv6 = (\<lambda>_ h. h), nh_sleep = (\<lambda>_ h. h) \<rparr>"

definition sample_listing :: string where
  "sample_listing = ''-A INPUT ! -s 1/32 -i v -j DROP'' @ [CHR 0x0A]"

lemma sample_removal:
  "remove_workspace_anti_spoofing sample_net ''v'' ''1''
     \<lparr> nt_host = sample_listing, nt_detected = Some ''iptables'' \<rparr> = (Inr (), \<lparr> nt_host = [], nt_detected = Some ''iptables'' \<rparr>)"
  by code_simp

theorem anti_spoofing_removal_verified_witness:
  "anti_spoof_rules sample_listing ''v'' ''1'' \<noteq> [] \<and>
   (\<exists>iptables out st1. run_checked (run_net sample_net) (host_cmd iptables [''-S'']) st1 =
      (Inr out, \<lparr> nt_host = [], nt_detected = Some ''iptables'' \<rparr>) \<and>
      ''-A '' @ ''INPUT'' @ '' '' @ join_with '' '' (map quote_restore_argument
        (listed_rule ''v'' ''1'' (Some ''w'') True)) \<notin> set (text_lines (ho_stdout out)))"
proof -
  have q: "quotable ''v''" "quotable ''1''" "quotable ''w''" by (simp_all add: quotable_def)
  obtain iptables out st1 where run: "run_checked (run_net sample_net) (host_cmd iptables [''-S'']) st1 =
      (Inr out, \<lparr> nt_host = [], nt_detected = Some ''iptables'' \<rparr>)"
    and absent: "\<forall>ch owner normalized. ch \<in> {''INPUT'', ''FORWARD''} \<longrightarrow> quotable ''v'' \<longrightarrow> quotable ''1'' \<longrightarrow>
       (\<forall>x. owner = Some x \<longrightarrow> quotable x) \<longrightarrow>
       ''-A '' @ ch @ '' '' @ join_with '' '' (map quote_restore_argument
         (listed_rule ''v'' ''1'' owner normalized)) \<notin> set (text_lines (ho_stdout out))"
    using anti_spoofing_removal_verified [OF sample_removal] by (elim exE conjE) (rule that)
  have "''-A '' @ ''INPUT'' @ '' '' @ join_with '' '' (map quote_restore_argument
      (listed_rule ''v'' ''1'' (Some ''w'') True)) \<notin> set (text_lines (ho_stdout out))"
    by (rule absent [rule_format]) (simp_all add: q)
  moreover have "anti_spoof_rules sample_listing ''v'' ''1'' \<noteq> []" by code_simp
  ultimately show ?thesis using run by blast
qed

end
