(* ===== verification/Network_Names.thy ===== *)
theory Network_Names
  imports Workspace_Invariants
begin

text \<open>
  The names of the host interfaces (\<open>network/veth.rs\<close>) and the addresses they stand for: a workspace's
  interface is named after its host octet and a hash of the workspace id, so that a listing of the bridge
  names the octets other daemons use (\<open>network/mod.rs\<close>).
\<close>

section \<open>Names\<close>

definition hex_digit :: "nat \<Rightarrow> char" where
  "hex_digit d = (if d < 10 then char_of (48 + d) else char_of (87 + d))"

definition is_ascii_hexdigit :: "char \<Rightarrow> bool" where
  "is_ascii_hexdigit c \<longleftrightarrow> is_ascii_digit c \<or> in_range (CHR ''a'') (CHR ''f'') c \<or> in_range (CHR ''A'') (CHR ''F'') c"

text \<open>\<open>{:06x}\<close> of a value below \<open>2 ^ 24\<close>\<close>

definition hex6 :: "u32 \<Rightarrow> string" where
  "hex6 w = map (\<lambda>i. hex_digit (unat w div 16 ^ i mod 16)) [5, 4, 3, 2, 1, 0]"

definition workspace_id_hash :: "string \<Rightarrow> u32" where
  "workspace_id_hash workspace_id =
     foldl (\<lambda>h c. (h * 0x01000193) XOR of_nat (byte c)) 0x811c9dc5 workspace_id AND 0x00ffffff"

definition workspace_hash :: "string \<Rightarrow> string" where
  "workspace_hash workspace_id = hex6 (workspace_id_hash workspace_id)"

definition veth_names :: "u8 \<Rightarrow> string \<Rightarrow> string \<times> string" where
  "veth_names host workspace_id =
     (''veth-'' @ show_u8 host @ ''-'' @ workspace_hash workspace_id, ''eth0'')"

definition hash_from_name :: "string \<Rightarrow> string option" where
  "hash_from_name name =
     (case strip_prefix ''veth-'' name of
        None \<Rightarrow> None
      | Some rest \<Rightarrow>
          (case split_once (CHR ''-'') rest of
             None \<Rightarrow> None
           | Some (octet, hash) \<Rightarrow>
               if octet = [] \<or> length octet > 3 \<or> \<not> list_all is_ascii_digit octet \<or>
                  length hash \<noteq> 6 \<or> \<not> list_all is_ascii_hexdigit hash
               then None else Some hash))"

definition is_enclave_veth_name :: "string \<Rightarrow> bool" where
  "is_enclave_veth_name name \<longleftrightarrow> hash_from_name name \<noteq> None"

definition octet_from_veth_name :: "string \<Rightarrow> u8 option" where
  "octet_from_veth_name name =
     (case hash_from_name name of
        None \<Rightarrow> None
      | Some _ \<Rightarrow>
          (case strip_prefix ''veth-'' name of
             None \<Rightarrow> None
           | Some rest \<Rightarrow>
               (case split_once (CHR ''-'') rest of
                  None \<Rightarrow> None
                | Some (octet, _) \<Rightarrow> map_option of_nat (parse_uint 255 octet))))"

lemma unat_u8_less: "unat h < 2 ^ 8" for h :: u8
  using unsigned_less [of h] by simp

lemma workspace_hash_form:
  "length (workspace_hash workspace_id) = 6" "list_all is_ascii_hexdigit (workspace_hash workspace_id)"
proof -
  have "is_ascii_hexdigit (hex_digit d)" if "d < 16" for d
    using that by (auto simp: hex_digit_def is_ascii_hexdigit_def ascii_defs in_range_def byte_char_of)
  then show "list_all is_ascii_hexdigit (workspace_hash workspace_id)"
    by (simp add: workspace_hash_def hex6_def)
qed (simp add: workspace_hash_def hex6_def)

lemma show_u8_form: "list_all is_ascii_digit (show_u8 h)" "show_u8 h \<noteq> []" "length (show_u8 h) \<le> 3"
  using length_dec_string_le [of "unat h" 3] unat_u8_less [of h]
  by (simp_all add: show_u8_def dec_string_digits)

lemma veth_name_split:
  "split_once (CHR ''-'') (show_u8 h @ CHR ''-'' # hash) = Some (show_u8 h, hash)"
  using digit_not_in_dec_string [of "CHR ''-''" "unat h"]
  by (simp add: split_once_Some_iff show_u8_def is_ascii_digit_iff byte_def)

lemma hash_of_veth_name: "hash_from_name (fst (veth_names h workspace_id)) = Some (workspace_hash workspace_id)"
  using workspace_hash_form [of workspace_id] show_u8_form [of h]
  by (simp add: hash_from_name_def veth_names_def veth_name_split)

text \<open>
  The name of a workspace's interface reads back: it is recognized as one of Enclave's, its hash is that
  of the workspace and its octet is the one the interface carries, and it has at most the fifteen bytes
  the kernel allows.
\<close>

lemma veth_name_roundtrip:
  "let name = fst (veth_names h workspace_id) in
     hash_from_name name = Some (workspace_hash workspace_id) \<and> octet_from_veth_name name = Some h \<and> length name \<le> 15"
proof -
  have "parse_uint 255 (show_u8 h) = Some (unat h)"
    using unat_u8_less [of h] by (simp add: show_u8_def)
  then show ?thesis
    using hash_of_veth_name [of h workspace_id] workspace_hash_form(1) [of workspace_id] show_u8_form(3) [of h]
    by (simp add: Let_def octet_from_veth_name_def veth_names_def veth_name_split)
qed

section \<open>Octets on the bridge\<close>

text \<open>The interfaces of the host and whether each is a member of the bridge.\<close>

definition host_veth_octets_held_by_others :: "string list \<Rightarrow> (string \<Rightarrow> bool) \<Rightarrow> string list \<Rightarrow> u8 list" where
  "host_veth_octets_held_by_others interfaces is_bridge_member own_hashes =
     List.map_filter octet_from_veth_name
       (filter (\<lambda>name. case hash_from_name name of None \<Rightarrow> False | Some hash \<Rightarrow> hash \<notin> set own_hashes)
         (filter is_bridge_member (filter is_enclave_veth_name interfaces)))"

definition own_hashes :: "registry \<Rightarrow> string list" where
  "own_hashes r = map (\<lambda>w. workspace_hash (wm_id w)) (all_workspaces r)"

lemma held_octet:
  assumes "name \<in> set interfaces" "is_bridge_member name" "hash_from_name name = Some hash" "hash \<notin> set own"
    and "octet_from_veth_name name = Some h"
  shows "h \<in> set (host_veth_octets_held_by_others interfaces is_bridge_member own)"
  using assms
  by (force simp: host_veth_octets_held_by_others_def is_enclave_veth_name_def map_filter_def)

text \<open>C34: A reserved address is free on the whole host: its octet is held by no record of the registry and
  carried by no interface on the bridge whose hash is not that of one of this daemon's workspaces.
\<close>

theorem reserved_address_free:
  assumes "mark_workspace_starting h daemon_max
      (host_veth_octets_held_by_others interfaces is_bridge_member (own_hashes r)) sid wid r = Inr (ip, r')"
  shows "\<exists>octet. parse_host_octet ip = Some octet \<and>
    (\<forall>sid' wid' w. get_workspace r sid' wid' = Some w \<longrightarrow> host_octet w \<noteq> Some octet) \<and>
    (\<forall>name hash. name \<in> set interfaces \<longrightarrow> is_bridge_member name \<longrightarrow> hash_from_name name = Some hash \<longrightarrow>
       hash \<notin> set (own_hashes r) \<longrightarrow> octet_from_veth_name name \<noteq> Some octet)"
proof -
  let ?held = "host_veth_octets_held_by_others interfaces is_bridge_member (own_hashes r)"
  obtain octet where o: "parse_host_octet ip = Some octet" "octet \<notin> set (collect_all_used_ip_octets ?held r)"
    using assms by (auto elim!: mark_workspace_starting_Inr allocated_fresh)
  moreover have "octet \<notin> set ?held" using o(2) by (simp add: collect_all_used_ip_octets_def)
  ultimately show ?thesis
    using used_octet [of r _ _ _ octet ?held] held_octet [of _ interfaces is_bridge_member _ "own_hashes r" octet]
    by blast
qed

text \<open>Two workspaces, neither with an address, and an interface that a start of the first left on the bridge.\<close>

definition two_stopped :: registry where
  "two_stopped = registry_default\<lparr> reg_sandboxes :=
     [(''s'', \<lparr> rs_metadata = blank_sandbox ''s'',
        rs_workspaces = [(''a'', blank_workspace ''s'' ''a''), (''b'', blank_workspace ''s'' ''b'')] \<rparr>)] \<rparr>"

definition leftover_interface :: string where
  "leftover_interface = fst (veth_names 10 ''a'')"

lemma two_stopped_reservation:
  assumes "host_veth_octets_held_by_others interfaces is_bridge_member (own_hashes two_stopped) = []"
  shows "mark_workspace_starting (sample_host :: unit ws_host) None
    (host_veth_octets_held_by_others interfaces is_bridge_member (own_hashes two_stopped)) ''s'' ''b'' two_stopped =
    Inr (sample_ip, update_workspace ''s'' ''b''
      (\<lambda>_. (blank_workspace ''s'' ''b'')\<lparr> wm_status := WsStarting, wm_assigned_ip := Some sample_ip \<rparr>) two_stopped)"
proof -
  have "ensure_start_capacity None ''s'' ''b'' two_stopped = Inr ()"
    by (simp add: ensure_start_capacity_def two_stopped_def get_sandbox_def blank_sandbox_def at_limit_def)
  moreover have "collect_all_used_ip_octets [] two_stopped = []"
    by (simp add: collect_all_used_ip_octets_def all_workspaces_def two_stopped_def blank_workspace_def
        host_octet_def List.map_filter_def)
  moreover have "get_workspace two_stopped ''s'' ''b'' = Some (blank_workspace ''s'' ''b'')"
    by (simp add: two_stopped_def get_workspace_def get_sandbox_def)
  ultimately show ?thesis
    unfolding assms by (simp add: mark_workspace_starting_def sample_ip_allocated on_workspace_def sample_host_def)
qed

theorem reserved_address_free_witness:
  "\<exists>octet. parse_host_octet sample_ip = Some octet \<and>
     host_octet (the (get_workspace two_stopped ''s'' ''a'')) \<noteq> Some octet"
proof -
  have "host_veth_octets_held_by_others [] (\<lambda>_. True) (own_hashes two_stopped) = []"
    by (simp add: host_veth_octets_held_by_others_def map_filter_def)
  note free = reserved_address_free [OF two_stopped_reservation [OF this]]
  have "get_workspace two_stopped ''s'' ''a'' = Some (blank_workspace ''s'' ''a'')"
    by (simp add: two_stopped_def get_workspace_def get_sandbox_def)
  with free show ?thesis by fastforce
qed


end
