(* ===== verification/Network_Teardown.thy ===== *)
theory Network_Teardown
  imports Firewall Network_Names
begin

text \<open>
  Attaching a workspace to the network and detaching it (\<open>network/veth.rs\<close>, \<open>network/teardown.rs\<close>,
  \<open>network/cleanup.rs\<close>, \<open>network/mod.rs\<close>): the batches of \<open>ip\<close> commands, the removal of an interface with
  its retries and the check that it is gone, and the report of a teardown.
\<close>

section \<open>Removing an interface\<close>

definition interface_is_workspace_veth :: "'h net_host \<Rightarrow> 'h \<Rightarrow> string \<Rightarrow> bool" where
  "interface_is_workspace_veth N h veth_host \<longleftrightarrow> is_enclave_veth_name veth_host \<and> nh_member N h veth_host"

definition is_retryable_delete_error :: "string \<Rightarrow> bool" where
  "is_retryable_delete_error stderr =
     (let message = to_lower stderr in
      contains_str ''resource busy'' message \<or> contains_str ''temporarily unavailable'' message \<or>
      contains_str ''operation in progress'' message)"

fun poll_veth_absent :: "nat list \<Rightarrow> 'h net_host \<Rightarrow> string \<Rightarrow> ('h net, unit) act" where
  "poll_veth_absent [] N veth_host st = (bail ''veth is still present after deletion'', st)"
| "poll_veth_absent (delay # delays) N veth_host st =
     (let st' = st\<lparr> nt_host := nh_sleep N delay (nt_host st) \<rparr> in
      if \<not> nh_present N (nt_host st') veth_host then (Inr (), st')
      else poll_veth_absent delays N veth_host st')"

definition verify_veth_absent :: "'h net_host \<Rightarrow> string \<Rightarrow> ('h net, unit) act" where
  "verify_veth_absent N veth_host st =
     (if \<not> nh_present N (nt_host st) veth_host then (Inr (), st)
      else poll_veth_absent [25, 50] N veth_host st)"

text \<open>The attempts left; the code's loop never runs out of them, so the first equation is not reached.\<close>

fun delete_veth :: "nat \<Rightarrow> nat \<Rightarrow> 'h net_host \<Rightarrow> string \<Rightarrow> ('h net, unit) act" where
  "delete_veth 0 attempt N veth_host = pure (bail ''unreachable'')"
| "delete_veth (Suc left) attempt N veth_host =
     then_act (context_act ''failed to delete veth'' (run_net N (host_cmd ''ip'' [''link'', ''delete'', veth_host])))
       (\<lambda>out st.
          if ho_success out then verify_veth_absent N veth_host st
          else if \<not> nh_present N (nt_host st) veth_host then (Inr (), st)
          else if \<not> is_retryable_delete_error (stderr_text out) \<or> left = 0
          then (bail ''ip link delete failed'', st)
          else delete_veth left (Suc attempt) N veth_host
                 (st\<lparr> nt_host := nh_sleep N (25 * (attempt + 1)) (nt_host st) \<rparr>))"

definition remove_veth :: "'h net_host \<Rightarrow> string \<Rightarrow> ('h net, unit) act" where
  "remove_veth N veth_host st =
     (if \<not> interface_is_workspace_veth N (nt_host st) veth_host then (Inr (), st)
      else if \<not> nh_present N (nt_host st) veth_host then (Inr (), st)
      else delete_veth 3 0 N veth_host st)"

section \<open>The report of a teardown\<close>

record network_failure =
  nf_resource :: string
  nf_message :: anyhow

record network_report =
  nw_workspace_id :: string
  nw_assigned_ip :: string
  nw_veth_host :: "string option"
  nw_anti_spoof_rules_absent :: bool
  nw_veth_absent :: bool
  nw_failures :: "network_failure list"

definition network_is_complete :: "network_report \<Rightarrow> bool" where
  "network_is_complete report \<longleftrightarrow> nw_veth_host report \<noteq> None \<and> nw_anti_spoof_rules_absent report \<and>
     nw_veth_absent report \<and> nw_failures report = []"

definition network_failed :: "string \<Rightarrow> string \<Rightarrow> string \<Rightarrow> anyhow \<Rightarrow> network_report" where
  "network_failed workspace_id assigned_ip resource error =
     \<lparr> nw_workspace_id = workspace_id, nw_assigned_ip = assigned_ip, nw_veth_host = None,
       nw_anti_spoof_rules_absent = False, nw_veth_absent = False,
       nw_failures = [\<lparr> nf_resource = resource, nf_message = error \<rparr>] \<rparr>"

definition teardown_workspace_network :: "'h net_host \<Rightarrow> string \<Rightarrow> string \<Rightarrow> 'h net \<Rightarrow> network_report \<times> 'h net" where
  "teardown_workspace_network N assigned_ip workspace_id st =
     (case parse_host_octet assigned_ip of
        None \<Rightarrow> (network_failed workspace_id assigned_ip ''workspace-ip'' (Message ''invalid Enclave workspace IP''), st)
      | Some octet \<Rightarrow>
          let veth_host = fst (veth_names octet workspace_id);
              (rules, st1) = remove_workspace_anti_spoofing N veth_host assigned_ip st;
              (veth, st2) = remove_veth N veth_host st1
          in (\<lparr> nw_workspace_id = workspace_id, nw_assigned_ip = assigned_ip, nw_veth_host = Some veth_host,
                nw_anti_spoof_rules_absent = is_ok rules, nw_veth_absent = is_ok veth,
                nw_failures =
                  (case rules of Inl e \<Rightarrow> [\<lparr> nf_resource = ''anti-spoofing-rules'', nf_message = e \<rparr>] | Inr _ \<Rightarrow> []) @
                  (case veth of Inl e \<Rightarrow> [\<lparr> nf_resource = ''veth'', nf_message = e \<rparr>] | Inr _ \<Rightarrow> []) \<rparr>, st2))"

text \<open>The reports of a batch: a worker that stored no result is reported as a failure.\<close>

definition batch_reports :: "(string \<times> string) list \<Rightarrow> network_report option list \<Rightarrow> network_report list" where
  "batch_reports workspaces results =
     map (\<lambda>((ip, workspace_id), result).
       case result of
         Some report \<Rightarrow> report
       | None \<Rightarrow> network_failed workspace_id ip ''cleanup-worker''
           (Message ''network cleanup worker did not return a result'')) (zip workspaces results)"

section \<open>Attaching\<close>

definition BRIDGE_NAME :: string where
  "BRIDGE_NAME = ''enclave0''"

definition newline :: string where
  "newline = [CHR 0x0A]"

definition host_veth_batch :: "string \<Rightarrow> string \<Rightarrow> u32 \<Rightarrow> string" where
  "host_veth_batch host peer pid =
     ''link add '' @ host @ '' type veth peer name '' @ peer @ '' netns '' @ dec_string (unat pid) @ newline @
     ''link set '' @ host @ '' master '' @ BRIDGE_NAME @ newline @
     ''link set '' @ host @ '' type bridge_slave isolated on'' @ newline @
     ''link set '' @ host @ '' up'' @ newline"

definition batch_cmd :: "string \<Rightarrow> command_spec" where
  "batch_cmd commands = \<lparr> hc_program = ''ip'', hc_args = [''-batch'', ''-''], hc_stdin = commands \<rparr>"

definition run_ip_batch :: "'h net_host \<Rightarrow> string \<Rightarrow> ('h net, host_output) act" where
  "run_ip_batch N commands = context_act ''failed to run network batch command'' (run_net N (batch_cmd commands))"

definition run_ip :: "'h net_host \<Rightarrow> string list \<Rightarrow> ('h net, unit) act" where
  "run_ip N args =
     then_act (context_act ''failed to run ip'' (run_ip_batch N (join_with '' '' args @ newline))) (\<lambda>out.
       pure (if ho_success out then Inr () else bail ''ip failed''))"

definition configure_host_veth :: "'h net_host \<Rightarrow> string \<Rightarrow> string \<Rightarrow> u32 \<Rightarrow> ('h net, unit) act" where
  "configure_host_veth N host peer pid =
     then_act (context_act ''host veth setup failed'' (run_ip_batch N (host_veth_batch host peer pid))) (\<lambda>_ st.
       (Inr (), st\<lparr> nt_host := nh_disable_ipv6 N host (nt_host st) \<rparr>))"

definition default_route_output_has_route :: "string \<Rightarrow> string \<Rightarrow> string \<Rightarrow> bool" where
  "default_route_output_has_route stdout iface gateway_ip =
     list_ex (\<lambda>line. contains_str ''default'' line \<and> contains_str gateway_ip line \<and> contains_str iface line)
       (text_lines stdout)"

definition GATEWAY_IP :: string where
  "GATEWAY_IP = ''10.200.0.1''"

definition netns_batch :: "string \<Rightarrow> string \<Rightarrow> string" where
  "netns_batch interface workspace_ip =
     ''link set lo up'' @ newline @
     ''addr add '' @ workspace_ip @ ''/24 dev '' @ interface @ newline @
     ''link set '' @ interface @ '' up'' @ newline @
     ''route replace default via '' @ GATEWAY_IP @ '' dev '' @ interface @ newline @
     ''route show default'' @ newline"

definition configure_workspace_netns :: "'h net_host \<Rightarrow> u32 \<Rightarrow> string \<Rightarrow> string \<Rightarrow> ('h net, unit) act" where
  "configure_workspace_netns N pid interface workspace_ip =
     then_act (context_act ''failed to configure network namespace''
         (on_host (nh_netns_run N pid (batch_cmd (netns_batch interface workspace_ip))))) (\<lambda>out.
       pure (if ho_success out \<and> default_route_output_has_route (ho_stdout out) interface GATEWAY_IP
             then Inr () else bail ''workspace network namespace did not install the expected route''))"

definition setup_workspace_networking :: "'h net_host \<Rightarrow> u32 \<Rightarrow> string \<Rightarrow> string \<Rightarrow> string \<Rightarrow> ('h net, unit) act" where
  "setup_workspace_networking N pid workspace_ip veth_host veth_peer =
     then_act (\<lambda>st. (nh_exists N (nt_host st) veth_host, st)) (\<lambda>exists_already.
     then_act (\<lambda>st.
         if \<not> exists_already then (Inr (), st)
         else if \<not> interface_is_workspace_veth N (nt_host st) veth_host
         then (bail ''interface already exists on the host and is not a workspace interface'', st)
         else context_act ''failed to remove the leftover workspace interface''
                (run_ip N [''link'', ''del'', veth_host]) st) (\<lambda>_.
     try_act (then_act (configure_host_veth N veth_host veth_peer pid)
                (\<lambda>_. configure_workspace_netns N pid veth_peer workspace_ip)) (\<lambda>result.
       case result of
         Inr _ \<Rightarrow> pure (Inr ())
       | Inl e \<Rightarrow> try_act (run_ip N [''link'', ''del'', veth_host]) (\<lambda>cleanup.
           pure (with_context (if is_ok cleanup then ''cleaned up partial veth setup''
                               else ''failed to clean up partial veth setup'') (Inl e))))))"

text \<open>The provisioning of DNS, hosts and apt files in the workspace's root is an input. An address outside the
  subnet, on which the code panics, is refused by its caller.\<close>

definition attach_workspace_network :: "'h net_host \<Rightarrow> ('h net, unit) act \<Rightarrow> u32 \<Rightarrow> string \<Rightarrow> string \<Rightarrow> ('h net, unit) act" where
  "attach_workspace_network N provision pid ip workspace_id =
     (case parse_host_octet ip of
        None \<Rightarrow> pure (bail ''allocate_ip returned invalid IP'')
      | Some octet \<Rightarrow>
          let (veth_host, veth_peer) = veth_names octet workspace_id in
          try_act
            (then_act (context_act ''failed to set up networking for workspace''
                (setup_workspace_networking N pid ip veth_host veth_peer)) (\<lambda>_.
             then_act (context_act ''failed to install anti-spoofing rules''
                (ensure_workspace_anti_spoofing N veth_host ip workspace_id)) (\<lambda>_. provision)))
            (\<lambda>result st.
               case result of
                 Inr _ \<Rightarrow> (Inr (), st)
               | Inl e \<Rightarrow>
                   (case teardown_workspace_network N ip workspace_id st of
                      (report, st') \<Rightarrow>
                        (if network_is_complete report then Inl e
                         else Inl (Context ''workspace network rollback incomplete'' e), st'))))"

section \<open>What a teardown shows\<close>

lemma poll_veth_absent_ok:
  "poll_veth_absent delays N veth_host st = (Inr (), st') \<Longrightarrow> \<not> nh_present N (nt_host st') veth_host"
  by (induction delays arbitrary: st) (auto simp: Let_def split: if_splits)

lemma verify_veth_absent_ok:
  "verify_veth_absent N veth_host st = (Inr (), st') \<Longrightarrow> \<not> nh_present N (nt_host st') veth_host"
  by (auto simp: verify_veth_absent_def simp del: poll_veth_absent.simps split: if_splits dest: poll_veth_absent_ok)

lemma delete_veth_ok:
  "delete_veth left attempt N veth_host st = (Inr (), st') \<Longrightarrow> \<not> nh_present N (nt_host st') veth_host"
proof (induction left arbitrary: attempt st)
  case (Suc left)
  then show ?case by (auto simp: act_simps split: if_splits dest: verify_veth_absent_ok)
qed simp

lemma remove_veth_ok:
  assumes "remove_veth N veth_host st = (Inr (), st')"
  shows "\<not> interface_is_workspace_veth N (nt_host st) veth_host \<and> st' = st \<or> \<not> nh_present N (nt_host st') veth_host"
  using assms by (auto simp: remove_veth_def split: if_splits dest: delete_veth_ok)

text \<open>C38: A network teardown whose report is complete has detached the workspace: the rules were listed after
  their removal and neither chain has an anti-spoofing rule for the interface and the address; and then
  the interface was gone, or it was not an interface of Enclave's on the bridge and nothing was done to it.
\<close>

theorem complete_teardown_detaches:
  assumes "teardown_workspace_network N ip workspace_id st = (report, st')" "network_is_complete report"
  shows "\<exists>octet veth_host iptables out st1 st2. parse_host_octet ip = Some octet \<and>
    veth_host = fst (veth_names octet workspace_id) \<and>
    run_checked (run_net N) (host_cmd iptables [''-S'']) st1 = (Inr out, st2) \<and>
    chains_with_anti_spoof_rule (ho_stdout out) veth_host ip = [] \<and>
    (\<not> nh_present N (nt_host st') veth_host \<or>
     \<not> interface_is_workspace_veth N (nt_host st2) veth_host \<and> st' = st2)"
proof -
  obtain octet where octet: "parse_host_octet ip = Some octet"
    using assms by (auto simp: teardown_workspace_network_def network_failed_def network_is_complete_def
        split: option.splits)
  define v where "v = fst (veth_names octet workspace_id)"
  obtain rules st2 where r: "remove_workspace_anti_spoofing N v ip st = (rules, st2)" by fastforce
  obtain veth st3 where d: "remove_veth N v st2 = (veth, st3)" by fastforce
  have ok: "rules = Inr ()" "veth = Inr ()" "st3 = st'"
    using assms octet r d by (auto simp: teardown_workspace_network_def Let_def network_is_complete_def v_def
        is_ok_iff split: sum.splits)
  obtain iptables out st1 where "run_checked (run_net N) (host_cmd iptables [''-S'']) st1 = (Inr out, st2)"
    "chains_with_anti_spoof_rule (ho_stdout out) v ip = []"
    using anti_spoofing_removed r ok(1) by metis
  moreover have "\<not> nh_present N (nt_host st') v \<or> \<not> interface_is_workspace_veth N (nt_host st2) v \<and> st' = st2"
    using remove_veth_ok [of N v st2 st'] d ok by auto
  ultimately show ?thesis using octet v_def by blast
qed

lemma sample_teardown:
  "\<exists>report. teardown_workspace_network sample_net sample_ip ''w'' \<lparr> nt_host = [], nt_detected = Some ''iptables'' \<rparr> =
     (report, \<lparr> nt_host = [], nt_detected = Some ''iptables'' \<rparr>) \<and> network_is_complete report"
proof -
  have none: "anti_spoof_rules [] v ip = []" for v ip
    by (simp add: anti_spoof_rules_def text_lines_def map_filter_def)
  have "remove_workspace_anti_spoofing sample_net v ip \<lparr> nt_host = [], nt_detected = Some ''iptables'' \<rparr> =
      (Inr (), \<lparr> nt_host = [], nt_detected = Some ''iptables'' \<rparr>)" for v ip
    by (simp add: remove_workspace_anti_spoofing_def detect_iptables_def run_iptables_dump_def then_act_def
        context_act_def run_checked_def run_net_def on_host_def sample_net_def remove_listed_anti_spoof_rules_def
        none verify_anti_spoofing_absent_def anti_spoof_chains_present_def chains_with_anti_spoof_rule_def host_cmd_def
        with_context_def)
  then show ?thesis
    by (simp add: teardown_workspace_network_def sample_ip_allocated network_is_complete_def remove_veth_def
        interface_is_workspace_veth_def sample_net_def Let_def)
qed

theorem complete_teardown_detaches_witness:
  "\<exists>octet veth_host. parse_host_octet sample_ip = Some octet \<and> veth_host = fst (veth_names octet ''w'') \<and>
     (\<exists>iptables out st1 st2. run_checked (run_net sample_net) (host_cmd iptables [''-S'']) st1 = (Inr out, st2) \<and>
        chains_with_anti_spoof_rule (ho_stdout out) veth_host sample_ip = [])"
proof -
  obtain report where t: "teardown_workspace_network sample_net sample_ip ''w''
      \<lparr> nt_host = [], nt_detected = Some ''iptables'' \<rparr> = (report, \<lparr> nt_host = [], nt_detected = Some ''iptables'' \<rparr>)"
    "network_is_complete report" using sample_teardown by blast
  from complete_teardown_detaches [OF this] show ?thesis by (elim exE conjE) (intro exI conjI)
qed

text \<open>C39: The exit status of the batch that builds the host end of a workspace's interface is not looked at:
  when the batch ran but failed, so that the interface may not be on the bridge, isolated or up, and the
  namespace shows its default route, the setup reports success.
\<close>

theorem failed_host_batch_ignored:
  assumes "nh_exists N (nt_host st) veth_host = Inr False"
    and "nh_run N (batch_cmd (host_veth_batch veth_host veth_peer pid)) (nt_host st) = (Inr out, h1)"
    and "\<not> ho_success out"
    and "nh_netns_run N pid (batch_cmd (netns_batch veth_peer ip)) (nh_disable_ipv6 N veth_host h1) = (Inr shown, h2)"
    and "ho_success shown" "default_route_output_has_route (ho_stdout shown) veth_peer GATEWAY_IP"
  shows "setup_workspace_networking N pid ip veth_host veth_peer st = (Inr (), st\<lparr> nt_host := h2 \<rparr>)"
  using assms
  by (simp add: setup_workspace_networking_def configure_host_veth_def configure_workspace_netns_def
      run_ip_batch_def run_net_def on_host_def then_act_def try_act_def context_act_def with_context_def)

text \<open>A host on which the batch for the bridge fails.\<close>

definition failing_bridge :: "unit net_host" where
  "failing_bridge = \<lparr>
     nh_run = (\<lambda>_ h. (Inr \<lparr> ho_success = False, ho_stdout = [], ho_stderr = ''no such bridge'' \<rparr>, h)),
     nh_netns_run = (\<lambda>_ _ h. (Inr \<lparr> ho_success = True, ho_stdout = ''default via 10.200.0.1 dev eth0'', ho_stderr = [] \<rparr>, h)),
     nh_present = (\<lambda>_ _. True), nh_member = (\<lambda>_ _. False), nh_exists = (\<lambda>_ _. Inr False),
     nh_disable_ipv6 = (\<lambda>_ h. h), nh_sleep = (\<lambda>_ h. h) \<rparr>"

theorem failed_host_batch_ignored_witness:
  "setup_workspace_networking failing_bridge 7 ''10.200.0.10'' ''veth-10-00ff00'' ''eth0''
     \<lparr> nt_host = (), nt_detected = None \<rparr> = (Inr (), \<lparr> nt_host = (), nt_detected = None \<rparr>)"
proof -
  have route: "default_route_output_has_route ''default via 10.200.0.1 dev eth0'' ''eth0'' GATEWAY_IP" by code_simp
  show ?thesis
    using failed_host_batch_ignored [of failing_bridge "\<lparr> nt_host = (), nt_detected = None \<rparr>" "''veth-10-00ff00''"
        "''eth0''" 7 "\<lparr> ho_success = False, ho_stdout = [], ho_stderr = ''no such bridge'' \<rparr>" "()" "''10.200.0.10''"
        "\<lparr> ho_success = True, ho_stdout = ''default via 10.200.0.1 dev eth0'', ho_stderr = [] \<rparr>" "()"] route
    by (simp add: failing_bridge_def)
qed

end
