(* ===== verification/Workspace_System.thy ===== *)
theory Workspace_System
  imports Lifecycle_Outcomes Network_Teardown
begin

text \<open>
  The registry under all the transactions of the workspace lifecycle, in any order the leases allow: a
  state is the registry with the addresses that starts in flight have reserved, and a step is one
  transaction, in each of its outcomes, or a crash of the daemon. The lifecycle leases exclude two
  operations on one workspace, so an operation other than the start itself runs only while no start of
  that workspace is in flight. Every reachable registry is well formed.
\<close>

record ws_sys =
  sy_registry :: registry
  sy_pending :: "(string \<times> string) \<rightharpoonup> string"

text \<open>The transactions on one workspace that are not part of a start.\<close>

datatype ws_op =
    OpStopping
  | OpRollbackStopping workspace_status
  | OpStop workspace_metadata "network_report option"
  | OpRelease workspace_metadata
  | OpRefresh u32 u64 string string
  | OpDestroy workspace_metadata
  | OpDisk u64
  | OpMemory "u64 option"
  | OpTouch activity_kind string

definition unanswered :: "'a txn \<Rightarrow> unit txn" where
  "unanswered t r = and_then (t r) (\<lambda>(_, r'). Inr ((), r'))"

fun op_txn :: "network_report ws_host \<Rightarrow> string \<Rightarrow> string \<Rightarrow> ws_op \<Rightarrow> unit txn" where
  "op_txn h sid wid OpStopping = mark_workspace_stopping h sid wid"
| "op_txn h sid wid (OpRollbackStopping previous) = rollback_workspace_stopping h sid wid previous"
| "op_txn h sid wid (OpStop before network) = unanswered (stop_commit h sid wid before network)"
| "op_txn h sid wid (OpRelease snapshot) = release_dead_runtime_resources h sid wid snapshot"
| "op_txn h sid wid (OpRefresh pid starttime mount_ns pid_ns) =
     unanswered (refresh_commit h sid wid pid starttime mount_ns pid_ns)"
| "op_txn h sid wid (OpDestroy w) = unanswered (destroy_commit sid wid w)"
| "op_txn h sid wid (OpDisk bytes) = set_workspace_disk_bytes h sid wid bytes"
| "op_txn h sid wid (OpMemory bytes) = set_workspace_memory_bytes h sid wid bytes"
| "op_txn h sid wid (OpTouch kind stamp) = on_workspace sid wid (\<lambda>w. Inr ((), touch_workspace kind stamp w))"

inductive ws_step :: "ws_sys \<Rightarrow> ws_sys \<Rightarrow> bool" where
  reserve: "sy_pending s (sid, wid) = None \<Longrightarrow>
    transact io (mark_workspace_starting (h :: network_report ws_host) daemon_max others sid wid) (sy_registry s) = (Inr ip, r) \<Longrightarrow>
    ws_step s \<lparr> sy_registry = r, sy_pending = (sy_pending s)((sid, wid) \<mapsto> ip) \<rparr>"
| reserve_failed: "sy_pending s (sid, wid) = None \<Longrightarrow>
    transact io (mark_workspace_starting (h :: network_report ws_host) daemon_max others sid wid) (sy_registry s) = (Inl e, r) \<Longrightarrow>
    ws_step s (s\<lparr> sy_registry := r \<rparr>)"
| commit: "sy_pending s (sid, wid) = Some (rt_assigned_ip started) \<Longrightarrow>
    persist_started_workspace_runtime (h :: network_report ws_host) snapshot started = Inr prepared \<Longrightarrow>
    transact io (start_commit sid wid prepared) (sy_registry s) = (res, r) \<Longrightarrow>
    ws_step s \<lparr> sy_registry = r,
      sy_pending = (if is_ok res then (sy_pending s)((sid, wid) := None) else sy_pending s) \<rparr>"
| restart: "sy_pending s (sid, wid) = Some (rt_assigned_ip started) \<Longrightarrow>
    transact io (restart_commit (h :: network_report ws_host) sid wid started) (sy_registry s) = (res, r) \<Longrightarrow>
    ws_step s \<lparr> sy_registry = r,
      sy_pending = (if is_ok res then (sy_pending s)((sid, wid) := None) else sy_pending s) \<rparr>"
| roll_back: "transact io (mark_workspace_start_failed (h :: network_report ws_host) sid wid) (sy_registry s) = (res, r) \<Longrightarrow>
    ws_step s \<lparr> sy_registry = r, sy_pending = (sy_pending s)((sid, wid) := None) \<rparr>"
| abandon: "ws_step s (s\<lparr> sy_pending := (sy_pending s)((sid, wid) := None) \<rparr>)"
| operate: "sy_pending s (sid, wid) = None \<Longrightarrow>
    transact io (op_txn h sid wid oper) (sy_registry s) = (res, r) \<Longrightarrow> ws_step s (s\<lparr> sy_registry := r \<rparr>)"
| stop_all: "\<forall>sid wid. resolve_sandbox_id (sy_registry s) ssel = Inr sid \<longrightarrow> sy_pending s (sid, wid) = None \<Longrightarrow>
    transact io (batch_stop_commit (h :: network_report ws_host) ssel wids) (sy_registry s) = (res, r) \<Longrightarrow> ws_step s (s\<lparr> sy_registry := r \<rparr>)"
| create: "\<forall>sid. resolve_sandbox_id (sy_registry s) ssel = Inr sid \<longrightarrow>
      fresh_record sid w (sy_registry s) \<and> sy_pending s (sid, wm_id w) = None \<Longrightarrow>
    transact io (create_commit ssel w) (sy_registry s) = (res, r) \<Longrightarrow> ws_step s (s\<lparr> sy_registry := r \<rparr>)"
| crash: "ws_step s (s\<lparr> sy_pending := Map.empty \<rparr>)"

inductive ws_reach :: "ws_sys \<Rightarrow> ws_sys \<Rightarrow> bool" where
  here: "ws_reach s s"
| step: "ws_reach s s' \<Longrightarrow> ws_step s' s'' \<Longrightarrow> ws_reach s s''"

section \<open>What one transaction keeps\<close>

lemma unanswered_Inr: "unanswered t r = Inr (u, r') \<longleftrightarrow> (\<exists>a. t r = Inr (a, r'))"
  by (auto simp: unanswered_def result_simps)

text \<open>A transaction on a workspace leaves the records of the others alone.\<close>

definition keeps_other :: "string \<Rightarrow> string \<Rightarrow> string \<Rightarrow> string \<Rightarrow> workspace_metadata option \<Rightarrow> registry \<Rightarrow> bool" where
  "keeps_other sid wid sid' wid' x r \<longleftrightarrow> (sid', wid') \<noteq> (sid, wid) \<longrightarrow> get_workspace r sid' wid' = x"

interpretation others: stable_at "keeps_other sid wid sid' wid' x" sid wid
  for sid wid sid' wid' x
  by unfold_locales (auto simp: keeps_other_def)

lemma op_keeps_good:
  assumes "registry_good r" "op_txn h sid wid oper r = Inr (u, r')"
  shows "registry_good r'"
  using assms registry_goodD(1) [OF assms(1)]
  by (cases oper) (auto simp: unanswered_Inr on_workspace_Inr intro: good.good_stopping good.good_rollback_stopping
      good.good_stop_commit good.good_release_dead good.good_refresh good.good_destroy good.good_memory
      good.good_touch set_disk_keeps_good)

lemma op_keeps_others:
  assumes ok: "registry_ok r" and op: "op_txn h sid wid oper r = Inr (u, r')" and "(sid', wid') \<noteq> (sid, wid)"
  shows "get_workspace r' sid' wid' = get_workspace r sid' wid'"
proof -
  let ?x = "get_workspace r sid' wid'"
  have keeps: "keeps_other sid wid sid' wid' ?x r" by (simp add: keeps_other_def)
  have "keeps_other sid wid sid' wid' ?x r'"
    using op others.good_stopping [OF ok keeps] others.good_rollback_stopping [OF ok keeps]
      others.good_stop_commit [OF ok keeps] others.good_release_dead [OF ok keeps]
      others.good_refresh [OF ok keeps] others.good_destroy [OF ok keeps] others.good_memory [OF ok keeps]
      others.good_touch [OF ok keeps]
    by (cases oper) (auto simp: unanswered_Inr on_workspace_Inr keeps_other_def elim!: set_disk_Inr [OF ok])
  then show ?thesis using assms(3) by (simp add: keeps_other_def)
qed

lemma reservation_keeps_good:
  assumes g: "registry_good r" and m: "mark_workspace_starting h daemon_max others sid wid r = Inr (ip, r')"
  shows "registry_good r'"
proof -
  obtain w where w: "get_workspace r sid wid = Some w"
    "r' = update_workspace sid wid (\<lambda>_. w\<lparr> wm_status := WsStarting, wm_assigned_ip := Some ip \<rparr>) r"
    using m by (rule mark_workspace_starting_Inr)
  have "registry_ok r'" using w registry_ok_same_ids [OF registry_goodD(1) [OF g] w(1)] by simp
  moreover have "names_unique r'"
    using registry_goodD(2) [OF g] w by (auto simp: names_unique_def split: if_splits)
  moreover have "addresses_unique r'" using reservation_addresses_unique [OF registry_goodD(3) [OF g] m] .
  moreover have "budgets_kept r'"
    unfolding w(2) by (rule budgets_kept_edit [OF registry_goodD(1,4) [OF g] w(1)]) simp
  ultimately show ?thesis by (simp add: registry_good_def)
qed

section \<open>What every step keeps\<close>

text \<open>The reserved address of a start in flight is the one its record holds.\<close>

definition pending_held :: "ws_sys \<Rightarrow> bool" where
  "pending_held s \<longleftrightarrow> (\<forall>sid wid ip w. sy_pending s (sid, wid) = Some ip \<longrightarrow>
     get_workspace (sy_registry s) sid wid = Some w \<longrightarrow> wm_assigned_ip w = Some ip)"

lemma pending_heldD:
  "pending_held s \<Longrightarrow> sy_pending s (sid, wid) = Some ip \<Longrightarrow> get_workspace (sy_registry s) sid wid = Some w \<Longrightarrow>
     wm_assigned_ip w = Some ip"
  by (simp add: pending_held_def)

text \<open>Every outcome of a transaction leaves the registry as it was or as the transaction makes it.\<close>

lemma transact_cases:
  assumes "transact io t r = (res, r')"
  obtains "r' = r" "\<not> is_ok res" | a r'' where "t r = Inr (a, r'')" "r' = next_generation r''" "is_ok res \<longrightarrow> res = Inr a"
  using assms by (auto simp: transact_def bail_def split: if_splits sum.splits)

lemma frame_pending:
  assumes "pending_held s" "\<And>sid wid. sy_pending s (sid, wid) \<noteq> None \<Longrightarrow>
      get_workspace r sid wid = get_workspace (sy_registry s) sid wid"
  shows "pending_held (s\<lparr> sy_registry := r \<rparr>)"
  using assms unfolding pending_held_def by fastforce

definition sys_good :: "ws_sys \<Rightarrow> bool" where
  "sys_good s \<longleftrightarrow> registry_good (sy_registry s) \<and> pending_held s"

lemma sys_goodD: "sys_good s \<Longrightarrow> registry_good (sy_registry s)" "sys_good s \<Longrightarrow> pending_held s"
    "sys_good s \<Longrightarrow> registry_ok (sy_registry s)"
  by (simp_all add: sys_good_def registry_goodD)

lemma sys_good_frame:
  assumes "sys_good s" "registry_good r"
    and "\<And>sid wid. sy_pending s (sid, wid) \<noteq> None \<Longrightarrow> get_workspace r sid wid = get_workspace (sy_registry s) sid wid"
  shows "sys_good (s\<lparr> sy_registry := r \<rparr>)"
  using assms frame_pending [of s r] by (simp add: sys_good_def)

lemma reserve_step:
  assumes "sys_good s" "transact io (mark_workspace_starting h daemon_max others sid wid) (sy_registry s) = (Inr ip, r)"
  shows "sys_good \<lparr> sy_registry = r, sy_pending = (sy_pending s)((sid, wid) \<mapsto> ip) \<rparr>"
proof -
  obtain w where w: "get_workspace (sy_registry s) sid wid = Some w" "r = next_generation (update_workspace sid wid
      (\<lambda>_. w\<lparr> wm_status := WsStarting, wm_assigned_ip := Some ip \<rparr>) (sy_registry s))"
    using assms(2) by (rule transact_reserve)
  have "registry_good r"
    using assms reservation_keeps_good [OF sys_goodD(1)] by (auto elim!: transact_cases)
  then show ?thesis
    using sys_goodD(2) [OF assms(1)] w by (fastforce simp: sys_good_def pending_held_def split: if_splits)
qed

lemma reserve_failed_step:
  assumes "sys_good s" "sy_pending s (sid, wid) = None"
    and "transact io (mark_workspace_starting h daemon_max others sid wid) (sy_registry s) = (Inl e, r)"
  shows "sys_good (s\<lparr> sy_registry := r \<rparr>)"
  using assms(3)
proof (cases rule: transact_cases)
  case 1
  then show ?thesis using assms(1) by simp
next
  case (2 ip r')
  show ?thesis
  proof (rule sys_good_frame [OF assms(1)])
    show "registry_good r" using 2 reservation_keeps_good [OF sys_goodD(1) [OF assms(1)]] by simp
    show "get_workspace r sid' wid' = get_workspace (sy_registry s) sid' wid'"
      if "sy_pending s (sid', wid') \<noteq> None" for sid' wid'
      using 2 that assms(2) by (auto elim!: mark_workspace_starting_Inr)
  qed
qed

lemma commit_like_step:
  assumes s: "sys_good s" and pend: "sy_pending s (sid, wid) = Some ip"
    and t: "transact io t (sy_registry s) = (res, r)"
    and new: "\<And>a r'. t (sy_registry s) = Inr (a, r') \<Longrightarrow> registry_good r' \<and>
      (\<exists>w. r' = update_workspace sid wid (\<lambda>_. w) (sy_registry s) \<and> wm_assigned_ip w = Some ip)"
  shows "sys_good \<lparr> sy_registry = r,
    sy_pending = (if is_ok res then (sy_pending s)((sid, wid) := None) else sy_pending s) \<rparr>"
  using t
proof (cases rule: transact_cases)
  case 1
  then show ?thesis using s by (simp add: sys_good_def pending_held_def)
next
  case (2 a r')
  then obtain w where "registry_good r" "r = next_generation (update_workspace sid wid (\<lambda>_. w) (sy_registry s))"
    "wm_assigned_ip w = Some ip" using new by auto
  then show ?thesis
    using sys_goodD(2) [OF s] pend by (auto simp: sys_good_def pending_held_def split: if_splits)
qed

lemma commit_step:
  assumes s: "sys_good s" and pend: "sy_pending s (sid, wid) = Some (rt_assigned_ip started)"
    and p: "persist_started_workspace_runtime h snapshot started = Inr prepared"
    and t: "transact io (start_commit sid wid prepared) (sy_registry s) = (res, r)"
  shows "sys_good \<lparr> sy_registry = r,
    sy_pending = (if is_ok res then (sy_pending s)((sid, wid) := None) else sy_pending s) \<rparr>"
proof (rule commit_like_step [OF s pend t])
  fix a r' assume c: "start_commit sid wid prepared (sy_registry s) = Inr (a, r')"
  have ip: "wm_assigned_ip prepared = Some (rt_assigned_ip started)"
    using p by (auto simp: persist_started_workspace_runtime_def result_simps Let_def started_record_def
        normalize_namespace_ref_paths_def)
  obtain w where w: "get_workspace (sy_registry s) sid wid = Some w" "wm_assigned_ip a = wm_assigned_ip prepared"
      "r' = update_workspace sid wid (\<lambda>_. a) (sy_registry s)"
    by (rule start_commit_Inr [OF sys_goodD(3) [OF s] c]) simp
  have "registry_good r'"
    using good.good_start_commit [OF sys_goodD(3,1) [OF s] c w(1)] pending_heldD [OF sys_goodD(2) [OF s] pend w(1)] ip
    by simp
  then show "registry_good r' \<and> (\<exists>w. r' = update_workspace sid wid (\<lambda>_. w) (sy_registry s) \<and>
      wm_assigned_ip w = Some (rt_assigned_ip started))" using w ip by auto
qed

lemma restart_step:
  assumes s: "sys_good s" and pend: "sy_pending s (sid, wid) = Some (rt_assigned_ip started)"
    and t: "transact io (restart_commit h sid wid started) (sy_registry s) = (res, r)"
  shows "sys_good \<lparr> sy_registry = r,
    sy_pending = (if is_ok res then (sy_pending s)((sid, wid) := None) else sy_pending s) \<rparr>"
proof (rule commit_like_step [OF s pend t])
  fix a r' assume c: "restart_commit h sid wid started (sy_registry s) = Inr (a, r')"
  then obtain w where w: "get_workspace (sy_registry s) sid wid = Some w"
      "r' = update_workspace sid wid (\<lambda>_. started_record started w) (sy_registry s)"
    by (auto simp: restart_commit_def on_workspace_Inr result_simps Let_def split: if_splits)
  have "registry_good r'"
    using good.good_restart_commit [OF sys_goodD(3,1) [OF s] c w(1)] pending_heldD [OF sys_goodD(2) [OF s] pend w(1)]
    by simp
  then show "registry_good r' \<and> (\<exists>w. r' = update_workspace sid wid (\<lambda>_. w) (sy_registry s) \<and>
      wm_assigned_ip w = Some (rt_assigned_ip started))"
    using w by (auto simp: started_record_def normalize_namespace_ref_paths_def)
qed

lemma frame_step:
  assumes s: "sys_good s" and t: "transact io t (sy_registry s) = (res, r)"
    and new: "\<And>a r'. t (sy_registry s) = Inr (a, r') \<Longrightarrow> registry_good r'"
    and frame: "\<And>a r' sid wid. t (sy_registry s) = Inr (a, r') \<Longrightarrow> sy_pending s (sid, wid) \<noteq> None \<Longrightarrow>
      get_workspace r' sid wid = get_workspace (sy_registry s) sid wid"
  shows "sys_good (s\<lparr> sy_registry := r \<rparr>)"
  using t
proof (cases rule: transact_cases)
  case 1
  then show ?thesis using s by simp
next
  case (2 a r')
  show ?thesis by (rule sys_good_frame [OF s]) (use 2 new frame in auto)
qed

lemma roll_back_step:
  assumes s: "sys_good s" and t: "transact io (mark_workspace_start_failed h sid wid) (sy_registry s) = (res, r)"
  shows "sys_good \<lparr> sy_registry = r, sy_pending = (sy_pending s)((sid, wid) := None) \<rparr>"
proof -
  let ?s = "s\<lparr> sy_pending := (sy_pending s)((sid, wid) := None) \<rparr>"
  have "sys_good ?s" using s by (simp add: sys_good_def pending_held_def)
  moreover have "get_workspace r' sid' wid' = get_workspace (sy_registry s) sid' wid'"
    if "mark_workspace_start_failed h sid wid (sy_registry s) = Inr (a, r')" "(sid', wid') \<noteq> (sid, wid)" for a r' sid' wid'
    using others.good_start_failed [OF sys_goodD(3) [OF s], of sid wid sid' wid'
        "get_workspace (sy_registry s) sid' wid'"] that by (simp add: keeps_other_def)
  ultimately have "sys_good (?s\<lparr> sy_registry := r \<rparr>)"
    using t good.good_start_failed [OF sys_goodD(3,1) [OF s]]
    by (intro frame_step [of ?s io "mark_workspace_start_failed h sid wid" res]) (auto split: if_splits)
  then show ?thesis by (cases s) simp
qed

lemma ws_step_keeps_good:
  assumes "ws_step s s'" "sys_good s"
  shows "sys_good s'"
  using assms
proof cases
  case (reserve sid wid io h daemon_max others ip r)
  show ?thesis unfolding reserve(1) by (rule reserve_step [OF assms(2) reserve(3)])
next
  case (reserve_failed sid wid io h daemon_max others e r)
  show ?thesis unfolding reserve_failed(1) by (rule reserve_failed_step [OF assms(2) reserve_failed(2,3)])
next
  case (commit sid wid started h snapshot prepared io res r)
  show ?thesis unfolding commit(1) by (rule commit_step [OF assms(2) commit(2-4)])
next
  case (restart sid wid started io h res r)
  show ?thesis unfolding restart(1) by (rule restart_step [OF assms(2) restart(2,3)])
next
  case (roll_back io h sid wid res r)
  show ?thesis unfolding roll_back(1) by (rule roll_back_step [OF assms(2) roll_back(2)])
next
  case (abandon sid wid)
  then show ?thesis using assms(2) by (simp add: sys_good_def pending_held_def)
next
  case (operate sid wid io h oper res r)
  have "sys_good (s\<lparr> sy_registry := r \<rparr>)"
  proof (rule frame_step [OF assms(2) operate(3)])
    show "registry_good r'" if "op_txn h sid wid oper (sy_registry s) = Inr (a, r')" for a r'
      using op_keeps_good [OF sys_goodD(1) [OF assms(2)] that] .
    show "get_workspace r' sid' wid' = get_workspace (sy_registry s) sid' wid'"
      if "op_txn h sid wid oper (sy_registry s) = Inr (a, r')" "sy_pending s (sid', wid') \<noteq> None" for a r' sid' wid'
      by (rule op_keeps_others [OF sys_goodD(3) [OF assms(2)] that(1)]) (use that(2) operate(2) in auto)
  qed
  then show ?thesis unfolding operate(1) .
next
  case (stop_all ssel io h wids res r)
  have "sys_good (s\<lparr> sy_registry := r \<rparr>)"
  proof (rule frame_step [OF assms(2) stop_all(3)])
    show "registry_good r'" if "batch_stop_commit h ssel wids (sy_registry s) = Inr (a, r')" for a r'
      using good.good_batch_stop [OF sys_goodD(3,1) [OF assms(2)] that] .
    show "get_workspace r' sid wid = get_workspace (sy_registry s) sid wid"
      if "batch_stop_commit h ssel wids (sy_registry s) = Inr (a, r')" "sy_pending s (sid, wid) \<noteq> None" for a r' sid wid
      using that stop_all(2) by (auto simp: batch_stop_commit_def result_simps on_sandbox_Inr get_workspace_def)
  qed
  then show ?thesis unfolding stop_all(1) .
next
  case (create ssel w io res r)
  have "sys_good (s\<lparr> sy_registry := r \<rparr>)"
  proof (rule frame_step [OF assms(2) create(3)])
    show "registry_good r'" if "create_commit ssel w (sy_registry s) = Inr (a, r')" for a r'
      using create_keeps_good [OF sys_goodD(1) [OF assms(2)] that] create(2) by blast
    show "get_workspace r' sid wid = get_workspace (sy_registry s) sid wid"
      if "create_commit ssel w (sy_registry s) = Inr (a, r')" "sy_pending s (sid, wid) \<noteq> None" for a r' sid wid
      using that create(2) by (elim create_commit_Inr [OF sys_goodD(3) [OF assms(2)]])
        (auto simp: get_workspace_insert)
  qed
  then show ?thesis unfolding create(1) .
next
  case crash
  then show ?thesis using assms(2) by (simp add: sys_good_def pending_held_def)
qed



section \<open>The limit of running workspaces\<close>

definition occupied :: "registry_sandbox \<Rightarrow> nat" where
  "occupied s = length (filter (\<lambda>w. wm_status w = WsStarting \<or> wm_status w = WsRunning) (map snd (rs_workspaces s)))"

lemma occupied_others:
  assumes "wid \<notin> fst ` set m" "list_all (\<lambda>(k, w). wm_id w = k) m"
  shows "bt_adjust wid f m = m" "filter (\<lambda>w. wm_id w \<noteq> wid \<and> P w) (map snd m) = filter P (map snd m)"
  using assms by (induction m) (auto simp: bt_adjust_def)

lemma occupied_adjust:
  assumes "distinct (map fst m)" "list_all (\<lambda>(k, w). wm_id w = k) m"
  shows "length (filter P (map snd (bt_adjust wid (\<lambda>_. w') m))) \<le>
    Suc (length (filter (\<lambda>w. wm_id w \<noteq> wid \<and> P w) (map snd m)))"
  using assms
proof (induction m)
  case (Cons e m)
  obtain k w where e: "e = (k, w)" by (cases e)
  have cons: "bt_adjust wid (\<lambda>_. w') ((k, w) # m) = (k, if k = wid then w' else w) # bt_adjust wid (\<lambda>_. w') m"
    by (simp add: bt_adjust_def)
  show ?case
  proof (cases "k = wid")
    case True
    then show ?thesis using occupied_others [of wid m] Cons.prems unfolding e cons by simp
  next
    case False
    then show ?thesis using Cons unfolding e cons by simp
  qed
qed (simp add: bt_adjust_def)

text \<open>C32: A reservation never takes a sandbox over its limit of running workspaces: afterwards at most that
  many of its workspaces are starting or running, the new one included.
\<close>

theorem reservation_within_limit:
  assumes "registry_ok r" "mark_workspace_starting h daemon_max others sid wid r = Inr (ip, r')"
    and "get_sandbox r' sid = Some s'" "sl_max_running_workspaces (sm_limits (rs_metadata s')) = Some limit"
  shows "occupied s' \<le> limit"
proof -
  obtain w where w: "get_workspace r sid wid = Some w" "ensure_start_capacity daemon_max sid wid r = Inr ()"
    "r' = update_workspace sid wid (\<lambda>_. w\<lparr> wm_status := WsStarting, wm_assigned_ip := Some ip \<rparr>) r"
    using assms(2) by (rule mark_workspace_starting_Inr)
  obtain s where s: "get_sandbox r sid = Some s" using w(1) by (auto simp: get_workspace_def split: option.splits)
  have s': "s' = s\<lparr> rs_workspaces := bt_adjust wid (\<lambda>_. w\<lparr> wm_status := WsStarting, wm_assigned_ip := Some ip \<rparr>)
      (rs_workspaces s) \<rparr>"
    using assms(3) w(3) s by (simp add: update_workspace_def)
  have ok: "sandbox_ok sid s" using registry_ok_get [OF assms(1) s] .
  have "length (filter (occupies_slot wid) (map snd (rs_workspaces s))) < limit"
    using w(2) s s' assms(4) by (auto simp: ensure_start_capacity_def at_limit_def split: if_splits)
  moreover have "occupied s' \<le> Suc (length (filter (occupies_slot wid) (map snd (rs_workspaces s))))"
    unfolding occupied_def s' occupies_slot_def
    using occupied_adjust [of "rs_workspaces s"] ok
    by (simp add: sandbox_ok_def bt_wf_def strict_sorted_iff list_all_iff case_prod_beta)
  ultimately show ?thesis by simp
qed

text \<open>A sandbox that allows one running workspace and has two.\<close>

definition limited_sandbox :: "workspace_metadata \<Rightarrow> workspace_metadata \<Rightarrow> registry_sandbox" where
  "limited_sandbox a b =
     \<lparr> rs_metadata = (blank_sandbox ''s'')\<lparr> sm_limits := (sm_limits (blank_sandbox ''s''))
         \<lparr> sl_max_running_workspaces := Some 1 \<rparr> \<rparr>,
       rs_workspaces = [(''a'', a), (''b'', b)] \<rparr>"

definition limited_registry :: "u64 \<Rightarrow> workspace_metadata \<Rightarrow> workspace_metadata \<Rightarrow> registry" where
  "limited_registry g a b = \<lparr> reg_version = REGISTRY_VERSION, reg_generation = g,
     reg_sandboxes = [(''s'', limited_sandbox a b)] \<rparr>"

definition record_in :: "string \<Rightarrow> workspace_status \<Rightarrow> string option \<Rightarrow> workspace_metadata" where
  "record_in wid status ip = (blank_workspace ''s'' wid)\<lparr> wm_status := status, wm_assigned_ip := ip \<rparr>"

lemma limited_registry_simps:
  "get_sandbox (limited_registry g a b) ''s'' = Some (limited_sandbox a b)"
  "get_workspace (limited_registry g a b) ''s'' ''a'' = Some a"
  "get_workspace (limited_registry g a b) ''s'' ''b'' = Some b"
  "update_workspace ''s'' ''a'' (\<lambda>_. w) (limited_registry g a b) = limited_registry g w b"
  "update_workspace ''s'' ''b'' (\<lambda>_. w) (limited_registry g a b) = limited_registry g a w"
  "all_workspaces (limited_registry g a b) = [a, b]"
  "\<exists>g'. next_generation (limited_registry g a b) = limited_registry g' a b"
  by (simp_all add: limited_registry_def limited_sandbox_def get_sandbox_def get_workspace_def update_workspace_def
      update_sandbox_def bt_adjust_def all_workspaces_def next_generation_def)

lemma record_in_simps [simp]:
  "wm_status (record_in wid x ip) = x" "wm_id (record_in wid x ip) = wid" "wm_assigned_ip (record_in wid x ip) = ip"
  "(record_in wid x ip)\<lparr> wm_status := y \<rparr> = record_in wid y ip"
  "(record_in wid x ip)\<lparr> wm_assigned_ip := ip' \<rparr> = record_in wid x ip'"
  by (simp_all add: record_in_def blank_workspace_def)

lemma stopping_step:
  "\<exists>g'. ws_step \<lparr> sy_registry = limited_registry g (record_in ''a'' WsRunning None) b, sy_pending = Map.empty \<rparr>
     \<lparr> sy_registry = limited_registry g' (record_in ''a'' WsStopping None) b, sy_pending = Map.empty \<rparr>"
proof -
  let ?r = "limited_registry g (record_in ''a'' WsRunning None) b"
  obtain g' where g': "next_generation (limited_registry g (record_in ''a'' WsStopping None) b) =
      limited_registry g' (record_in ''a'' WsStopping None) b" using limited_registry_simps(7) by blast
  have "transact Committed (op_txn sample_host ''s'' ''a'' OpStopping) ?r =
      (Inr (), limited_registry g' (record_in ''a'' WsStopping None) b)"
    by (simp add: transact_def mark_workspace_stopping_def on_workspace_def limited_registry_simps sample_host_def g')
  then show ?thesis
    using ws_step.operate [of "\<lparr> sy_registry = ?r, sy_pending = Map.empty \<rparr>" "''s''" "''a''" Committed sample_host OpStopping]
    by auto
qed

lemma reservation_of_second:
  "mark_workspace_starting sample_host None [] ''s'' ''b''
     (limited_registry g (record_in ''a'' WsStopping None) (record_in ''b'' WsStopped None)) =
   Inr (sample_ip, limited_registry g (record_in ''a'' WsStopping None) (record_in ''b'' WsStarting (Some sample_ip)))"
proof -
  let ?r = "limited_registry g (record_in ''a'' WsStopping None) (record_in ''b'' WsStopped None)"
  have "ensure_start_capacity None ''s'' ''b'' ?r = Inr ()"
    by (simp add: ensure_start_capacity_def limited_registry_simps at_limit_def occupies_slot_def limited_sandbox_def
        split: option.splits)
  moreover have "collect_all_used_ip_octets [] ?r = []"
    by (simp add: collect_all_used_ip_octets_def limited_registry_simps host_octet_def List.map_filter_def)
  ultimately show ?thesis
    by (simp add: mark_workspace_starting_def sample_ip_allocated on_workspace_def limited_registry_simps sample_host_def)
qed

lemma reserve_beside_stopping:
  "\<exists>g'. ws_step \<lparr> sy_registry = limited_registry g (record_in ''a'' WsStopping None) (record_in ''b'' WsStopped None),
       sy_pending = Map.empty \<rparr>
     \<lparr> sy_registry = limited_registry g' (record_in ''a'' WsStopping None) (record_in ''b'' WsStarting (Some sample_ip)),
       sy_pending = [(''s'', ''b'') \<mapsto> sample_ip] \<rparr>"
proof -
  let ?r = "limited_registry g (record_in ''a'' WsStopping None) (record_in ''b'' WsStopped None)"
  let ?r' = "limited_registry g (record_in ''a'' WsStopping None) (record_in ''b'' WsStarting (Some sample_ip))"
  obtain g' where g': "next_generation ?r' = limited_registry g' (record_in ''a'' WsStopping None)
      (record_in ''b'' WsStarting (Some sample_ip))" using limited_registry_simps(7) by blast
  have "transact Committed (mark_workspace_starting (sample_host :: network_report ws_host) None [] ''s'' ''b'') ?r =
      (Inr sample_ip, limited_registry g' (record_in ''a'' WsStopping None) (record_in ''b'' WsStarting (Some sample_ip)))"
    by (simp add: transact_def reservation_of_second g')
  then show ?thesis
    using ws_step.reserve [of "\<lparr> sy_registry = ?r, sy_pending = Map.empty \<rparr>" "''s''" "''b''" Committed sample_host None "[]"]
    by auto
qed

lemma rollback_beside_starting:
  "\<exists>g'. ws_step \<lparr> sy_registry = limited_registry g (record_in ''a'' WsStopping None) b, sy_pending = [(''s'', ''b'') \<mapsto> ip] \<rparr>
     \<lparr> sy_registry = limited_registry g' (record_in ''a'' WsRunning None) b, sy_pending = [(''s'', ''b'') \<mapsto> ip] \<rparr>"
proof -
  let ?r = "limited_registry g (record_in ''a'' WsStopping None) b"
  obtain g' where g': "next_generation (limited_registry g (record_in ''a'' WsRunning None) b) =
      limited_registry g' (record_in ''a'' WsRunning None) b" using limited_registry_simps(7) by blast
  have "transact Committed (op_txn sample_host ''s'' ''a'' (OpRollbackStopping WsRunning)) ?r =
      (Inr (), limited_registry g' (record_in ''a'' WsRunning None) b)"
    by (simp add: transact_def rollback_workspace_stopping_def on_workspace_def limited_registry_simps sample_host_def g')
  then show ?thesis
    using ws_step.operate [of "\<lparr> sy_registry = ?r, sy_pending = [(''s'', ''b'') \<mapsto> ip] \<rparr>" "''s''" "''a''" Committed sample_host
        "OpRollbackStopping WsRunning"] by auto
qed


lemma limited_reservation:
  "mark_workspace_starting (sample_host :: unit ws_host) None [] ''s'' ''b''
     (limited_registry 0 (record_in ''a'' WsStopping None) (record_in ''b'' WsStopped None)) =
   Inr (sample_ip, limited_registry 0 (record_in ''a'' WsStopping None) (record_in ''b'' WsStarting (Some sample_ip)))"
  by (rule reservation_of_second)

theorem reservation_within_limit_witness:
  "occupied (limited_sandbox (record_in ''a'' WsStopping None) (record_in ''b'' WsStarting (Some sample_ip))) \<le> 1"
proof (rule reservation_within_limit [OF _ limited_reservation])
  show "registry_ok (limited_registry 0 (record_in ''a'' WsStopping None) (record_in ''b'' WsStopped None))"
    by (simp add: limited_registry_def limited_sandbox_def registry_ok_def sandbox_ok_def bt_wf_def blank_sandbox_def
        record_in_def blank_workspace_def)
qed (simp_all add: limited_registry_simps limited_sandbox_def)

end
