(* ===== verification/Bridge.thy ===== *)
theory Bridge
  imports Network_Teardown
begin

text \<open>
  The host side all workspaces share (\<open>network/bridge.rs\<close>, \<open>network/nat/forwarding.rs\<close>,
  \<open>network/nat/inventory.rs\<close>, \<open>network/mod.rs\<close>): the bridge and its address, the check that the subnet is
  free, and the tagged rules that keep workspaces from the host, from each other and from the cloud
  metadata service.
\<close>

section \<open>Reading addresses\<close>

fun after_inet :: "string list \<Rightarrow> string option" where
  "after_inet [] = None"
| "after_inet (field # tokens) =
     (if field = ''inet'' then (case tokens of [] \<Rightarrow> None | address # _ \<Rightarrow> Some address) else after_inet tokens)"

definition parse_ipv4_addresses :: "string \<Rightarrow> string list" where
  "parse_ipv4_addresses output = List.map_filter (\<lambda>line. after_inet (split_whitespace line)) (text_lines output)"

definition parse_ipv4_addresses_by_interface :: "string \<Rightarrow> (string \<times> string) list" where
  "parse_ipv4_addresses_by_interface output =
     List.map_filter (\<lambda>line.
       case split_whitespace line of
         [] \<Rightarrow> None
       | index # tokens \<Rightarrow>
           if index = [] \<or> last index \<noteq> CHR '':'' then None
           else (case tokens of
                   [] \<Rightarrow> None
                 | interface # rest \<Rightarrow> map_option (\<lambda>address. (interface, address)) (after_inet rest)))
       (text_lines output)"

definition parse_subnet_conflicts :: "string \<Rightarrow> string list" where
  "parse_subnet_conflicts output =
     map (\<lambda>(interface, address). interface @ '' ('' @ address @ '')'')
       (filter (\<lambda>(interface, address). interface \<noteq> BRIDGE_NAME \<and> is_in_subnet address)
         (parse_ipv4_addresses_by_interface output))"

section \<open>The bridge\<close>

text \<open>What is read from \<open>/sys\<close> and \<open>/proc\<close>, and the write of the IPv6 switch.\<close>

record 'h bridge_host =
  bh_net :: "'h net_host"
  bh_exists :: "'h \<Rightarrow> bool"
  bh_members :: "'h \<Rightarrow> string list result"
  bh_forwarding :: "'h \<Rightarrow> string result"
  bh_disable_ipv6 :: "('h, unit) act"

definition bridge_ip :: "'h bridge_host \<Rightarrow> string list \<Rightarrow> ('h net, unit) act" where
  "bridge_ip B args =
     then_act (context_act ''failed to run ip'' (run_checked (run_net (bh_net B)) (host_cmd ''ip'' args)))
       (\<lambda>_. pure (Inr ()))"

definition BRIDGE_ADDRESS :: string where
  "BRIDGE_ADDRESS = GATEWAY_IP @ ''/24''"

definition subnet_conflicts :: "'h bridge_host \<Rightarrow> ('h net, string list) act" where
  "subnet_conflicts B =
     then_act (context_act ''failed to list host IPv4 addresses''
         (run_checked (run_net (bh_net B)) (host_cmd ''ip'' [''-o'', ''-4'', ''addr'', ''show''])))
       (\<lambda>out. pure (Inr (parse_subnet_conflicts (ho_stdout out))))"

definition ensure_subnet_available :: "'h bridge_host \<Rightarrow> ('h net, unit) act" where
  "ensure_subnet_available B =
     then_act (subnet_conflicts B) (\<lambda>conflicts.
       pure (if conflicts = [] then Inr () else bail ''the Enclave subnet is already in use''))"

definition create_bridge :: "'h bridge_host \<Rightarrow> ('h net, unit) act" where
  "create_bridge B = context_act ''failed to create the bridge''
     (bridge_ip B [''link'', ''add'', BRIDGE_NAME, ''type'', ''bridge''])"

definition assign_bridge_address :: "'h bridge_host \<Rightarrow> ('h net, unit) act" where
  "assign_bridge_address B = context_act ''failed to assign address to the bridge''
     (bridge_ip B [''addr'', ''add'', BRIDGE_ADDRESS, ''dev'', BRIDGE_NAME])"

definition ensure_bridge_up :: "'h bridge_host \<Rightarrow> ('h net, unit) act" where
  "ensure_bridge_up B = context_act ''failed to bring up the bridge''
     (bridge_ip B [''link'', ''set'', BRIDGE_NAME, ''up''])"

definition ensure_bridge_address :: "'h bridge_host \<Rightarrow> ('h net, unit) act" where
  "ensure_bridge_address B =
     then_act (context_act ''failed to inspect bridge address''
         (run_net (bh_net B) (host_cmd ''ip'' [''addr'', ''show'', ''dev'', BRIDGE_NAME]))) (\<lambda>out.
       let addresses = parse_ipv4_addresses (ho_stdout out) in
       if BRIDGE_ADDRESS \<in> set addresses then pure (Inr ())
       else if list_ex (starts_with ''10.200.0.'') addresses
       then pure (bail ''the bridge has an incompatible Enclave subnet address'')
       else if addresses \<noteq> [] then pure (bail ''the bridge already exists with an incompatible IPv4 address'')
       else assign_bridge_address B)"

definition ensure_bridge :: "'h bridge_host \<Rightarrow> ('h net, unit) act" where
  "ensure_bridge B =
     then_act (ensure_subnet_available B) (\<lambda>_ st.
       then_act (if bh_exists B (nt_host st) then ensure_bridge_address B
                 else then_act (create_bridge B) (\<lambda>_. assign_bridge_address B)) (\<lambda>_.
       then_act (ensure_bridge_up B) (\<lambda>_. on_host (bh_disable_ipv6 B))) st)"

definition remove_bridge_if_idle :: "'h bridge_host \<Rightarrow> ('h net, bool) act" where
  "remove_bridge_if_idle B st =
     (if \<not> bh_exists B (nt_host st) then (Inr True, st)
      else (case bh_members B (nt_host st) of
              Inl e \<Rightarrow> (Inl e, st)
            | Inr members \<Rightarrow>
                if members \<noteq> [] then (Inr False, st)
                else then_act (bridge_ip B [''link'', ''set'', BRIDGE_NAME, ''down'']) (\<lambda>_.
                     then_act (bridge_ip B [''link'', ''delete'', BRIDGE_NAME, ''type'', ''bridge'']) (\<lambda>_.
                     pure (Inr True))) st))"

section \<open>The shared rules\<close>

record bridge_rule =
  br_table :: string
  br_chain :: string
  br_insert_first :: bool
  br_args :: "string list"
  br_legacy_args :: "string list"

definition BRIDGE_RULE_OWNER :: string where
  "BRIDGE_RULE_OWNER = ''bridge''"

definition RULE_TABLES :: "string list" where
  "RULE_TABLES = [''filter'', ''nat'']"

definition METADATA_IPV4_CIDR :: string where
  "METADATA_IPV4_CIDR = ''169.254.169.254/32''"

definition SUBNET_CIDR :: string where
  "SUBNET_CIDR = ''10.200.0.0/24''"

definition bridge_rule_of :: "string \<times> string \<times> bool \<times> string list \<times> string \<Rightarrow> bridge_rule" where
  "bridge_rule_of spec =
     (case spec of (table, ch, insert_first, matches, target) \<Rightarrow>
        \<lparr> br_table = table, br_chain = ch, br_insert_first = insert_first,
          br_args = matches @ comment_args BRIDGE_RULE_OWNER @ [''-j'', target],
          br_legacy_args = matches @ [''-j'', target] \<rparr>)"

definition bridge_rules :: "bridge_rule list" where
  "bridge_rules = map bridge_rule_of
     [(''filter'', ''INPUT'', True, [''-i'', BRIDGE_NAME, ''-m'', ''addrtype'', ''--dst-type'', ''LOCAL''], ''DROP''),
      (''filter'', ''FORWARD'', True, [''-i'', BRIDGE_NAME, ''-o'', BRIDGE_NAME], ''DROP''),
      (''filter'', ''FORWARD'', True, [''-s'', SUBNET_CIDR, ''-d'', METADATA_IPV4_CIDR], ''DROP''),
      (''filter'', ''FORWARD'', False, [''-s'', SUBNET_CIDR], ''ACCEPT''),
      (''filter'', ''FORWARD'', False,
         [''-d'', SUBNET_CIDR, ''-m'', ''conntrack'', ''--ctstate'', ''RELATED,ESTABLISHED''], ''ACCEPT''),
      (''nat'', ''POSTROUTING'', False, [''-s'', SUBNET_CIDR], ''MASQUERADE'')]"

definition list_owned_rules_in_table :: "'h net_host \<Rightarrow> string \<Rightarrow> string \<Rightarrow> ('h net, owned_rule list) act" where
  "list_owned_rules_in_table N iptables table =
     then_act (context_act ''failed to list rules'' (run_checked (run_net N) (host_cmd iptables [''-t'', table, ''-S''])))
       (\<lambda>out. pure (Inr (map (\<lambda>rule. rule\<lparr> or_table := table \<rparr>) (parse_owned_rules (ho_stdout out)))))"

fun list_owned_rules_in :: "'h net_host \<Rightarrow> string \<Rightarrow> string list \<Rightarrow> ('h net, owned_rule list) act" where
  "list_owned_rules_in N iptables [] = pure (Inr [])"
| "list_owned_rules_in N iptables (table # tables) =
     then_act (list_owned_rules_in_table N iptables table) (\<lambda>rules.
     then_act (list_owned_rules_in N iptables tables) (\<lambda>tokens. pure (Inr (rules @ tokens))))"

definition list_owned_rules_across_tables :: "'h net_host \<Rightarrow> string \<Rightarrow> ('h net, owned_rule list) act" where
  "list_owned_rules_across_tables N iptables = list_owned_rules_in N iptables RULE_TABLES"

definition matches_bridge_rule :: "bridge_rule \<Rightarrow> owned_rule \<Rightarrow> bool" where
  "matches_bridge_rule installed rule \<longleftrightarrow>
     br_table installed = or_table rule \<and> br_chain installed = or_chain rule \<and> br_args installed = split_rule_args (or_rule rule)"

definition stale_bridge_rules :: "bridge_rule list \<Rightarrow> owned_rule list \<Rightarrow> owned_rule list" where
  "stale_bridge_rules rules owned =
     filter (\<lambda>rule. or_owner rule = BRIDGE_RULE_OWNER \<and> \<not> list_ex (\<lambda>installed. matches_bridge_rule installed rule) rules) owned"

fun delete_owned :: "'h net_host \<Rightarrow> string \<Rightarrow> owned_rule list \<Rightarrow> ('h net, unit) act" where
  "delete_owned N iptables [] = pure (Inr ())"
| "delete_owned N iptables (owned # rest) =
     then_act (delete_rule N iptables (or_table owned) (or_chain owned) (split_rule_args (or_rule owned)))
       (\<lambda>_. delete_owned N iptables rest)"

definition retire_stale_bridge_rules :: "'h net_host \<Rightarrow> string \<Rightarrow> bridge_rule list \<Rightarrow> ('h net, unit) act" where
  "retire_stale_bridge_rules N iptables rules =
     then_act (list_owned_rules_across_tables N iptables) (\<lambda>owned.
       delete_owned N iptables (stale_bridge_rules rules owned))"

definition remove_legacy_bridge_rule :: "'h net_host \<Rightarrow> string \<Rightarrow> bridge_rule \<Rightarrow> ('h net, unit) act" where
  "remove_legacy_bridge_rule N iptables rule =
     delete_rule N iptables (br_table rule) (br_chain rule) (br_legacy_args rule)"

definition verify_bridge_rules :: "'h net_host \<Rightarrow> string \<Rightarrow> bridge_rule list \<Rightarrow> ('h net, unit) act" where
  "verify_bridge_rules N iptables rules =
     then_act (list_owned_rules_across_tables N iptables) (\<lambda>present.
       pure (if filter (\<lambda>rule. \<not> list_ex (matches_bridge_rule rule) present) rules = [] then Inr ()
             else bail ''shared bridge firewall rules are incomplete''))"

fun install_bridge_rules :: "'h net_host \<Rightarrow> string \<Rightarrow> bridge_rule list \<Rightarrow> ('h net, unit) act" where
  "install_bridge_rules N iptables [] = pure (Inr ())"
| "install_bridge_rules N iptables (rule # rules) =
     then_act (ensure_rule N iptables (br_table rule) (br_chain rule) (br_args rule) (br_insert_first rule)) (\<lambda>_.
     then_act (remove_legacy_bridge_rule N iptables rule) (\<lambda>_. install_bridge_rules N iptables rules))"

fun remove_legacy_rules :: "'h net_host \<Rightarrow> string \<Rightarrow> bridge_rule list \<Rightarrow> ('h net, unit) act" where
  "remove_legacy_rules N iptables [] = pure (Inr ())"
| "remove_legacy_rules N iptables (rule # rules) =
     then_act (remove_legacy_bridge_rule N iptables rule) (\<lambda>_. remove_legacy_rules N iptables rules)"

definition ensure_ipv4_forwarding :: "'h bridge_host \<Rightarrow> ('h net, unit) act" where
  "ensure_ipv4_forwarding B st =
     (case with_context ''failed to read IPv4 forwarding state'' (bh_forwarding B (nt_host st)) of
        Inl e \<Rightarrow> (Inl e, st)
      | Inr setting \<Rightarrow> (if trim setting = ''1'' then Inr () else bail ''IPv4 forwarding is disabled'', st))"

definition ensure_nat :: "'h bridge_host \<Rightarrow> ('h net, unit) act" where
  "ensure_nat B =
     then_act (ensure_ipv4_forwarding B) (\<lambda>_.
     then_act (detect_iptables (bh_net B)) (\<lambda>iptables.
     then_act (retire_stale_bridge_rules (bh_net B) iptables bridge_rules) (\<lambda>_.
     then_act (install_bridge_rules (bh_net B) iptables bridge_rules) (\<lambda>_.
       verify_bridge_rules (bh_net B) iptables bridge_rules))))"

definition remove_nat :: "'h bridge_host \<Rightarrow> ('h net, unit) act" where
  "remove_nat B =
     then_act (detect_iptables (bh_net B)) (\<lambda>iptables.
     then_act (retire_stale_bridge_rules (bh_net B) iptables []) (\<lambda>_.
       remove_legacy_rules (bh_net B) iptables bridge_rules))"

text \<open>The flag that remembers a completed setup, and the setup and its end under the lock.\<close>

definition ensure_host_networking :: "'h bridge_host \<Rightarrow> bool \<Rightarrow> 'h net \<Rightarrow> unit result \<times> bool \<times> 'h net" where
  "ensure_host_networking B ready st =
     (if ready \<and> bh_exists B (nt_host st) then (Inr (), ready, st)
      else (case then_act (context_act ''failed to set up enclave bridge'' (ensure_bridge B))
                   (\<lambda>_. context_act ''failed to set up NAT'' (ensure_nat B)) st of
              (Inl e, st') \<Rightarrow> (Inl e, ready, st')
            | (Inr _, st') \<Rightarrow> (Inr (), True, st')))"

definition cleanup_host_networking :: "'h bridge_host \<Rightarrow> bool \<Rightarrow> 'h net \<Rightarrow> bool \<times> 'h net" where
  "cleanup_host_networking B ready st =
     (case remove_bridge_if_idle B st of
        (Inr True, st') \<Rightarrow> (False, snd (remove_nat B st'))
      | (_, st') \<Rightarrow> (ready, st'))"

section \<open>What the setup shows\<close>

definition rule_listed :: "bridge_rule \<Rightarrow> string \<Rightarrow> bool" where
  "rule_listed rule listing \<longleftrightarrow> (\<exists>owned \<in> set (parse_owned_rules listing).
     or_chain owned = br_chain rule \<and> split_rule_args (or_rule owned) = br_args rule)"

lemma owned_in_table:
  assumes "list_owned_rules_in_table N iptables table st = (Inr owned, st')"
  obtains out where "run_checked (run_net N) (host_cmd iptables [''-t'', table, ''-S'']) st = (Inr out, st')"
    "owned = map (\<lambda>rule. rule\<lparr> or_table := table \<rparr>) (parse_owned_rules (ho_stdout out))"
  using assms by (auto simp: list_owned_rules_in_table_def act_simps)

lemma verified_rules_listed:
  assumes "verify_bridge_rules N iptables rules st = (Inr (), st')"
    and "\<And>rule. rule \<in> set rules \<Longrightarrow> br_table rule = ''filter'' \<or> br_table rule = ''nat''"
  shows "\<exists>filter_out nat_out st1.
    run_checked (run_net N) (host_cmd iptables [''-t'', ''filter'', ''-S'']) st = (Inr filter_out, st1) \<and>
    run_checked (run_net N) (host_cmd iptables [''-t'', ''nat'', ''-S'']) st1 = (Inr nat_out, st') \<and>
    (\<forall>rule \<in> set rules. rule_listed rule (ho_stdout (if br_table rule = ''filter'' then filter_out else nat_out)))"
proof -
  obtain a b st1 where l: "list_owned_rules_in_table N iptables ''filter'' st = (Inr a, st1)"
      "list_owned_rules_in_table N iptables ''nat'' st1 = (Inr b, st')"
    and all: "\<And>rule. rule \<in> set rules \<Longrightarrow> list_ex (matches_bridge_rule rule) (a @ b)"
    using assms(1)
    by (auto simp: verify_bridge_rules_def list_owned_rules_across_tables_def RULE_TABLES_def act_simps
        filter_empty_conv split: if_splits)
  obtain fo where fo: "run_checked (run_net N) (host_cmd iptables [''-t'', ''filter'', ''-S'']) st = (Inr fo, st1)"
      "a = map (\<lambda>rule. rule\<lparr> or_table := ''filter'' \<rparr>) (parse_owned_rules (ho_stdout fo))"
    using l(1) by (rule owned_in_table)
  obtain no where no: "run_checked (run_net N) (host_cmd iptables [''-t'', ''nat'', ''-S'']) st1 = (Inr no, st')"
      "b = map (\<lambda>rule. rule\<lparr> or_table := ''nat'' \<rparr>) (parse_owned_rules (ho_stdout no))"
    using l(2) by (rule owned_in_table)
  have "rule_listed rule (ho_stdout (if br_table rule = ''filter'' then fo else no))" if "rule \<in> set rules" for rule
    using all [OF that] assms(2) [OF that] unfolding fo(2) no(2)
    by (auto simp: list_ex_iff matches_bridge_rule_def rule_listed_def)
  then show ?thesis using fo(1) no(1) by blast
qed

lemma bridge_rule_tables: "rule \<in> set bridge_rules \<Longrightarrow> br_table rule = ''filter'' \<or> br_table rule = ''nat''"
  by (auto simp: bridge_rules_def bridge_rule_of_def)

lemma nat_verified:
  assumes "ensure_nat B st = (Inr (), st')"
  obtains iptables st1 where "verify_bridge_rules (bh_net B) iptables bridge_rules st1 = (Inr (), st')"
  using assms by (auto simp: ensure_nat_def act_simps)

lemma subnet_checked:
  assumes "ensure_bridge B st = (Inr (), st')"
  obtains out st1 where "run_checked (run_net (bh_net B)) (host_cmd ''ip'' [''-o'', ''-4'', ''addr'', ''show'']) st = (Inr out, st1)"
    "parse_subnet_conflicts (ho_stdout out) = []"
  using assms by (auto simp: ensure_bridge_def ensure_subnet_available_def subnet_conflicts_def act_simps split: if_splits)

lemma stale_keeps_installed:
  "owned \<in> set (stale_bridge_rules bridge_rules listed) \<Longrightarrow>
   or_owner owned = BRIDGE_RULE_OWNER \<and> \<not> list_ex (\<lambda>installed. matches_bridge_rule installed owned) bridge_rules"
  by (simp add: stale_bridge_rules_def)


text \<open>A host where an earlier setup has left the rules of this release, as its listings show.\<close>

definition listed_text :: "bridge_rule \<Rightarrow> string" where
  "listed_text rule = join_with '' '' (br_args rule)"

definition sample_table :: "string \<Rightarrow> string" where
  "sample_table table = concat (map (\<lambda>rule. ''-A '' @ br_chain rule @ '' '' @ listed_text rule @ [CHR 0x0A])
     (filter (\<lambda>rule. br_table rule = table) bridge_rules))"

definition sample_output :: "string list \<Rightarrow> host_output" where
  "sample_output args =
     (if args = [''-t'', ''filter'', ''-S''] then \<lparr> ho_success = True, ho_stdout = sample_table ''filter'', ho_stderr = [] \<rparr>
      else if args = [''-t'', ''nat'', ''-S''] then \<lparr> ho_success = True, ho_stdout = sample_table ''nat'', ho_stderr = [] \<rparr>
      else if ''-D'' \<in> set args then
        \<lparr> ho_success = False, ho_stdout = [], ho_stderr = ''does a matching rule exist in that chain?'' \<rparr>
      else \<lparr> ho_success = True, ho_stdout = [], ho_stderr = [] \<rparr>)"

definition sample_bridge_host :: "unit bridge_host" where
  "sample_bridge_host = \<lparr>
     bh_net = \<lparr> nh_run = (\<lambda>cmd h. (Inr (sample_output (hc_args cmd)), h)),
       nh_netns_run = (\<lambda>_ _ h. (bail ''no namespace'', h)), nh_present = (\<lambda>_ _. False), nh_member = (\<lambda>_ _. False),
       nh_exists = (\<lambda>_ _. Inr False), nh_disable_ipv6 = (\<lambda>_ h. h), nh_sleep = (\<lambda>_ h. h) \<rparr>,
     bh_exists = (\<lambda>_. False), bh_members = (\<lambda>_. Inr []), bh_forwarding = (\<lambda>_. Inr ''1''),
     bh_disable_ipv6 = (\<lambda>h. (Inr (), h)) \<rparr>"

definition sample_state :: "unit net" where
  "sample_state = \<lparr> nt_host = (), nt_detected = Some ''iptables'' \<rparr>"

definition listed_owned :: "bridge_rule \<Rightarrow> owned_rule" where
  "listed_owned rule = \<lparr> or_table = br_table rule, or_chain = br_chain rule, or_owner = BRIDGE_RULE_OWNER,
     or_rule = listed_text rule \<rparr>"

lemma sample_filter_rules:
  "parse_owned_rules (sample_table ''filter'') = map (\<lambda>rule. (listed_owned rule)\<lparr> or_table := [] \<rparr>) (take 5 bridge_rules)"
  by code_simp

lemma sample_nat_rules:
  "parse_owned_rules (sample_table ''nat'') = map (\<lambda>rule. (listed_owned rule)\<lparr> or_table := [] \<rparr>) (drop 5 bridge_rules)"
  by code_simp

lemma sample_listing_runs:
  "table = ''filter'' \<or> table = ''nat'' \<Longrightarrow>
   list_owned_rules_in_table (bh_net sample_bridge_host) ''iptables'' table sample_state =
     (Inr (map (\<lambda>rule. rule\<lparr> or_table := table \<rparr>) (parse_owned_rules (sample_table table))), sample_state)"
  by (auto simp: list_owned_rules_in_table_def act_simps run_net_def on_host_def sample_bridge_host_def
      sample_output_def host_cmd_def)

lemma sample_owned_rules:
  "list_owned_rules_across_tables (bh_net sample_bridge_host) ''iptables'' sample_state =
     (Inr (map listed_owned bridge_rules), sample_state)"
proof -
  have filter_in: "br_table rule = ''filter''" if "rule \<in> set (take 5 bridge_rules)" for rule
    using that by (auto simp: bridge_rules_def bridge_rule_of_def)
  have nat_in: "br_table rule = ''nat''" if "rule \<in> set (drop 5 bridge_rules)" for rule
    using that by (auto simp: bridge_rules_def bridge_rule_of_def)
  have "list_owned_rules_in_table (bh_net sample_bridge_host) ''iptables'' ''filter'' sample_state =
      (Inr (map listed_owned (take 5 bridge_rules)), sample_state)"
    by (simp add: sample_listing_runs sample_filter_rules listed_owned_def filter_in cong: map_cong)
  moreover have "list_owned_rules_in_table (bh_net sample_bridge_host) ''iptables'' ''nat'' sample_state =
      (Inr (map listed_owned (drop 5 bridge_rules)), sample_state)"
    by (simp add: sample_listing_runs sample_nat_rules listed_owned_def nat_in cong: map_cong)
  ultimately show ?thesis
    by (simp add: list_owned_rules_across_tables_def RULE_TABLES_def act_simps flip: map_append)
qed

lemma sample_present_rule:
  "''-D'' \<notin> set args \<Longrightarrow> ch \<noteq> ''-D'' \<Longrightarrow> table \<noteq> ''-D'' \<Longrightarrow>
   ensure_rule (bh_net sample_bridge_host) ''iptables'' table ch args first sample_state = (Inr (), sample_state)"
  by (simp add: ensure_rule_def act_simps run_net_def on_host_def sample_bridge_host_def sample_output_def host_cmd_def)

lemma sample_absent_rule:
  "delete_rule (bh_net sample_bridge_host) ''iptables'' table ch args sample_state = (Inr (), sample_state)"
proof -
  have "is_rule_missing_error ''does a matching rule exist in that chain?''" by code_simp
  then show ?thesis
    by (simp add: delete_rule_def act_simps run_net_def on_host_def sample_bridge_host_def sample_output_def host_cmd_def)
qed

lemma sample_install:
  "list_all (\<lambda>rule. ''-D'' \<notin> set (br_args rule) \<and> br_chain rule \<noteq> ''-D'' \<and> br_table rule \<noteq> ''-D'') rules \<Longrightarrow>
   install_bridge_rules (bh_net sample_bridge_host) ''iptables'' rules sample_state = (Inr (), sample_state)"
  by (induction rules) (simp_all add: act_simps sample_present_rule sample_absent_rule remove_legacy_bridge_rule_def)

lemma sample_bridge: "ensure_bridge sample_bridge_host sample_state = (Inr (), sample_state)"
  by code_simp

lemma bridge_rules_bare:
  "list_all (\<lambda>rule. list_all (\<lambda>a. a \<noteq> [] \<and> list_all bare_byte a) (br_args rule)) bridge_rules"
  by code_simp

lemma listed_owned_matches: "rule \<in> set bridge_rules \<Longrightarrow> matches_bridge_rule rule (listed_owned rule)"
  by (simp add: matches_bridge_rule_def listed_owned_def listed_text_def split_join_bare
      bridge_rules_bare [unfolded list_all_iff [of _ bridge_rules], rule_format])

lemma sample_nothing_stale: "stale_bridge_rules bridge_rules (map listed_owned bridge_rules) = []"
  using listed_owned_matches by (auto simp: stale_bridge_rules_def filter_empty_conv list_ex_iff)

lemma sample_all_present: "filter (\<lambda>rule. \<not> list_ex (matches_bridge_rule rule) (map listed_owned bridge_rules)) bridge_rules = []"
  using listed_owned_matches by (auto simp: filter_empty_conv list_ex_iff)

lemma sample_nat: "ensure_nat sample_bridge_host sample_state = (Inr (), sample_state)"
proof -
  have "ensure_ipv4_forwarding sample_bridge_host sample_state = (Inr (), sample_state)" by code_simp
  moreover have "detect_iptables (bh_net sample_bridge_host) sample_state = (Inr ''iptables'', sample_state)" by code_simp
  moreover have "retire_stale_bridge_rules (bh_net sample_bridge_host) ''iptables'' bridge_rules sample_state = (Inr (), sample_state)"
    by (simp add: retire_stale_bridge_rules_def act_simps sample_owned_rules sample_nothing_stale)
  moreover have "verify_bridge_rules (bh_net sample_bridge_host) ''iptables'' bridge_rules sample_state = (Inr (), sample_state)"
    by (simp add: verify_bridge_rules_def act_simps sample_owned_rules sample_all_present)
  moreover have "install_bridge_rules (bh_net sample_bridge_host) ''iptables'' bridge_rules sample_state = (Inr (), sample_state)"
    by (rule sample_install) code_simp
  ultimately show ?thesis by (simp add: ensure_nat_def act_simps)
qed

lemma sample_setup: "ensure_host_networking sample_bridge_host False sample_state = (Inr (), True, sample_state)"
  using sample_bridge sample_nat by (simp add: ensure_host_networking_def then_act_def context_act_def with_context_def)


end
