(* ===== verification/Spec2Isabelle.thy ===== *)
theory Spec2Isabelle
  imports Ipam Ordered_Map Leases Policy Port_Spec Resource_Limits Metadata Fsutil Registry_Store
    Policy_Store Rate_Limiter Exec_Queue Histogram Deadlines Activity Sweeper Operations Selectors
    Requests State_Lock Workspace_System Bridge
begin

text \<open>
  Enclave: a daemon that runs sandboxes and workspaces on one host.
\<close>

section \<open>Requests and leases together\<close>

text \<open>C1: Lifecycle requests for one workspace are serialized whichever way they name it: if two
  threads of the daemon hold the leases that the dispatcher computes for two lifecycle requests whose
  selectors resolve to the same workspace in the registry, they are the same thread.
\<close>

theorem lifecycle_requests_serialized:
  assumes "registry_ok r" "is_lifecycle a" "is_lifecycle b"
    and "requests_workspace r params w" "requests_workspace r params' w"
    and "scope_for (Inr r) (Inr r) a params = Some x" "scope_for (Inr r) (Inr r) b params' = Some y"
    and "lease_reach S" "i < length (ls_threads S)" "j < length (ls_threads S)"
    and "owns_lease (ls_threads S ! i) x" "owns_lease (ls_threads S ! j) y"
  shows "i = j"
  using scopes_for_one_workspace_overlap [OF assms(1-7)] overlap_excluded [OF assms(8-10) _ assms(11,12)]
  by blast

definition by_name :: str_params where
  "by_name = [''sandbox'' \<mapsto> ''s'', ''workspace'' \<mapsto> ''w'']"

definition one_workspace :: "lease_event list" where
  "one_workspace = [Request 0 (WorkspaceScope ''s-1'' ''w-1''), Attempt 0 False, Attempt 0 False, Attempt 0 False]"

lemma by_name_requests:
  "requests_workspace sample_registry by_name ((blank_workspace ''s-1'' ''w-1'')\<lparr> wm_name := ''w'' \<rparr>)"
  using sample_registry_select by (simp add: requests_workspace_def selector_param_def by_name_def)

lemma by_name_scope:
  "scope_for (Inr sample_registry) (Inr sample_registry) AWorkspaceStop by_name =
     Some (WorkspaceScope ''s-1'' ''w-1'')"
proof -
  have "resolve_sandbox_key (Inr sample_registry) ''s'' = ''s-1''"
    "resolve_workspace_key (Inr sample_registry) ''s-1'' ''w'' = ''w-1''"
    using workspace_metadata_of_found [OF sample_registry_ok sample_registry_select]
      workspace_metadata_of_id [OF sample_registry_ok sample_registry_select]
    by (simp_all add: resolve_sandbox_key_def resolve_workspace_key_def blank_workspace_def)
  then show ?thesis
    by (simp add: scope_for_def lifecycle_defs selector_param_def by_name_def Let_def)
qed

theorem lifecycle_requests_serialized_witness:
  "\<exists>S. lease_reach S \<and> owns_lease (ls_threads S ! 0) (WorkspaceScope ''s-1'' ''w-1'') \<and>
     length (ls_threads S) = 2 \<and> \<not> owns_lease (ls_threads S ! 1) (WorkspaceScope ''s-1'' ''w-1'')"
proof -
  define S where "S = the (lease_run one_workspace (lease_init 2))"
  have run: "lease_run one_workspace (lease_init 2) = Some S"
    and own: "owns_lease (ls_threads S ! 0) (WorkspaceScope ''s-1'' ''w-1'')"
    and len: "length (ls_threads S) = 2"
    unfolding S_def one_workspace_def
    by (simp_all add: lease_run_simps owns_lease_def numeral_2_eq_2)
  have reach: "lease_reach S" by (rule lease_run_reach [OF reach_init run])
  have life: "is_lifecycle AWorkspaceStop" by (simp add: is_lifecycle_def lifecycle_defs)
  show ?thesis
    using lifecycle_requests_serialized [OF sample_registry_ok life life by_name_requests by_name_requests
        by_name_scope by_name_scope reach, of 0 1] own len reach by auto
qed

end
